theory Spec2Isabelle
  imports Main "HOL-Library.Word" "HOL-Library.AList"
begin

section \<open>Numbers, protocol constants and values\<close>

text \<open>
  JavaScript numbers are IEEE-754 doubles. Every counter of the transport stays inside
  the range \<open>[-2^53, 2^53]\<close>, where doubles are exact integers and \<open>x + 1\<close>, \<open>x - 1\<close>
  do not round, so the counters are modelled as \<open>int\<close>. Numbers inside JSON trees are
  modelled as integers as well; fractional numbers are outside the model.
\<close>

definition MAX_SAFE_INTEGER :: int where
  "MAX_SAFE_INTEGER = 2 ^ 53 - 1"

definition MIN_SAFE_INTEGER :: int where
  "MIN_SAFE_INTEGER = - (2 ^ 53 - 1)"

text \<open>\<open>Protocol.ts\<close>: the packet types with their numeric wire values, and the opcodes.\<close>

datatype PacketType =
    Bundle | Transmit | Invoke | InvokeDataResp | InvokeErrResp | BinaryContent
  | StreamAccept | StreamChunk | StreamEnd | StreamDataPermission
  | WriteStreamClose | ReadStreamClose

fun packetTypeCode :: "PacketType \<Rightarrow> nat" where
  "packetTypeCode Bundle = 0"
| "packetTypeCode Transmit = 1"
| "packetTypeCode Invoke = 2"
| "packetTypeCode InvokeDataResp = 3"
| "packetTypeCode InvokeErrResp = 4"
| "packetTypeCode BinaryContent = 5"
| "packetTypeCode StreamAccept = 6"
| "packetTypeCode StreamChunk = 7"
| "packetTypeCode StreamEnd = 8"
| "packetTypeCode StreamDataPermission = 9"
| "packetTypeCode WriteStreamClose = 10"
| "packetTypeCode ReadStreamClose = 11"

definition PING_UINT8 :: "8 word" where
  "PING_UINT8 = 57"

definition PONG_UINT8 :: "8 word" where
  "PONG_UINT8 = 65"

text \<open>
  Modelled from the spec: \<open>MAX_UINT_32\<close> of \<open>Utils.ts\<close>, which is not among the sources;
  the spec names it as the largest unsigned 32-bit value.
\<close>

definition MAX_UINT_32 :: nat where
  "MAX_UINT_32 = 4294967295"

definition NEXT_BINARIES_PACKET_TOKEN :: nat where
  "NEXT_BINARIES_PACKET_TOKEN = MAX_UINT_32"

text \<open>
  Modelled from the spec: the enumeration \<open>DataType\<close> of \<open>DataType.ts\<close>, which is not
  among the sources. The numeric wire values of its members are unknown and never used.
\<close>

datatype DataType =
    JSON | Binary | Stream | JSONWithBinaries | JSONWithStreams | JSONWithStreamsAndBinaries

text \<open>
  An \<open>ArrayBuffer\<close> is its bytes. A JSON tree as it travels in a text packet is a \<open>wire\<close>
  value; \<open>WDate\<close> is a \<open>Date\<close> object that the encoding walk has passed through (the
  JSON codec, outside the sources, turns it into a string afterwards). Objects are
  association lists in the enumeration order of \<open>for .. in\<close>.
\<close>

type_synonym blob = "8 word list"

datatype wire =
    WNull | WBool bool | WNum int | WStr string | WDate int
  | WArr "wire list" | WObj "(string \<times> wire) list"

text \<open>
  A \<open>WriteStream\<close> object (class not among the sources): its identity, its \<open>binary\<close>
  flag and the value its \<open>toJSON()\<close> returns.
\<close>

record WriteStream =
  ws_ref :: nat
  binary :: bool
  toJSON :: wire

text \<open>The values a user hands to the transport (the tagged variant of the spec).\<close>

datatype payload =
    PNull | PBool bool | PNum int | PStr string | PDate int | PBlob blob
  | PStream WriteStream | PArr "payload list" | PObj "(string \<times> payload) list"

text \<open>
  The values a listener can be handed: JSON, blobs taken from the binary content
  packet, read streams (\<open>RStream sid\<close> is \<open>new readStream(sid, transport)\<close>), and
  \<open>undefined\<close> for a blob index outside the received list. \<open>RDate\<close> is a \<open>Date\<close>
  object; the resolving walk never builds one. \<open>RStreamOf x\<close> is a read stream
  constructed with a stream id \<open>x\<close> that is no number. \<open>RObj\<close> is an object with the
  prototype of \<open>{}\<close> and the own properties listed; \<open>RProto p fields\<close> is an object with
  the own properties \<open>fields\<close> whose prototype was replaced by \<open>p\<close>, an object or \<open>null\<close>.
\<close>

datatype resolved =
    RUndefined | RNull | RBool bool | RNum int | RStr string | RDate int | RBlob blob
  | RStream int | RStreamOf "wire option"
  | RArr "resolved list" | RObj "(string \<times> resolved) list"
  | RProto resolved "(string \<times> resolved) list"

section \<open>Errors\<close>

datatype TimeoutType = BinaryResolve | InvokeResponse

text \<open>
  \<open>Thrown n\<close> is an exception raised by user code (a listener or a hook);
  \<open>HydratedError\<close> is what \<open>hydrateError\<close> (not among the sources) builds from the raw
  error of an \<open>InvokeErrResp\<close> packet.
\<close>

datatype error =
    Error string
  | RangeError
  | TypeError
  | InvalidActionError int
  | TimeoutError TimeoutType
  | BadConnectionError string "string option"
  | MaxSupportedArrayBufferSizeExceededError
  | HydratedError "wire option"
  | Thrown nat

section \<open>The transport state\<close>

text \<open>
  The data type field of an inbound packet is whatever the peer sent: a member of
  \<open>DataType\<close>, another number, a value that is no number, or nothing.
\<close>

datatype dfield = DT DataType | DTOtherNumber | DTNotNumber | DTAbsent

text \<open>
  Outbound frames. A text head is the comma-joined list of its fields: a number, a
  name between double quotes (after \<open>escapeJSONString\<close>), a data type, and JSON text.
  The JSON codec and the error helpers are not among the sources, so JSON text is kept
  as the value it is made from: \<open>FJson\<close> is \<open>encodeJson\<close> of a tree the encoding walk
  has built, \<open>FRaw\<close> is \<open>encodeJson\<close> of a user value as it is, \<open>FDehydrated\<close> is
  \<open>encodeJson(dehydrateError(err))\<close>, and \<open>FJSONStringClass\<close> is
  \<open>JSONString.toString()\<close>.
\<close>

datatype reject_arg = JSONStringArg string | ErrorArg nat

datatype field =
    FNum int | FQuoted string | FType DataType | FJson wire | FRaw payload
  | FDehydrated nat | FJSONStringClass

datatype frame =
    TextFrame PacketType "field list"
  | BinaryContentFrame int "blob list"
  | BinaryStreamFrame PacketType int blob
  | PingFrame
  | PongFrame

text \<open>
  An entry of \<open>_invokeResponsePromises\<close>: \<open>resolve\<close> and \<open>reject\<close> belong to the promise
  \<open>e_promise\<close>; \<open>e_timeout\<close> is the timer handle, if one is set.
\<close>

record invoke_entry =
  e_promise :: nat
  e_timeout :: "nat option"
  e_returnDataType :: bool

text \<open>
  Closures as data. A \<open>data_cb\<close> is one of the callbacks the source hands to
  \<open>_processData\<close>; a \<open>resolver_cb\<close> is one of the two callbacks \<open>_processData\<close> hands to
  \<open>_resolveBinaryContent\<close>. \<open>MemberRespCb\<close> is the callback of an \<open>InvokeDataResp\<close>
  packet whose \<open>resp\<close> is no entry of the map but a member of \<open>Object.prototype\<close>.
\<close>

datatype data_cb =
    TransmitCb string dfield
  | InvokeCb string int dfield
  | InvokeRespCb invoke_entry dfield
  | MemberRespCb
  | ChunkCb nat

record resolve_options =
  parseStreams :: bool
  parseBinaries :: bool

datatype resolver_cb =
    BinaryCb data_cb
  | MixedCb "wire option" resolve_options data_cb

record BinaryContentResolver =
  callback :: resolver_cb
  timeout :: nat

text \<open>
  The keys of \<open>_binaryContentResolver\<close>. The source indexes the map with a number, but
  \<open>_processData\<close> also reaches \<open>_resolveBinaryContent\<close> with a value that is no number;
  such a key is kept as the value. (JavaScript turns every key into a string; that a
  string or an array can name the same property as a number is not modelled.)
\<close>

datatype pkey = NumKey int | ValKey "wire option"

text \<open>What a running timer will do: the closures handed to \<open>setTimeout\<close>.\<close>

datatype timer_task =
    InvokeTimeout int nat
  | BinaryResolveTimeout pkey resolver_cb

text \<open>
  \<open>Promise.all([sent, ...closed]).then(setResponseTimeout)\<close> of \<open>prepareInvoke\<close>: the
  call id and promise of the invoke, the timeout asked for, whether \<open>sent\<close> has resolved,
  the write streams whose \<open>closed\<close> has not resolved yet, and whether the \<open>then\<close>
  callback has run.
\<close>

record response_join =
  j_callId :: int
  j_promise :: nat
  j_responseTimeout :: "int option"
  j_sent :: bool
  j_waiting :: "nat list"
  j_done :: bool

datatype resolve_value = Plain resolved | WithType resolved dfield

text \<open>Calls into the stream classes, which are not among the sources.\<close>

datatype stream_call =
    W_init int | W_onTransmitted | W_open int | W_addDataPermission int
  | W_readStreamClose "int option" | W_emitBadConnection
  | R_pushChunkPromise nat dfield | R_pushChunkBinary blob | R_end
  | R_writeStreamClose int | R_emitBadConnection

text \<open>
  Everything the transport does to the outside world is recorded, in order, in the
  \<open>trace\<close>: frames handed to \<open>send\<close>, calls of \<open>cork\<close> (whose callback then runs),
  calls of the package buffer, hooks called, promises settled, resolver callbacks
  called, read streams constructed, stream objects called, timers set and cleared.
\<close>

datatype effect =
    Send frame
  | Cork
  | ClearBatchTime
  | FlushBuffer
  | CallOnPing
  | CallOnPong
  | CallOnTransmit string resolved dfield
  | CallOnInvoke string resolved dfield
  | CallOnListenerError error
  | CallOnInvalidMessage error
  | PromiseResolve nat resolve_value
  | PromiseReject nat error
  | ResolverCallback resolver_cb "error + blob list"
  | NewReadStream resolved
  | StreamCall nat stream_call
  | SetTimeout nat int
  | ClearTimeout "nat option"

record TransportOptions =
  responseTimeout :: int
  binaryContentPacketTimeout :: int
  streamsPerPackageLimit :: int
  streamsEnabled :: bool
  chunksCanContainStreams :: bool

definition DEFAULT_OPTIONS :: TransportOptions where
  "DEFAULT_OPTIONS = \<lparr> responseTimeout = 10000, binaryContentPacketTimeout = 10000,
     streamsPerPackageLimit = 20, streamsEnabled = True, chunksCanContainStreams = False \<rparr>"

text \<open>
  The fields of the class \<open>Transport\<close>. The stream maps hold object identities. The
  timers that are running, the promises created so far, the pending joins of
  \<open>prepareInvoke\<close> and the write streams whose \<open>closed\<close> promise has resolved belong to
  the JavaScript runtime and are kept here as well, and so is the record of what the
  transport did (\<open>trace\<close>, \<open>observed\<close>).
\<close>

record transport =
  options :: TransportOptions
  is_open :: bool
  badConnectionStamp :: int
  binaryContentPacketId :: int
  binaryContentResolver :: "(pkey \<times> BinaryContentResolver) list"
  objectStreamId :: int
  binaryStreamId :: int
  activeReadStreams :: "(int \<times> nat) list"
  activeWriteStreams :: "(int \<times> nat) list"
  cid :: int
  invokeResponsePromises :: "(int \<times> invoke_entry) list"
  timers :: "(nat \<times> timer_task) list"
  nextTimer :: nat
  nextPromise :: nat
  responseJoins :: "response_join list"
  closedWriteStreams :: "nat list"
  trace :: "effect list"
  observed :: "(bool \<times> int) list"

text \<open>The constructor: the field initialisers of the class.\<close>

definition new_transport :: "TransportOptions \<Rightarrow> bool \<Rightarrow> transport" where
  "new_transport opts connected =
     \<lparr> options = opts, is_open = connected, badConnectionStamp = MIN_SAFE_INTEGER,
       binaryContentPacketId = 0, binaryContentResolver = [],
       objectStreamId = 1, binaryStreamId = - 1,
       activeReadStreams = [], activeWriteStreams = [],
       cid = 0, invokeResponsePromises = [],
       timers = [], nextTimer = 0, nextPromise = 0,
       responseJoins = [], closedWriteStreams = [], trace = [], observed = [] \<rparr>"

text \<open>
  An effect is added to the trace together with what the public fields \<open>open\<close> and
  \<open>badConnectionStamp\<close> show at that moment: \<open>observed\<close> runs parallel to \<open>trace\<close>.
\<close>

definition emit :: "effect \<Rightarrow> transport \<Rightarrow> transport" where
  "emit e st =
     st\<lparr>trace := trace st @ [e],
        observed := observed st @ [(is_open st, badConnectionStamp st)]\<rparr>"

section \<open>Identifier allocation\<close>

definition getNewBinaryContentPacketId :: "transport \<Rightarrow> int \<times> transport" where
  "getNewBinaryContentPacketId st =
     (let st1 = (if binaryContentPacketId st > MAX_SAFE_INTEGER
                 then st\<lparr>binaryContentPacketId := 0\<rparr> else st)
      in (binaryContentPacketId st1,
          st1\<lparr>binaryContentPacketId := binaryContentPacketId st1 + 1\<rparr>))"

definition generateNewBadConnectionStamp :: "transport \<Rightarrow> int" where
  "generateNewBadConnectionStamp st =
     (if badConnectionStamp st > MAX_SAFE_INTEGER then MIN_SAFE_INTEGER
      else badConnectionStamp st + 1)"

definition getNewCid :: "transport \<Rightarrow> int \<times> transport" where
  "getNewCid st =
     (let st1 = (if cid st > MAX_SAFE_INTEGER then st\<lparr>cid := 0\<rparr> else st)
      in (cid st1, st1\<lparr>cid := cid st1 + 1\<rparr>))"

definition getNewStreamId :: "bool \<Rightarrow> transport \<Rightarrow> int \<times> transport" where
  "getNewStreamId binaryStream st =
     (if binaryStream then
        (let st1 = (if binaryStreamId st < MIN_SAFE_INTEGER
                    then st\<lparr>binaryStreamId := - 1\<rparr> else st)
         in (binaryStreamId st1, st1\<lparr>binaryStreamId := binaryStreamId st1 - 1\<rparr>))
      else
        (let st1 = (if objectStreamId st > MAX_SAFE_INTEGER
                    then st\<lparr>objectStreamId := 1\<rparr> else st)
         in (objectStreamId st1, st1\<lparr>objectStreamId := objectStreamId st1 + 1\<rparr>)))"

text \<open>
  A sequence of allocations, one per flag (\<open>True\<close> for a binary stream), with the ids
  handed out, in order, each with its flag.
\<close>

fun allocate :: "bool list \<Rightarrow> transport \<Rightarrow> (bool \<times> int) list \<times> transport" where
  "allocate [] st = ([], st)"
| "allocate (b # bs) st =
     (let (i, st1) = getNewStreamId b st;
          (ids, st2) = allocate bs st1
      in ((b, i) # ids, st2))"

text \<open>The counters stay between their start value and one step past the safe bound.\<close>

definition stream_counters_ok :: "transport \<Rightarrow> bool" where
  "stream_counters_ok st \<longleftrightarrow>
     1 \<le> objectStreamId st \<and> objectStreamId st \<le> MAX_SAFE_INTEGER + 1 \<and>
     MIN_SAFE_INTEGER - 1 \<le> binaryStreamId st \<and> binaryStreamId st \<le> - 1"

section \<open>The value codec\<close>

text \<open>
  Modelled from the spec: \<open>escapePlaceholderSequence\<close> and \<open>unescapePlaceholderSequence\<close>
  of \<open>Utils.ts\<close>, which is not among the sources. The spec describes an invertible
  key escape that doubles a sentinel prefix character, so that no escaped key is a
  placeholder key. The walks below take the two functions as parameters \<open>esc\<close> and
  \<open>unesc\<close>; these definitions are one pair that fits the description.
\<close>

fun escapePlaceholderSequence :: "string \<Rightarrow> string" where
  "escapePlaceholderSequence (c # cs) = (if c = CHR ''_'' then c # c # cs else c # cs)"
| "escapePlaceholderSequence [] = []"

fun unescapePlaceholderSequence :: "string \<Rightarrow> string" where
  "unescapePlaceholderSequence (c # d # cs) =
     (if c = CHR ''_'' \<and> d = CHR ''_'' then d # cs else c # d # cs)"
| "unescapePlaceholderSequence cs = cs"

subsection \<open>Encoding: \<open>_processMixedJSONDeep\<close>\<close>

text \<open>
  The walk pushes every \<open>ArrayBuffer\<close> onto \<open>binaries\<close> and every \<open>WriteStream\<close> onto
  \<open>streams\<close>, and replaces them by the markers \<open>{_b: index}\<close> and \<open>{_s: streamId}\<close>.
  An array is rebuilt element by element; an object is cloned key by key. A \<open>Date\<close>
  and every primitive is returned as it is.

  The clone is made by \<open>{}\<close>, so the assignment \<open>clone[k] = v\<close> sets the own property \<open>k\<close>,
  but for the key \<open>__proto__\<close>: there it runs the setter of \<open>Object.prototype\<close>, which
  replaces the prototype of the clone when \<open>v\<close> is an object or \<open>null\<close> and creates no
  property. The clone goes to \<open>encodeJson\<close>, which writes own properties, so it is kept
  as its own properties. (The value has been walked by then: its blobs and streams are
  collected all the same. The escape of the spec turns one key into \<open>__proto__\<close>.)
\<close>

definition assignOwn :: "string \<Rightarrow> 'v \<Rightarrow> (string \<times> 'v) list \<Rightarrow> (string \<times> 'v) list" where
  "assignOwn k v clone = (if k = ''__proto__'' then clone else AList.update k v clone)"

fun processMixedJSONDeep ::
    "(string \<Rightarrow> string) \<Rightarrow> payload \<Rightarrow> blob list \<Rightarrow> WriteStream list \<Rightarrow> transport
      \<Rightarrow> wire \<times> blob list \<times> WriteStream list \<times> transport"
  and processElements ::
    "(string \<Rightarrow> string) \<Rightarrow> payload list \<Rightarrow> blob list \<Rightarrow> WriteStream list \<Rightarrow> transport
      \<Rightarrow> wire list \<times> blob list \<times> WriteStream list \<times> transport"
  and processFields ::
    "(string \<Rightarrow> string) \<Rightarrow> (string \<times> payload) list \<Rightarrow> (string \<times> wire) list
      \<Rightarrow> blob list \<Rightarrow> WriteStream list \<Rightarrow> transport
      \<Rightarrow> (string \<times> wire) list \<times> blob list \<times> WriteStream list \<times> transport"
where
  "processMixedJSONDeep esc (PBlob b) binaries streams st =
     (WObj [(''_b'', WNum (int (length (binaries @ [b])) - 1))], binaries @ [b], streams, st)"
| "processMixedJSONDeep esc (PStream w) binaries streams st =
     (if streamsEnabled (options st) then
        (let (streamId, st1) = getNewStreamId (binary w) st;
             st2 = emit (StreamCall (ws_ref w) (W_init streamId)) st1
         in (WObj [(''_s'', WNum streamId)], binaries, streams @ [w], st2))
      else (toJSON w, binaries, streams, st))"
| "processMixedJSONDeep esc (PArr xs) binaries streams st =
     (let (newArray, binaries1, streams1, st1) = processElements esc xs binaries streams st
      in (WArr newArray, binaries1, streams1, st1))"
| "processMixedJSONDeep esc (PObj kvs) binaries streams st =
     (let (clone, binaries1, streams1, st1) = processFields esc kvs [] binaries streams st
      in (WObj clone, binaries1, streams1, st1))"
| "processMixedJSONDeep esc (PDate d) binaries streams st = (WDate d, binaries, streams, st)"
| "processMixedJSONDeep esc PNull binaries streams st = (WNull, binaries, streams, st)"
| "processMixedJSONDeep esc (PBool b) binaries streams st = (WBool b, binaries, streams, st)"
| "processMixedJSONDeep esc (PNum n) binaries streams st = (WNum n, binaries, streams, st)"
| "processMixedJSONDeep esc (PStr s) binaries streams st = (WStr s, binaries, streams, st)"
| "processElements esc [] binaries streams st = ([], binaries, streams, st)"
| "processElements esc (x # xs) binaries streams st =
     (let (y, binaries1, streams1, st1) = processMixedJSONDeep esc x binaries streams st;
          (ys, binaries2, streams2, st2) = processElements esc xs binaries1 streams1 st1
      in (y # ys, binaries2, streams2, st2))"
| "processFields esc [] clone binaries streams st = (clone, binaries, streams, st)"
| "processFields esc ((key, x) # kvs) clone binaries streams st =
     (let (y, binaries1, streams1, st1) = processMixedJSONDeep esc x binaries streams st
      in processFields esc kvs (assignOwn (esc key) y clone) binaries1 streams1 st1)"

subsection \<open>Decoding: \<open>_resolveMixedJSONDeep\<close>\<close>

text \<open>
  The \<open>meta\<close> object of the walk: the binaries of the binary content packet, if one was
  referenced, and the count of streams resolved so far. \<open>created\<close> lists the read
  streams constructed so far, in order.
\<close>

record resolve_meta =
  m_binaries :: "blob list option"
  streamCount :: int
  created :: "int list"

text \<open>\<open>typeof value[k] === 'number'\<close>, with the number.\<close>

definition numberField :: "(string \<times> wire) list \<Rightarrow> string \<Rightarrow> int option" where
  "numberField kvs k = (case map_of kvs k of Some (WNum n) \<Rightarrow> Some n | _ \<Rightarrow> None)"

text \<open>\<open>binaries[i]\<close>: \<open>undefined\<close> outside the array.\<close>

definition binaryAt :: "blob list \<Rightarrow> int \<Rightarrow> resolved" where
  "binaryAt bs i = (if 0 \<le> i \<and> i < int (length bs) then RBlob (bs ! nat i) else RUndefined)"

text \<open>A decoded value as it is: plain data.\<close>

fun plainValue :: "wire \<Rightarrow> resolved"
  and plainElements :: "wire list \<Rightarrow> resolved list"
  and plainFields :: "(string \<times> wire) list \<Rightarrow> (string \<times> resolved) list"
where
  "plainValue WNull = RNull"
| "plainValue (WBool b) = RBool b"
| "plainValue (WNum n) = RNum n"
| "plainValue (WStr s) = RStr s"
| "plainValue (WDate d) = RDate d"
| "plainValue (WArr xs) = RArr (plainElements xs)"
| "plainValue (WObj kvs) = RObj (plainFields kvs)"
| "plainElements [] = []"
| "plainElements (x # xs) = plainValue x # plainElements xs"
| "plainFields [] = []"
| "plainFields ((key, x) # kvs) = (key, plainValue x) # plainFields kvs"

text \<open>
  The clone of the resolving walk: its prototype if that was replaced, and its own
  properties. For a key \<open>k\<close> the walk assigns \<open>clone[k] = value[key]\<close>, resolves the value
  in place and, where that makes a new value, assigns \<open>clone[k]\<close> again. For every key
  but \<open>__proto__\<close> this leaves the own property \<open>k\<close> with the resolved value. For
  \<open>__proto__\<close> both assignments run the setter of \<open>Object.prototype\<close> and the read in
  between runs its getter, and no own property is created: a primitive is ignored by
  the setter (the walk then resolves \<open>Object.prototype\<close>, which has no enumerable key,
  and makes a new empty object the prototype, which changes nothing to see); \<open>null\<close>
  and an object replace the prototype, the object being resolved like any value; when
  the resolved value is \<open>undefined\<close> (a blob index outside the list) the setter ignores
  it and the placeholder object stays the prototype. (The unescape of the spec turns
  one key into \<open>__proto__\<close>.) This is how the walk goes for the first such key of an
  object whose value has no own key \<open>__proto__\<close>; with such a key in the value, the read
  finds that property instead of the getter.
\<close>

type_synonym robject = "resolved option \<times> (string \<times> resolved) list"

definition assignResolved :: "string \<Rightarrow> wire \<Rightarrow> resolved \<Rightarrow> robject \<Rightarrow> robject" where
  "assignResolved k raw y obj =
     (if k = ''__proto__'' then
        (case y of
           RUndefined \<Rightarrow> (Some (plainValue raw), snd obj)
         | RBool b \<Rightarrow> obj
         | RNum n \<Rightarrow> obj
         | RStr s \<Rightarrow> obj
         | _ \<Rightarrow> (Some y, snd obj))
      else (fst obj, AList.update k y (snd obj)))"

definition finishObject :: "robject \<Rightarrow> resolved" where
  "finishObject obj = (case fst obj of None \<Rightarrow> RObj (snd obj) | Some p \<Rightarrow> RProto p (snd obj))"

text \<open>
  The function returns what \<open>obj[key]\<close> holds afterwards, or the error thrown, and the
  \<open>meta\<close> object as it is then. A \<open>Date\<close> is an object without \<open>_b\<close>, \<open>_s\<close> or any
  enumerable key, so its clone is the empty object.
\<close>

fun internalResolveMixedJSONDeep ::
    "(string \<Rightarrow> string) \<Rightarrow> TransportOptions \<Rightarrow> resolve_options \<Rightarrow> wire \<Rightarrow> resolve_meta
      \<Rightarrow> (error + resolved) \<times> resolve_meta"
  and resolveElements ::
    "(string \<Rightarrow> string) \<Rightarrow> TransportOptions \<Rightarrow> resolve_options \<Rightarrow> wire list \<Rightarrow> resolve_meta
      \<Rightarrow> (error + resolved list) \<times> resolve_meta"
  and resolveFields ::
    "(string \<Rightarrow> string) \<Rightarrow> TransportOptions \<Rightarrow> resolve_options \<Rightarrow> (string \<times> wire) list
      \<Rightarrow> robject \<Rightarrow> resolve_meta
      \<Rightarrow> (error + robject) \<times> resolve_meta"
where
  "internalResolveMixedJSONDeep unesc topts ropts (WArr xs) meta =
     (case resolveElements unesc topts ropts xs meta of
        (Inl e, meta1) \<Rightarrow> (Inl e, meta1)
      | (Inr ys, meta1) \<Rightarrow> (Inr (RArr ys), meta1))"
| "internalResolveMixedJSONDeep unesc topts ropts (WObj kvs) meta =
     (case (if parseBinaries ropts then numberField kvs ''_b'' else None) of
        Some i \<Rightarrow>
          (case m_binaries meta of
             None \<Rightarrow>
               (Inl (Error ''Can not resolve binary data without binary content packet.''),
                meta)
           | Some bs \<Rightarrow> (Inr (binaryAt bs i), meta))
      | None \<Rightarrow>
          (case (if parseStreams ropts then numberField kvs ''_s'' else None) of
             Some sid \<Rightarrow>
               (if streamCount meta \<ge> streamsPerPackageLimit topts
                then (Inl (Error ''Max stream limit reached.''), meta)
                else (Inr (RStream sid),
                      meta\<lparr>streamCount := streamCount meta + 1,
                           created := created meta @ [sid]\<rparr>))
           | None \<Rightarrow>
               (case resolveFields unesc topts ropts kvs (None, []) meta of
                  (Inl e, meta1) \<Rightarrow> (Inl e, meta1)
                | (Inr clone, meta1) \<Rightarrow> (Inr (finishObject clone), meta1))))"
| "internalResolveMixedJSONDeep unesc topts ropts (WDate d) meta = (Inr (RObj []), meta)"
| "internalResolveMixedJSONDeep unesc topts ropts WNull meta = (Inr RNull, meta)"
| "internalResolveMixedJSONDeep unesc topts ropts (WBool b) meta = (Inr (RBool b), meta)"
| "internalResolveMixedJSONDeep unesc topts ropts (WNum n) meta = (Inr (RNum n), meta)"
| "internalResolveMixedJSONDeep unesc topts ropts (WStr s) meta = (Inr (RStr s), meta)"
| "resolveElements unesc topts ropts [] meta = (Inr [], meta)"
| "resolveElements unesc topts ropts (x # xs) meta =
     (case internalResolveMixedJSONDeep unesc topts ropts x meta of
        (Inl e, meta1) \<Rightarrow> (Inl e, meta1)
      | (Inr y, meta1) \<Rightarrow>
          (case resolveElements unesc topts ropts xs meta1 of
             (Inl e, meta2) \<Rightarrow> (Inl e, meta2)
           | (Inr ys, meta2) \<Rightarrow> (Inr (y # ys), meta2)))"
| "resolveFields unesc topts ropts [] clone meta = (Inr clone, meta)"
| "resolveFields unesc topts ropts ((key, x) # kvs) clone meta =
     (case internalResolveMixedJSONDeep unesc topts ropts x meta of
        (Inl e, meta1) \<Rightarrow> (Inl e, meta1)
      | (Inr y, meta1) \<Rightarrow>
          resolveFields unesc topts ropts kvs (assignResolved (unesc key) x y clone) meta1)"

definition resolveMixedJSONDeep ::
    "(string \<Rightarrow> string) \<Rightarrow> TransportOptions \<Rightarrow> wire \<Rightarrow> resolve_options \<Rightarrow> blob list option
      \<Rightarrow> (error + resolved) \<times> resolve_meta" where
  "resolveMixedJSONDeep unesc topts data ropts binaries =
     internalResolveMixedJSONDeep unesc topts ropts data
       \<lparr> m_binaries = binaries, streamCount = 0, created = [] \<rparr>"

subsection \<open>Notions for stating properties of the codec\<close>

text \<open>
  The leaves of a user value in the order of the encoding walk, and which of them are
  blobs, write streams or dates.
\<close>

fun leaves :: "payload \<Rightarrow> payload list"
  and leavesElements :: "payload list \<Rightarrow> payload list"
  and leavesFields :: "(string \<times> payload) list \<Rightarrow> payload list"
where
  "leaves (PArr xs) = leavesElements xs"
| "leaves (PObj kvs) = leavesFields kvs"
| "leaves (PBlob b) = [PBlob b]"
| "leaves (PStream w) = [PStream w]"
| "leaves (PDate d) = [PDate d]"
| "leaves PNull = [PNull]"
| "leaves (PBool b) = [PBool b]"
| "leaves (PNum n) = [PNum n]"
| "leaves (PStr s) = [PStr s]"
| "leavesElements [] = []"
| "leavesElements (x # xs) = leaves x @ leavesElements xs"
| "leavesFields [] = []"
| "leavesFields ((key, x) # kvs) = leaves x @ leavesFields kvs"

definition isBlob :: "payload \<Rightarrow> bool" where
  "isBlob v = (case v of PBlob b \<Rightarrow> True | _ \<Rightarrow> False)"

definition isStream :: "payload \<Rightarrow> bool" where
  "isStream v = (case v of PStream w \<Rightarrow> True | _ \<Rightarrow> False)"

definition isDate :: "payload \<Rightarrow> bool" where
  "isDate v = (case v of PDate d \<Rightarrow> True | _ \<Rightarrow> False)"

text \<open>A JavaScript object has each key once.\<close>

fun distinctKeys :: "payload \<Rightarrow> bool"
  and distinctKeysElements :: "payload list \<Rightarrow> bool"
  and distinctKeysFields :: "(string \<times> payload) list \<Rightarrow> bool"
where
  "distinctKeys (PArr xs) = distinctKeysElements xs"
| "distinctKeys (PObj kvs) = (distinct (map fst kvs) \<and> distinctKeysFields kvs)"
| "distinctKeys (PBlob b) = True"
| "distinctKeys (PStream w) = True"
| "distinctKeys (PDate d) = True"
| "distinctKeys PNull = True"
| "distinctKeys (PBool b) = True"
| "distinctKeys (PNum n) = True"
| "distinctKeys (PStr s) = True"
| "distinctKeysElements [] = True"
| "distinctKeysElements (x # xs) = (distinctKeys x \<and> distinctKeysElements xs)"
| "distinctKeysFields [] = True"
| "distinctKeysFields ((key, x) # kvs) = (distinctKeys x \<and> distinctKeysFields kvs)"

text \<open>
  Structural equality of a user value and a delivered value: equal primitives, equal
  blobs, arrays equal element by element, objects equal key by key, and a write stream
  \<open>w\<close> against a read stream of an id \<open>i\<close> with \<open>S w i\<close>.
\<close>

fun sameValue :: "(WriteStream \<Rightarrow> int \<Rightarrow> bool) \<Rightarrow> payload \<Rightarrow> resolved \<Rightarrow> bool"
  and sameElements :: "(WriteStream \<Rightarrow> int \<Rightarrow> bool) \<Rightarrow> payload list \<Rightarrow> resolved list \<Rightarrow> bool"
  and sameFields ::
    "(WriteStream \<Rightarrow> int \<Rightarrow> bool) \<Rightarrow> (string \<times> payload) list \<Rightarrow> (string \<times> resolved) list \<Rightarrow> bool"
where
  "sameValue S (PArr xs) r = (case r of RArr ys \<Rightarrow> sameElements S xs ys | _ \<Rightarrow> False)"
| "sameValue S (PObj kvs) r = (case r of RObj rs \<Rightarrow> sameFields S kvs rs | _ \<Rightarrow> False)"
| "sameValue S (PBlob b) r = (r = RBlob b)"
| "sameValue S (PStream w) r = (case r of RStream i \<Rightarrow> S w i | _ \<Rightarrow> False)"
| "sameValue S (PDate d) r = (r = RDate d)"
| "sameValue S PNull r = (r = RNull)"
| "sameValue S (PBool b) r = (r = RBool b)"
| "sameValue S (PNum n) r = (r = RNum n)"
| "sameValue S (PStr s) r = (r = RStr s)"
| "sameElements S [] ys = (ys = [])"
| "sameElements S (x # xs) ys =
     (case ys of y # ys' \<Rightarrow> sameValue S x y \<and> sameElements S xs ys' | [] \<Rightarrow> False)"
| "sameFields S [] rs = (rs = [])"
| "sameFields S ((key, x) # kvs) rs =
     (case rs of (key', y) # rs' \<Rightarrow> key' = key \<and> sameValue S x y \<and> sameFields S kvs rs'
      | [] \<Rightarrow> False)"

text \<open>
  What a decoder needs to give the value back: no leaf is a \<open>Date\<close> (the walk has no
  way to rebuild one), binaries are parsed if the value holds a blob, and streams are
  parsed if it holds a write stream.
\<close>

definition decodable :: "resolve_options \<Rightarrow> payload list \<Rightarrow> bool" where
  "decodable ropts ls \<longleftrightarrow>
     list_all (\<lambda>x. \<not> isDate x) ls \<and>
     (list_ex isBlob ls \<longrightarrow> parseBinaries ropts) \<and>
     (list_ex isStream ls \<longrightarrow> parseStreams ropts)"

definition countStreams :: "payload list \<Rightarrow> int" where
  "countStreams ls = int (length (filter isStream ls))"

text \<open>
  The write streams among the leaves, in the order of the encoding walk; the write
  streams a transport has initialised so far; and that every write stream of a value
  occurs in it once and has not been initialised. (\<open>_init\<close> belongs to the class
  \<open>WriteStream\<close>, which is not among the sources; what a second \<open>_init\<close> of a stream does
  is not followed here.)
\<close>

definition streamsOf :: "payload list \<Rightarrow> WriteStream list" where
  "streamsOf ls = concat (map (\<lambda>l. case l of PStream w \<Rightarrow> [w] | _ \<Rightarrow> []) ls)"

definition initialisedStreams :: "transport \<Rightarrow> nat list" where
  "initialisedStreams st =
     concat (map (\<lambda>e. case e of
                         StreamCall r c \<Rightarrow> (case c of W_init i \<Rightarrow> [r] | _ \<Rightarrow> [])
                       | _ \<Rightarrow> [])
               (trace st))"

definition streamsUnused :: "transport \<Rightarrow> payload \<Rightarrow> bool" where
  "streamsUnused st v \<longleftrightarrow>
     distinct (map ws_ref (streamsOf (leaves v))) \<and>
     list_all (\<lambda>w. ws_ref w \<notin> set (initialisedStreams st)) (streamsOf (leaves v))"

text \<open>
  No key of the value is \<open>__proto__\<close>, and none is escaped to it: such a key is assigned
  through the prototype setter by one of the walks.
\<close>

fun protoFree :: "(string \<Rightarrow> string) \<Rightarrow> payload \<Rightarrow> bool"
  and protoFreeElements :: "(string \<Rightarrow> string) \<Rightarrow> payload list \<Rightarrow> bool"
  and protoFreeFields :: "(string \<Rightarrow> string) \<Rightarrow> (string \<times> payload) list \<Rightarrow> bool"
where
  "protoFree esc (PArr xs) = protoFreeElements esc xs"
| "protoFree esc (PObj kvs) = protoFreeFields esc kvs"
| "protoFree esc (PBlob b) = True"
| "protoFree esc (PStream w) = True"
| "protoFree esc (PDate d) = True"
| "protoFree esc PNull = True"
| "protoFree esc (PBool b) = True"
| "protoFree esc (PNum n) = True"
| "protoFree esc (PStr s) = True"
| "protoFreeElements esc [] = True"
| "protoFreeElements esc (x # xs) = (protoFree esc x \<and> protoFreeElements esc xs)"
| "protoFreeFields esc [] = True"
| "protoFreeFields esc ((key, x) # kvs) =
     (key \<noteq> ''__proto__'' \<and> esc key \<noteq> ''__proto__'' \<and> protoFree esc x
      \<and> protoFreeFields esc kvs)"

text \<open>
  What the spec says of the key escape: unescaping undoes it, and no escaped key is a
  placeholder key.
\<close>

definition escapeOk :: "(string \<Rightarrow> string) \<Rightarrow> (string \<Rightarrow> string) \<Rightarrow> bool" where
  "escapeOk esc unesc \<longleftrightarrow>
     (\<forall>k. unesc (esc k) = k) \<and> (\<forall>k. esc k \<noteq> ''_b'') \<and> (\<forall>k. esc k \<noteq> ''_s'')"

text \<open>The call \<open>w._init(transport, i)\<close>, and the calls made between two states.\<close>

definition initCall :: "WriteStream \<Rightarrow> int \<Rightarrow> effect" where
  "initCall w i = StreamCall (ws_ref w) (W_init i)"

definition fresh :: "(WriteStream \<Rightarrow> int \<Rightarrow> bool) \<Rightarrow> transport \<Rightarrow> transport \<Rightarrow> bool" where
  "fresh S st st' \<longleftrightarrow>
     (\<forall>w i. initCall w i \<in> set (drop (length (trace st)) (trace st')) \<longrightarrow> S w i)"


text \<open>
  Encoding \<open>v\<close> on a transport in state \<open>st\<close> and resolving the result, with the
  collected binaries, on a transport with options \<open>topts\<close> gives a value equal to \<open>v\<close>,
  each write stream standing against the read stream of the id it was initialised with.
\<close>

definition roundTrips ::
    "(string \<Rightarrow> string) \<Rightarrow> (string \<Rightarrow> string) \<Rightarrow> TransportOptions \<Rightarrow> resolve_options
      \<Rightarrow> transport \<Rightarrow> payload \<Rightarrow> bool" where
  "roundTrips esc unesc topts ropts st v =
     (case processMixedJSONDeep esc v [] [] st of
        (w, binaries, streams, st') \<Rightarrow>
          (case resolveMixedJSONDeep unesc topts w ropts (Some binaries) of
             (Inr r, meta) \<Rightarrow>
               sameValue (\<lambda>s i. initCall s i \<in> set (drop (length (trace st)) (trace st'))) v r
           | (Inl e, meta) \<Rightarrow> False))"





section \<open>Exceptions and the environment\<close>

text \<open>
  A method of the transport changes the state and either returns or throws; what it did
  before a throw stays done. An \<open>outcome\<close> is the error thrown, if any, and the state.
\<close>

type_synonym outcome = "error option \<times> transport"

definition andThen :: "outcome \<Rightarrow> (transport \<Rightarrow> outcome) \<Rightarrow> outcome" where
  "andThen r f = (case r of (None, st) \<Rightarrow> f st | (Some e, st) \<Rightarrow> (Some e, st))"

definition tryCatch :: "outcome \<Rightarrow> (error \<Rightarrow> transport \<Rightarrow> outcome) \<Rightarrow> outcome" where
  "tryCatch r h = (case r of (None, st) \<Rightarrow> (None, st) | (Some e, st) \<Rightarrow> h e st)"

text \<open>
  What the \<open>onInvoke\<close> listener does, synchronously, with the two callbacks it is
  handed: it calls \<open>end(data, processComplexTypes)\<close>, calls \<open>reject(err)\<close>, or throws an
  error of its own. An exception leaves the listener.
\<close>

datatype invoke_action =
    End "payload option" bool
  | Reject reject_arg
  | Raise error

text \<open>
  The environment of a transport: the hooks of the connector, each given by what it
  throws (\<open>None\<close> when it returns), and the helpers that are not among the sources:
  the key escape of \<open>Utils.ts\<close> and the numeric values of \<open>DataType\<close>.
\<close>

record env =
  escapeKey :: "string \<Rightarrow> string"
  unescapeKey :: "string \<Rightarrow> string"
  dataTypeOfCode :: "int \<Rightarrow> DataType option"
  onInvalidMessage :: "error \<Rightarrow> error option"
  onListenerError :: "error \<Rightarrow> error option"
  onTransmit :: "string \<Rightarrow> resolved \<Rightarrow> dfield \<Rightarrow> error option"
  onInvoke :: "string \<Rightarrow> resolved \<Rightarrow> dfield \<Rightarrow> invoke_action list"
  onPing :: "error option"
  onPong :: "error option"

text \<open>
  Modelled from the spec: \<open>parseJSONDataType\<close>, \<open>isMixedJSONDataType\<close> and
  \<open>containsStreams\<close> of \<open>DataType.ts\<close>, and \<open>MAX_SUPPORTED_ARRAY_BUFFER_SIZE\<close> of
  \<open>Utils.ts\<close>, which are not among the sources.
\<close>

definition parseJSONDataType :: "bool \<Rightarrow> bool \<Rightarrow> DataType" where
  "parseJSONDataType containsBinaries containsStreams =
     (if containsBinaries then
        (if containsStreams then JSONWithStreamsAndBinaries else JSONWithBinaries)
      else if containsStreams then JSONWithStreams else JSON)"

definition isMixedJSONDataType :: "DataType \<Rightarrow> bool" where
  "isMixedJSONDataType t \<longleftrightarrow>
     t = JSONWithBinaries \<or> t = JSONWithStreams \<or> t = JSONWithStreamsAndBinaries"

definition containsStreams :: "DataType \<Rightarrow> bool" where
  "containsStreams t \<longleftrightarrow> t = Stream \<or> t = JSONWithStreams \<or> t = JSONWithStreamsAndBinaries"

definition MAX_SUPPORTED_ARRAY_BUFFER_SIZE :: nat where
  "MAX_SUPPORTED_ARRAY_BUFFER_SIZE = MAX_UINT_32 - 1"

section \<open>Sending\<close>

definition send :: "frame \<Rightarrow> transport \<Rightarrow> transport" where
  "send f st = emit (Send f) st"

text \<open>
  \<open>_createBinaryContentPacket\<close>: the frame is kept as its reference id and blobs (the
  byte layout is not unfolded); it throws on a blob that is too large.
\<close>

definition createBinaryContentPacket :: "int \<Rightarrow> blob list \<Rightarrow> error + frame" where
  "createBinaryContentPacket refId content =
     (if list_ex (\<lambda>item. length item > MAX_SUPPORTED_ARRAY_BUFFER_SIZE) content
      then Inl MaxSupportedArrayBufferSizeExceededError
      else Inr (BinaryContentFrame refId content))"

definition createBinaryStreamChunkPacket :: "int \<Rightarrow> blob \<Rightarrow> bool \<Rightarrow> frame" where
  "createBinaryStreamChunkPacket streamId binaryPart end =
     BinaryStreamFrame (if end then StreamEnd else StreamChunk) streamId binaryPart"

definition silentDirectSendPackage :: "frame \<Rightarrow> frame option \<Rightarrow> transport \<Rightarrow> transport" where
  "silentDirectSendPackage head binaryFrame st =
     (case binaryFrame of
        Some b \<Rightarrow> send b (send head (emit Cork st))
      | None \<Rightarrow> send head st)"

text \<open>\<open>(data !== undefined ? (',' + encodeJson(data)) : '')\<close>\<close>

definition rawField :: "payload option \<Rightarrow> field list" where
  "rawField data = (case data of None \<Rightarrow> [] | Some d \<Rightarrow> [FRaw d])"

definition jsonField :: "wire option \<Rightarrow> field list" where
  "jsonField data = (case data of None \<Rightarrow> [] | Some d \<Rightarrow> [FJson d])"

fun onTransmittedAll :: "WriteStream list \<Rightarrow> transport \<Rightarrow> transport" where
  "onTransmittedAll [] st = st"
| "onTransmittedAll (w # ws) st =
     onTransmittedAll ws (emit (StreamCall (ws_ref w) W_onTransmitted) st)"

text \<open>
  The mixed branch that \<open>_sendInvokeDataResp\<close> and \<open>_sendStreamChunk\<close> share: walk the
  data, build the head, add the binary content packet if binaries were collected, send
  silently, then tell every stream that it was transmitted. \<open>dataType\<close> says how the
  caller computes the data type from the two lengths.
\<close>

definition sendMixed ::
    "env \<Rightarrow> PacketType \<Rightarrow> field list \<Rightarrow> (bool \<Rightarrow> bool \<Rightarrow> DataType) \<Rightarrow> payload option
      \<Rightarrow> transport \<Rightarrow> outcome" where
  "sendMixed env ptype prefix dataType data st =
     (let (data1, binaries, streams, st1) =
            (case data of
               None \<Rightarrow> (None, [], [], st)
             | Some d \<Rightarrow>
                 (case processMixedJSONDeep (escapeKey env) d [] [] st of
                    (w, bs, ss, st') \<Rightarrow> (Some w, bs, ss, st')));
          fields = prefix @ [FType (dataType (length binaries > 0) (length streams > 0))]
                     @ jsonField data1
      in if length binaries > 0 then
           (let (binaryContentPacketId, st2) = getNewBinaryContentPacketId st1
            in case createBinaryContentPacket binaryContentPacketId binaries of
                 Inl e \<Rightarrow> (Some e, st2)
               | Inr b \<Rightarrow>
                   (None, onTransmittedAll streams
                      (silentDirectSendPackage
                         (TextFrame ptype (fields @ [FNum binaryContentPacketId])) (Some b) st2)))
         else (None, onTransmittedAll streams
                 (silentDirectSendPackage (TextFrame ptype fields) None st1)))"

definition sendInvokeDataResp ::
    "env \<Rightarrow> int \<Rightarrow> payload option \<Rightarrow> bool \<Rightarrow> transport \<Rightarrow> outcome" where
  "sendInvokeDataResp env callId data processComplexTypes st =
     (if \<not> processComplexTypes then
        (None, send (TextFrame InvokeDataResp ([FNum callId, FType JSON] @ rawField data)) st)
      else
        (case data of
           Some (PStream w) \<Rightarrow>
             (if streamsEnabled (options st) then
                (let (streamId, st1) = getNewStreamId (binary w) st;
                     st2 = send (TextFrame InvokeDataResp
                                   [FNum callId, FType Stream, FNum streamId]) st1;
                     st3 = emit (StreamCall (ws_ref w) (W_init streamId)) st2
                 in (None, emit (StreamCall (ws_ref w) W_onTransmitted) st3))
              else sendMixed env InvokeDataResp [FNum callId] parseJSONDataType data st)
         | Some (PBlob b) \<Rightarrow>
             (let (binaryContentPacketId, st1) = getNewBinaryContentPacketId st;
                  st2 = send (TextFrame InvokeDataResp
                                [FNum callId, FType Binary, FNum binaryContentPacketId])
                          (emit Cork st1)
              in case createBinaryContentPacket binaryContentPacketId [b] of
                   Inl e \<Rightarrow> (Some e, st2)
                 | Inr f \<Rightarrow> (None, send f st2))
         | _ \<Rightarrow> sendMixed env InvokeDataResp [FNum callId] parseJSONDataType data st))"

text \<open>
  \<open>_sendStreamChunk\<close>. In the branch for a write stream the source declares a new
  constant \<open>streamId\<close> for the id of the inner stream, which hides the parameter; the
  \<open>let\<close> below does the same. The mixed branch calls \<open>parseJSONDataType\<close> with one
  argument, so its second parameter is \<open>undefined\<close>.
\<close>

definition sendStreamChunk ::
    "env \<Rightarrow> int \<Rightarrow> payload option \<Rightarrow> bool \<Rightarrow> bool \<Rightarrow> transport \<Rightarrow> outcome" where
  "sendStreamChunk env streamId data processComplexTypes end st =
     (let ptype = (if end then StreamEnd else StreamChunk) in
      if \<not> processComplexTypes then
        (None, send (TextFrame ptype ([FNum streamId, FType JSON] @ rawField data)) st)
      else
        (case data of
           Some (PStream w) \<Rightarrow>
             (if chunksCanContainStreams (options st) then
                (let (streamId, st1) = getNewStreamId (binary w) st;
                     st2 = send (TextFrame ptype
                                   [FNum streamId, FType Stream, FNum streamId]) st1;
                     st3 = emit (StreamCall (ws_ref w) (W_init streamId)) st2
                 in (None, emit (StreamCall (ws_ref w) W_onTransmitted) st3))
              else sendMixed env ptype [FNum streamId]
                     (\<lambda>b s. parseJSONDataType (b \<or> s) False) data st)
         | Some (PBlob b) \<Rightarrow>
             (None, send (createBinaryStreamChunkPacket streamId b end) st)
         | _ \<Rightarrow> sendMixed env ptype [FNum streamId]
                  (\<lambda>b s. parseJSONDataType (b \<or> s) False) data st))"

section \<open>The layout of binary content\<close>

text \<open>
  \<open>DataView.setUint32\<close> writes four bytes, big-endian. After the header byte and the
  reference id, \<open>_createBinaryContentPacket\<close> writes for each item its byte length with
  \<open>setUint32\<close> and then its bytes.
\<close>

definition setUint32 :: "nat \<Rightarrow> 8 word list" where
  "setUint32 n = [of_nat (n div 2 ^ 24), of_nat (n div 2 ^ 16), of_nat (n div 2 ^ 8), of_nat n]"

fun binariesSection :: "blob list \<Rightarrow> 8 word list" where
  "binariesSection [] = []"
| "binariesSection (item # rest) = setUint32 (length item) @ item @ binariesSection rest"

section \<open>Receiving\<close>

subsection \<open>Hooks and timers\<close>

definition callOnInvalidMessage :: "env \<Rightarrow> error \<Rightarrow> transport \<Rightarrow> outcome" where
  "callOnInvalidMessage env err st =
     (onInvalidMessage env err, emit (CallOnInvalidMessage err) st)"

text \<open>\<open>this.onListenerError(err)\<close>, called directly: what the hook throws is thrown on.\<close>

definition callOnListenerError :: "env \<Rightarrow> error \<Rightarrow> transport \<Rightarrow> outcome" where
  "callOnListenerError env err st =
     (onListenerError env err, emit (CallOnListenerError err) st)"

text \<open>\<open>_onListenerError\<close>: the same call inside \<open>try\<close> with an empty \<open>catch\<close>.\<close>

definition priv_onListenerError :: "env \<Rightarrow> error \<Rightarrow> transport \<Rightarrow> transport" where
  "priv_onListenerError env err st = snd (callOnListenerError env err st)"

definition clearTimeout :: "nat option \<Rightarrow> transport \<Rightarrow> transport" where
  "clearTimeout h st =
     emit (ClearTimeout h)
       (case h of None \<Rightarrow> st | Some t \<Rightarrow> st\<lparr>timers := AList.delete t (timers st)\<rparr>)"

definition setTimeout :: "timer_task \<Rightarrow> int \<Rightarrow> transport \<Rightarrow> nat \<times> transport" where
  "setTimeout task ms st =
     (nextTimer st,
      emit (SetTimeout (nextTimer st) ms)
        (st\<lparr>timers := timers st @ [(nextTimer st, task)], nextTimer := nextTimer st + 1\<rparr>))"

subsection \<open>\<open>_processTransmit\<close> and \<open>_processInvoke\<close>\<close>

definition processTransmit :: "env \<Rightarrow> string \<Rightarrow> resolved \<Rightarrow> dfield \<Rightarrow> transport \<Rightarrow> transport" where
  "processTransmit env receiver data dataType st =
     (let st1 = emit (CallOnTransmit receiver data dataType) st
      in case onTransmit env receiver data dataType of
           None \<Rightarrow> st1
         | Some err \<Rightarrow> priv_onListenerError env err st1)"

text \<open>
  The two callbacks \<open>_processInvoke\<close> hands to the listener share the variables
  \<open>called\<close>, \<open>badConnectionTimestamp\<close> and \<open>callId\<close>: an \<open>invoke_closure\<close>. A call of a
  callback returns what it throws, the closure and the state.
\<close>

record invoke_closure =
  c_callId :: int
  c_badConnectionTimestamp :: int
  c_called :: bool

definition endCallback ::
    "env \<Rightarrow> payload option \<Rightarrow> bool \<Rightarrow> invoke_closure \<Rightarrow> transport
      \<Rightarrow> error option \<times> invoke_closure \<times> transport" where
  "endCallback env data processComplexTypes c st =
     (if c_called c then (Some (InvalidActionError (c_callId c)), c, st)
      else
        (let c1 = c\<lparr>c_called := True\<rparr>
         in if c_badConnectionTimestamp c \<noteq> badConnectionStamp st then (None, c1, st)
            else (case sendInvokeDataResp env (c_callId c) data processComplexTypes st of
                    (thrown, st1) \<Rightarrow> (thrown, c1, st1))))"

definition rejectCallback ::
    "reject_arg \<Rightarrow> invoke_closure \<Rightarrow> transport \<Rightarrow> error option \<times> invoke_closure \<times> transport" where
  "rejectCallback err c st =
     (if c_called c then (Some (InvalidActionError (c_callId c)), c, st)
      else
        (let c1 = c\<lparr>c_called := True\<rparr>
         in if c_badConnectionTimestamp c \<noteq> badConnectionStamp st then (None, c1, st)
            else (None, c1,
                  send (TextFrame InvokeErrResp
                          [FNum (c_callId c),
                           (case err of JSONStringArg s \<Rightarrow> FJSONStringClass
                            | ErrorArg e \<Rightarrow> FDehydrated e)]) st)))"

definition invokeAction ::
    "env \<Rightarrow> invoke_action \<Rightarrow> invoke_closure \<Rightarrow> transport
      \<Rightarrow> error option \<times> invoke_closure \<times> transport" where
  "invokeAction env a c st =
     (case a of
        End data processComplexTypes \<Rightarrow> endCallback env data processComplexTypes c st
      | Reject err \<Rightarrow> rejectCallback err c st
      | Raise e \<Rightarrow> (Some e, c, st))"

fun runListener ::
    "env \<Rightarrow> invoke_action list \<Rightarrow> invoke_closure \<Rightarrow> transport
      \<Rightarrow> error option \<times> invoke_closure \<times> transport" where
  "runListener env [] c st = (None, c, st)"
| "runListener env (a # as) c st =
     (case invokeAction env a c st of
        (Some e, c1, st1) \<Rightarrow> (Some e, c1, st1)
      | (None, c1, st1) \<Rightarrow> runListener env as c1 st1)"

text \<open>
  \<open>_processInvoke\<close> returns the closure as well, since the user may keep the callbacks
  and call them after the listener has returned.
\<close>

definition processInvoke ::
    "env \<Rightarrow> string \<Rightarrow> int \<Rightarrow> resolved \<Rightarrow> dfield \<Rightarrow> transport \<Rightarrow> invoke_closure \<times> transport" where
  "processInvoke env procedure callId data dataType st =
     (let c = \<lparr> c_callId = callId, c_badConnectionTimestamp = badConnectionStamp st,
                c_called = False \<rparr>;
          st1 = emit (CallOnInvoke procedure data dataType) st
      in case runListener env (onInvoke env procedure data dataType) c st1 of
           (None, c1, st2) \<Rightarrow> (c1, st2)
         | (Some err, c1, st2) \<Rightarrow> (c1, priv_onListenerError env err st2))"

subsection \<open>\<open>_processData\<close> and the binary content resolvers\<close>

definition jsonValue :: "wire option \<Rightarrow> resolved" where
  "jsonValue data = (case data of None \<Rightarrow> RUndefined | Some d \<Rightarrow> plainValue d)"

definition isNumber :: "wire option \<Rightarrow> bool" where
  "isNumber x = (case x of Some (WNum n) \<Rightarrow> True | _ \<Rightarrow> False)"

definition toKey :: "wire option \<Rightarrow> pkey" where
  "toKey x = (case x of Some (WNum n) \<Rightarrow> NumKey n | _ \<Rightarrow> ValKey x)"

definition numberOf :: "wire option \<Rightarrow> int option" where
  "numberOf x = (case x of Some (WNum n) \<Rightarrow> Some n | _ \<Rightarrow> None)"

subsection \<open>Property keys\<close>

text \<open>
  The maps \<open>_invokeResponsePromises\<close>, \<open>_activeReadStreams\<close> and \<open>_activeWriteStreams\<close>
  are objects made by \<open>{}\<close>, and \<open>map[id]\<close> is a property access with whatever the packet
  holds as id: JavaScript turns the id into a string and looks the property up on the
  object and then on \<open>Object.prototype\<close>. The transport stores its entries under ids it
  has allocated, which are safe integers; the key of such a number is its decimal
  numeral. So an id names the entry of \<open>n\<close> when its string is the numeral of \<open>n\<close>, it
  finds a member of \<open>Object.prototype\<close> when its string is the name of one, and it finds
  nothing otherwise.

  The string of a number in the safe range is its numeral; that of a number outside is
  no numeral of a safe integer. The string of an array is the strings of its elements
  joined by commas, \<open>null\<close> counting as the empty string. The string of an object is
  \<open>[object Object]\<close>, unless the object has a property \<open>toString\<close> of its own: a decoded
  value is not callable, \<open>valueOf\<close> gives no primitive, and the conversion throws a
  \<open>TypeError\<close>. A decoded value is taken to be plain data as \<open>JSON.parse\<close> builds it.
\<close>

datatype prop_key = IndexKey int | MemberKey string | OtherKey

definition objectPrototypeMembers :: "string list" where
  "objectPrototypeMembers =
     [''constructor'', ''__defineGetter__'', ''__defineSetter__'', ''hasOwnProperty'',
      ''__lookupGetter__'', ''__lookupSetter__'', ''isPrototypeOf'', ''propertyIsEnumerable'',
      ''toString'', ''valueOf'', ''__proto__'', ''toLocaleString'']"

definition safeInteger :: "int \<Rightarrow> bool" where
  "safeInteger n \<longleftrightarrow> - (MAX_SAFE_INTEGER + 1) \<le> n \<and> n \<le> MAX_SAFE_INTEGER + 1"

definition digitOf :: "char \<Rightarrow> nat option" where
  "digitOf c = map_of (zip ''0123456789'' [0, 1, 2, 3, 4, 5, 6, 7, 8, 9]) c"

text \<open>
  The natural number a string of digits is the numeral of: no empty string, and no
  leading zero but in \<open>0\<close> itself.
\<close>

definition naturalOf :: "string \<Rightarrow> nat option" where
  "naturalOf s =
     (if s \<noteq> [] \<and> list_all (\<lambda>c. digitOf c \<noteq> None) s \<and> (hd s \<noteq> CHR ''0'' \<or> length s = 1)
      then Some (foldl (\<lambda>acc c. acc * 10 + the (digitOf c)) 0 s)
      else None)"

definition numeralOf :: "string \<Rightarrow> int option" where
  "numeralOf s =
     (case s of
        [] \<Rightarrow> None
      | c # cs \<Rightarrow>
          if c = CHR ''-''
          then (case naturalOf cs of
                  Some m \<Rightarrow> if m = 0 then None else Some (- int m)
                | None \<Rightarrow> None)
          else map_option int (naturalOf s))"

definition stringKey :: "string \<Rightarrow> prop_key" where
  "stringKey s =
     (if s \<in> set objectPrototypeMembers then MemberKey s
      else (case numeralOf s of
              Some n \<Rightarrow> if safeInteger n then IndexKey n else OtherKey
            | None \<Rightarrow> OtherKey))"

fun stringThrows :: "wire \<Rightarrow> bool"
  and stringThrowsList :: "wire list \<Rightarrow> bool"
where
  "stringThrows (WObj kvs) = (''toString'' \<in> set (map fst kvs))"
| "stringThrows (WArr xs) = stringThrowsList xs"
| "stringThrows (WDate d) = False"
| "stringThrows WNull = False"
| "stringThrows (WBool b) = False"
| "stringThrows (WNum n) = False"
| "stringThrows (WStr s) = False"
| "stringThrowsList [] = False"
| "stringThrowsList (x # xs) = (stringThrows x \<or> stringThrowsList xs)"

fun propertyKey :: "wire \<Rightarrow> error + prop_key" where
  "propertyKey (WNum n) = Inr (if safeInteger n then IndexKey n else OtherKey)"
| "propertyKey (WStr s) = Inr (stringKey s)"
| "propertyKey WNull = Inr OtherKey"
| "propertyKey (WBool b) = Inr OtherKey"
| "propertyKey (WDate d) = Inr OtherKey"
| "propertyKey (WObj kvs) = (if stringThrows (WObj kvs) then Inl TypeError else Inr OtherKey)"
| "propertyKey (WArr []) = Inr OtherKey"
| "propertyKey (WArr [x]) = (if x = WNull then Inr OtherKey else propertyKey x)"
| "propertyKey (WArr (x # y # zs)) =
     (if stringThrowsList (x # y # zs) then Inl TypeError else Inr OtherKey)"

text \<open>
  \<open>map[id]\<close>: the entry of the map, a member of \<open>Object.prototype\<close>, or \<open>undefined\<close>; an
  id that is absent from the packet is \<open>undefined\<close>, whose string names nothing.
\<close>

datatype 'a found = Own 'a | Inherited | Missing

definition lookupProp :: "(int \<times> 'a) list \<Rightarrow> wire option \<Rightarrow> error + 'a found" where
  "lookupProp m x =
     (case x of
        None \<Rightarrow> Inr Missing
      | Some w \<Rightarrow>
          (case propertyKey w of
             Inl e \<Rightarrow> Inl e
           | Inr (IndexKey n) \<Rightarrow> Inr (case map_of m n of Some v \<Rightarrow> Own v | None \<Rightarrow> Missing)
           | Inr (MemberKey s) \<Rightarrow> Inr Inherited
           | Inr OtherKey \<Rightarrow> Inr Missing))"

text \<open>\<open>delete map[id]\<close> removes an entry of the map and nothing else.\<close>

definition deleteProp :: "wire option \<Rightarrow> (int \<times> 'a) list \<Rightarrow> (int \<times> 'a) list" where
  "deleteProp x m =
     (case x of
        Some w \<Rightarrow> (case propertyKey w of Inr (IndexKey n) \<Rightarrow> AList.delete n m | _ \<Rightarrow> m)
      | None \<Rightarrow> m)"

text \<open>
  The callbacks handed to \<open>_processData\<close>. When \<open>resp\<close> is a member of \<open>Object.prototype\<close>,
  \<open>resp.resolve\<close> is \<open>undefined\<close> and calling it throws a \<open>TypeError\<close>.
\<close>

definition runDataCallback :: "env \<Rightarrow> data_cb \<Rightarrow> error + resolved \<Rightarrow> transport \<Rightarrow> outcome" where
  "runDataCallback env cb arg st =
     (case cb of
        TransmitCb receiver dataType \<Rightarrow>
          (case arg of
             Inr data \<Rightarrow> (None, processTransmit env receiver data dataType st)
           | Inl err \<Rightarrow> callOnInvalidMessage env err st)
      | InvokeCb procedure callId dataType \<Rightarrow>
          (case arg of
             Inr data \<Rightarrow> (None, snd (processInvoke env procedure callId data dataType st))
           | Inl err \<Rightarrow> callOnInvalidMessage env err st)
      | InvokeRespCb resp dataType \<Rightarrow>
          (case arg of
             Inr data \<Rightarrow>
               (None, emit (PromiseResolve (e_promise resp)
                              (if e_returnDataType resp then WithType data dataType
                               else Plain data)) st)
           | Inl err \<Rightarrow> callOnInvalidMessage env err st)
      | MemberRespCb \<Rightarrow>
          (case arg of
             Inr data \<Rightarrow> (Some TypeError, st)
           | Inl err \<Rightarrow> callOnInvalidMessage env err st)
      | ChunkCb p \<Rightarrow>
          (case arg of
             Inr data \<Rightarrow> (None, emit (PromiseResolve p (Plain data)) st)
           | Inl err \<Rightarrow> (None, emit (PromiseReject p err) st)))"

text \<open>
  \<open>_resolveMixedJSONDeep\<close> on the data of a packet (\<open>undefined\<close> stays \<open>undefined\<close>); the
  read streams the walk has constructed are added to the trace.
\<close>

definition resolveMixed ::
    "env \<Rightarrow> wire option \<Rightarrow> resolve_options \<Rightarrow> blob list option \<Rightarrow> transport
      \<Rightarrow> (error + resolved) \<times> transport" where
  "resolveMixed env data ropts binaries st =
     (case data of
        None \<Rightarrow> (Inr RUndefined, st)
      | Some d \<Rightarrow>
          (case resolveMixedJSONDeep (unescapeKey env) (options st) d ropts binaries of
             (res, meta) \<Rightarrow>
               (res, foldl (\<lambda>s sid. emit (NewReadStream (RStream sid)) s) st (created meta))))"

text \<open>A call of \<open>resolver.callback\<close>, with an error or with the binaries.\<close>

definition runResolverCallback ::
    "env \<Rightarrow> resolver_cb \<Rightarrow> error + blob list \<Rightarrow> transport \<Rightarrow> outcome" where
  "runResolverCallback env rcb arg st =
     (let st1 = emit (ResolverCallback rcb arg) st
      in case rcb of
           BinaryCb cb \<Rightarrow>
             (case arg of
                Inl err \<Rightarrow> runDataCallback env cb (Inl err) st1
              | Inr binaries \<Rightarrow> runDataCallback env cb (Inr (binaryAt binaries 0)) st1)
         | MixedCb data ropts cb \<Rightarrow>
             (case arg of
                Inl err \<Rightarrow> runDataCallback env cb (Inl err) st1
              | Inr binaries \<Rightarrow>
                  (case resolveMixed env data ropts (Some binaries) st1 of
                     (Inl e, st2) \<Rightarrow> (Some e, st2)
                   | (Inr r, st2) \<Rightarrow> runDataCallback env cb (Inr r) st2)))"

definition resolveBinaryContent :: "pkey \<Rightarrow> resolver_cb \<Rightarrow> transport \<Rightarrow> outcome" where
  "resolveBinaryContent binariesPacketId rcb st =
     (if map_of (binaryContentResolver st) binariesPacketId \<noteq> None
      then (Some (Error ''Binaries resolver already exists.''), st)
      else
        (let (h, st1) = setTimeout (BinaryResolveTimeout binariesPacketId rcb)
                          (binaryContentPacketTimeout (options st)) st
         in (None, st1\<lparr>binaryContentResolver :=
                        AList.update binariesPacketId \<lparr> callback = rcb, timeout = h \<rparr>
                          (binaryContentResolver st1)\<rparr>)))"

definition processData ::
    "env \<Rightarrow> dfield \<Rightarrow> wire option \<Rightarrow> wire option \<Rightarrow> data_cb \<Rightarrow> transport \<Rightarrow> outcome" where
  "processData env type data dataMetaInfo cb st =
     (case type of
        DT JSON \<Rightarrow> runDataCallback env cb (Inr (jsonValue data)) st
      | DT Binary \<Rightarrow>
          andThen
            (if isNumber data then (None, st)
             else runDataCallback env cb (Inl (Error ''Invalid binary packet id.'')) st)
            (resolveBinaryContent (toKey data) (BinaryCb cb))
      | DT t \<Rightarrow>
          (if isMixedJSONDataType t then
             (let resolveOptions =
                    \<lparr> parseStreams = (streamsEnabled (options st) \<and>
                          (t = JSONWithStreams \<or> t = JSONWithStreamsAndBinaries)),
                      parseBinaries = (t = JSONWithBinaries \<or> t = JSONWithStreamsAndBinaries) \<rparr>
              in if isNumber dataMetaInfo
                 then resolveBinaryContent (toKey dataMetaInfo) (MixedCb data resolveOptions cb) st
                 else (case resolveMixed env data resolveOptions None st of
                         (Inl e, st1) \<Rightarrow> (Some e, st1)
                       | (Inr r, st1) \<Rightarrow> runDataCallback env cb (Inr r) st1))
           else if t = Stream \<and> streamsEnabled (options st) then
             andThen
               (if isNumber data then (None, st)
                else runDataCallback env cb (Inl (Error ''Invalid stream id.'')) st)
               (\<lambda>st1.
                  (let s = (case data of Some (WNum n) \<Rightarrow> RStream n | _ \<Rightarrow> RStreamOf data)
                   in runDataCallback env cb (Inr s) (emit (NewReadStream s) st1)))
           else runDataCallback env cb (Inl (Error ''Invalid data type.'')) st)
      | _ \<Rightarrow> runDataCallback env cb (Inl (Error ''Invalid data type.'')) st)"

subsection \<open>Binary packets\<close>

text \<open>
  \<open>DataView.getUint32\<close> and \<open>DataView.getFloat64\<close> read big-endian and throw a
  \<open>RangeError\<close> outside the view. A double is decoded exactly; the result is the
  integer it denotes, or \<open>None\<close> when it denotes no integer (a fraction, an infinity,
  \<open>NaN\<close>), which no key of the maps equals.
\<close>

definition bigEndian :: "8 word list \<Rightarrow> nat" where
  "bigEndian bs = foldl (\<lambda>acc b. acc * 256 + unat b) 0 bs"

definition getUint32 :: "8 word list \<Rightarrow> nat \<Rightarrow> error + nat" where
  "getUint32 view offset =
     (if offset + 4 \<le> length view then Inr (bigEndian (take 4 (drop offset view)))
      else Inl RangeError)"

definition decodeFloat64 :: "8 word list \<Rightarrow> int option" where
  "decodeFloat64 bs =
     (let bits = bigEndian bs;
          negative = (bits div 2 ^ 63 = 1);
          e = (bits div 2 ^ 52) mod 2048;
          f = bits mod 2 ^ 52;
          magnitude =
            (if e = 2047 then None
             else if e = 0 then (if f = 0 then Some 0 else None)
             else if e \<ge> 1075 then Some ((2 ^ 52 + f) * 2 ^ (e - 1075))
             else if (2 ^ 52 + f) mod 2 ^ (1075 - e) = 0
                  then Some ((2 ^ 52 + f) div 2 ^ (1075 - e))
             else None)
      in map_option (\<lambda>m. if negative then - int m else int m) magnitude)"

definition getFloat64 :: "8 word list \<Rightarrow> nat \<Rightarrow> error + int option" where
  "getFloat64 view offset =
     (if offset + 8 \<le> length view then Inr (decodeFloat64 (take 8 (drop offset view)))
      else Inl RangeError)"

text \<open>
  The \<open>while\<close> loop of \<open>_processBinaryContentPacket\<close>: it returns the offset, the
  binaries collected, and whether it has left by \<open>break\<close>, that is whether the last
  length read was \<open>NEXT_BINARIES_PACKET_TOKEN\<close>.
\<close>

function scanBinaries ::
    "8 word list \<Rightarrow> nat \<Rightarrow> bool \<Rightarrow> blob list \<Rightarrow> error + (nat \<times> blob list \<times> bool)" where
  "scanBinaries view offset hasResolver binaries =
     (if offset < length view then
        (case getUint32 view offset of
           Inl e \<Rightarrow> Inl e
         | Inr binaryLen \<Rightarrow>
             if binaryLen = NEXT_BINARIES_PACKET_TOKEN then Inr (offset + 4, binaries, True)
             else scanBinaries view (offset + 4 + binaryLen) hasResolver
                    (if hasResolver
                     then binaries @ [take binaryLen (drop (offset + 4) view)]
                     else binaries))
      else Inr (offset, binaries, False))"
  by pat_completeness auto
termination
  by (relation "measure (\<lambda>(view, offset, hasResolver, binaries). length view - offset)") auto

declare scanBinaries.simps [simp del]

definition resolverFor :: "transport \<Rightarrow> int option \<Rightarrow> BinaryContentResolver option" where
  "resolverFor st packetId =
     (case packetId of None \<Rightarrow> None | Some n \<Rightarrow> map_of (binaryContentResolver st) (NumKey n))"

definition fireResolver ::
    "env \<Rightarrow> int option \<Rightarrow> blob list \<Rightarrow> transport \<Rightarrow> outcome" where
  "fireResolver env packetId binaries st =
     (case resolverFor st packetId of
        None \<Rightarrow> (None, st)
      | Some resolver \<Rightarrow>
          (let st1 = st\<lparr>binaryContentResolver :=
                          AList.delete (NumKey (the packetId)) (binaryContentResolver st)\<rparr>;
               st2 = clearTimeout (Some (timeout resolver)) st1
           in runResolverCallback env (callback resolver) (Inr binaries) st2))"

lemma scanBinaries_offset:
  "scanBinaries view offset hasResolver binaries = Inr (offset', binaries', token)
     \<Longrightarrow> offset \<le> offset'"
proof (induction view offset hasResolver binaries rule: scanBinaries.induct)
  case (1 view offset hasResolver binaries)
  show ?case
  proof (cases "offset < length view")
    case False
    with "1.prems" show ?thesis by (simp add: scanBinaries.simps)
  next
    case True
    then show ?thesis
    proof (cases "getUint32 view offset")
      case (Inl e)
      with True "1.prems" show ?thesis by (simp add: scanBinaries.simps)
    next
      case (Inr binaryLen)
      show ?thesis
      proof (cases "binaryLen = NEXT_BINARIES_PACKET_TOKEN")
        case tok: True
        with True Inr "1.prems" show ?thesis by (simp add: scanBinaries.simps)
      next
        case notok: False
        from True Inr notok "1.prems"
        have "scanBinaries view (offset + 4 + binaryLen) hasResolver
                (if hasResolver then binaries @ [take binaryLen (drop (offset + 4) view)]
                 else binaries) = Inr (offset', binaries', token)"
          by (simp add: scanBinaries.simps [of view offset])
        from "1.IH" [OF True Inr notok this] show ?thesis by simp
      qed
    qed
  qed
qed

function processBinaryContentPacket :: "env \<Rightarrow> 8 word list \<Rightarrow> nat \<Rightarrow> transport \<Rightarrow> outcome" where
  "processBinaryContentPacket env view offset st =
     (case getFloat64 view offset of
        Inl e \<Rightarrow> (Some e, st)
      | Inr packetId \<Rightarrow>
          (case scanBinaries view (offset + 8) (resolverFor st packetId \<noteq> None) [] of
             Inl e \<Rightarrow> (Some e, st)
           | Inr (offset1, binaries, token) \<Rightarrow>
               (case fireResolver env packetId binaries st of
                  (Some e, st1) \<Rightarrow> (Some e, st1)
                | (None, st1) \<Rightarrow>
                    if token then processBinaryContentPacket env view offset1 st1
                    else (None, st1))))"
  by pat_completeness auto
termination
  by (relation "measure (\<lambda>(env, view, offset, st). length view - offset)")
     (auto dest!: scanBinaries_offset simp: getFloat64_def split: if_splits)

declare processBinaryContentPacket.simps [simp del]

subsection \<open>Stream packets\<close>

text \<open>
  Each handler looks the stream up with the id as the packet holds it. What it finds
  under the name of a member of \<open>Object.prototype\<close> is a function (or, for \<open>__proto__\<close>,
  that object), which is truthy and has none of the methods of a stream: calling one
  throws a \<open>TypeError\<close>, after the arguments of the call have been evaluated.
\<close>

definition processStreamAccept :: "wire option \<Rightarrow> wire option \<Rightarrow> transport \<Rightarrow> outcome" where
  "processStreamAccept streamId bufferSize st =
     (case bufferSize of
        Some (WNum n) \<Rightarrow>
          (case lookupProp (activeWriteStreams st) streamId of
             Inl e \<Rightarrow> (Some e, st)
           | Inr (Own stream) \<Rightarrow> (None, emit (StreamCall stream (W_open n)) st)
           | Inr Inherited \<Rightarrow> (Some TypeError, st)
           | Inr Missing \<Rightarrow> (None, st))
      | _ \<Rightarrow> (Some (Error ''Invalid buffer size data type to accept a stream.''), st))"

definition processStreamDataPermission ::
    "wire option \<Rightarrow> wire option \<Rightarrow> transport \<Rightarrow> outcome" where
  "processStreamDataPermission streamId permission st =
     (case permission of
        Some (WNum n) \<Rightarrow>
          (case lookupProp (activeWriteStreams st) streamId of
             Inl e \<Rightarrow> (Some e, st)
           | Inr (Own stream) \<Rightarrow> (None, emit (StreamCall stream (W_addDataPermission n)) st)
           | Inr Inherited \<Rightarrow> (Some TypeError, st)
           | Inr Missing \<Rightarrow> (None, st))
      | _ \<Rightarrow> (Some (Error ''Invalid stream data permission size data type.''), st))"

text \<open>\<open>closeCode ?? StreamCloseCode.End\<close>: \<open>None\<close> stands for \<open>StreamCloseCode.End\<close>.\<close>

definition processReadStreamClose :: "wire option \<Rightarrow> wire option \<Rightarrow> transport \<Rightarrow> outcome" where
  "processReadStreamClose streamId closeCode st =
     (if \<not> isNumber closeCode \<and> closeCode \<noteq> None
      then (Some (Error ''Invalid close code data type to close a stream.''), st)
      else
        (case lookupProp (activeWriteStreams st) streamId of
           Inl e \<Rightarrow> (Some e, st)
         | Inr (Own stream) \<Rightarrow>
             (None, emit (StreamCall stream (W_readStreamClose (numberOf closeCode))) st)
         | Inr Inherited \<Rightarrow> (Some TypeError, st)
         | Inr Missing \<Rightarrow> (None, st)))"

definition processJsonWriteStreamClose ::
    "wire option \<Rightarrow> wire option \<Rightarrow> transport \<Rightarrow> outcome" where
  "processJsonWriteStreamClose streamId closeCode st =
     (case closeCode of
        Some (WNum code) \<Rightarrow>
          (case lookupProp (activeReadStreams st) streamId of
             Inl e \<Rightarrow> (Some e, st)
           | Inr (Own stream) \<Rightarrow> (None, emit (StreamCall stream (R_writeStreamClose code)) st)
           | Inr Inherited \<Rightarrow> (Some TypeError, st)
           | Inr Missing \<Rightarrow> (None, st))
      | _ \<Rightarrow> (Some (Error ''Invalid close code data type to close a stream.''), st))"

text \<open>
  The chunk of a JSON stream packet is \<open>new Promise(executor)\<close>. The executor runs at
  once; an exception it throws rejects the promise and goes no further.
  \<open>containsStreams\<close> of a data type field that is no \<open>DataType\<close> is taken as false.
\<close>

definition chunkExecutor ::
    "env \<Rightarrow> nat \<Rightarrow> dfield \<Rightarrow> wire option \<Rightarrow> wire option \<Rightarrow> transport \<Rightarrow> outcome" where
  "chunkExecutor env p dataType data binariesPacketId st =
     (if (case dataType of DT t \<Rightarrow> containsStreams t | _ \<Rightarrow> False)
         \<and> \<not> chunksCanContainStreams (options st)
      then (None, emit (PromiseReject p (Error ''Streams in chunks are not allowed.'')) st)
      else processData env dataType data binariesPacketId (ChunkCb p) st)"

text \<open>
  \<open>new Promise(executor)\<close>, the argument of \<open>stream._pushChunk\<close>: the promise and the
  state after the executor has run.
\<close>

definition chunkPromise ::
    "env \<Rightarrow> dfield \<Rightarrow> wire option \<Rightarrow> wire option \<Rightarrow> transport \<Rightarrow> nat \<times> transport" where
  "chunkPromise env dataType data binariesPacketId st =
     (let p = nextPromise st;
          st1 = st\<lparr>nextPromise := p + 1\<rparr>
      in (p, case chunkExecutor env p dataType data binariesPacketId st1 of
               (None, s) \<Rightarrow> s
             | (Some e, s) \<Rightarrow> emit (PromiseReject p e) s))"

definition pushChunkPromise ::
    "env \<Rightarrow> nat \<Rightarrow> dfield \<Rightarrow> wire option \<Rightarrow> wire option \<Rightarrow> transport \<Rightarrow> transport" where
  "pushChunkPromise env stream dataType data binariesPacketId st =
     (let (p, st2) = chunkPromise env dataType data binariesPacketId st
      in emit (StreamCall stream (R_pushChunkPromise p dataType)) st2)"

definition processJsonStreamChunk ::
    "env \<Rightarrow> wire option \<Rightarrow> dfield \<Rightarrow> wire option \<Rightarrow> wire option \<Rightarrow> transport \<Rightarrow> outcome" where
  "processJsonStreamChunk env streamId dataType data binariesPacketId st =
     (case lookupProp (activeReadStreams st) streamId of
        Inl e \<Rightarrow> (Some e, st)
      | Inr (Own stream) \<Rightarrow> (None, pushChunkPromise env stream dataType data binariesPacketId st)
      | Inr Inherited \<Rightarrow>
          (Some TypeError, snd (chunkPromise env dataType data binariesPacketId st))
      | Inr Missing \<Rightarrow> (None, st))"

definition processJsonStreamEnd ::
    "env \<Rightarrow> wire option \<Rightarrow> dfield \<Rightarrow> wire option \<Rightarrow> wire option \<Rightarrow> transport \<Rightarrow> outcome" where
  "processJsonStreamEnd env streamId dataType data binariesPacketId st =
     (case lookupProp (activeReadStreams st) streamId of
        Inl e \<Rightarrow> (Some e, st)
      | Inr (Own stream) \<Rightarrow>
          (let st1 = (if dataType = DTNotNumber \<or> dataType = DTAbsent then st
                      else pushChunkPromise env stream dataType data binariesPacketId st)
           in (None, emit (StreamCall stream R_end) st1))
      | Inr Inherited \<Rightarrow>
          (Some TypeError,
           if dataType = DTNotNumber \<or> dataType = DTAbsent then st
           else snd (chunkPromise env dataType data binariesPacketId st))
      | Inr Missing \<Rightarrow> (None, st))"

definition processBinaryStreamChunk :: "int option \<Rightarrow> blob \<Rightarrow> transport \<Rightarrow> outcome" where
  "processBinaryStreamChunk streamId binaryPart st =
     (case Option.bind streamId (map_of (activeReadStreams st)) of
        Some stream \<Rightarrow> (None, emit (StreamCall stream (R_pushChunkBinary binaryPart)) st)
      | None \<Rightarrow> (None, st))"

definition processBinaryStreamEnd :: "int option \<Rightarrow> blob \<Rightarrow> transport \<Rightarrow> outcome" where
  "processBinaryStreamEnd streamId binaryPart st =
     (case Option.bind streamId (map_of (activeReadStreams st)) of
        Some stream \<Rightarrow>
          (None, emit (StreamCall stream R_end)
                   (emit (StreamCall stream (R_pushChunkBinary binaryPart)) st))
      | None \<Rightarrow> (None, st))"

text \<open>
  \<open>(new Float64Array(buffer.slice(1,9)))[0]\<close>: the slice holds at most eight bytes. With
  eight it is one little-endian double; with none the array is empty and its first
  element is \<open>undefined\<close>, which names no stream; otherwise the constructor throws.
\<close>

definition float64ArrayFirst :: "8 word list \<Rightarrow> error + int option" where
  "float64ArrayFirst bytes =
     (if length bytes = 8 then Inr (decodeFloat64 (rev bytes))
      else if length bytes = 0 then Inr None
      else Inl RangeError)"

definition processBinaryPacket :: "env \<Rightarrow> 8 word list \<Rightarrow> transport \<Rightarrow> outcome" where
  "processBinaryPacket env buffer st =
     (case buffer of
        [] \<Rightarrow> (Some RangeError, st)
      | header # rest \<Rightarrow>
          if unat header = packetTypeCode BinaryContent
          then processBinaryContentPacket env buffer 1 st
          else if unat header = packetTypeCode StreamChunk then
            (case float64ArrayFirst (take 8 rest) of
               Inl e \<Rightarrow> (Some e, st)
             | Inr streamId \<Rightarrow> processBinaryStreamChunk streamId (drop 9 buffer) st)
          else if unat header = packetTypeCode StreamEnd then
            (case float64ArrayFirst (take 8 rest) of
               Inl e \<Rightarrow> (Some e, st)
             | Inr streamId \<Rightarrow> processBinaryStreamEnd streamId (drop 9 buffer) st)
          else callOnInvalidMessage env (Error ''Unknown binary package header type.'') st)"

subsection \<open>Text packets\<close>

text \<open>
  \<open>packet[i]\<close> for \<open>i\<close> up to 5. A packet is what \<open>decodeJson\<close> has parsed: inside a bundle
  it need not be an array. Reading a field of \<open>null\<close> throws a \<open>TypeError\<close>.
\<close>

definition fieldName :: "nat \<Rightarrow> string" where
  "fieldName i =
     (if i = 0 then ''0'' else if i = 1 then ''1'' else if i = 2 then ''2''
      else if i = 3 then ''3'' else if i = 4 then ''4'' else ''5'')"

definition fieldAt :: "wire \<Rightarrow> nat \<Rightarrow> wire option" where
  "fieldAt packet i =
     (case packet of
        WArr xs \<Rightarrow> (if i < length xs then Some (xs ! i) else None)
      | WObj kvs \<Rightarrow> map_of kvs (fieldName i)
      | WStr s \<Rightarrow> (if i < length s then Some (WStr [s ! i]) else None)
      | _ \<Rightarrow> None)"

definition dfieldOf :: "env \<Rightarrow> wire option \<Rightarrow> dfield" where
  "dfieldOf env x =
     (case x of
        None \<Rightarrow> DTAbsent
      | Some (WNum n) \<Rightarrow> (case dataTypeOfCode env n of Some t \<Rightarrow> DT t | None \<Rightarrow> DTOtherNumber)
      | Some _ \<Rightarrow> DTNotNumber)"

text \<open>
  \<open>_rejectInvoke\<close> and the \<open>InvokeDataResp\<close> branch. With a member of \<open>Object.prototype\<close> as
  \<open>resp\<close>, \<open>resp.timeout\<close> is \<open>undefined\<close>, \<open>delete\<close> removes nothing, and \<open>resp.reject\<close> and
  \<open>resp.resolve\<close> are \<open>undefined\<close>.
\<close>

definition rejectInvoke :: "wire option \<Rightarrow> wire option \<Rightarrow> transport \<Rightarrow> outcome" where
  "rejectInvoke callId rawErr st =
     (case lookupProp (invokeResponsePromises st) callId of
        Inl e \<Rightarrow> (Some e, st)
      | Inr (Own resp) \<Rightarrow>
          (let st1 = clearTimeout (e_timeout resp) st;
               st2 = st1\<lparr>invokeResponsePromises :=
                          deleteProp callId (invokeResponsePromises st1)\<rparr>
           in (None, emit (PromiseReject (e_promise resp) (HydratedError rawErr)) st2))
      | Inr Inherited \<Rightarrow> (Some TypeError, clearTimeout None st)
      | Inr Missing \<Rightarrow> (None, st))"

definition processInvokeDataResp :: "env \<Rightarrow> wire \<Rightarrow> transport \<Rightarrow> outcome" where
  "processInvokeDataResp env packet st =
     (case lookupProp (invokeResponsePromises st) (fieldAt packet 1) of
        Inl e \<Rightarrow> (Some e, st)
      | Inr (Own resp) \<Rightarrow>
          (let st1 = clearTimeout (e_timeout resp) st;
               st2 = st1\<lparr>invokeResponsePromises :=
                          deleteProp (fieldAt packet 1) (invokeResponsePromises st1)\<rparr>
           in processData env (dfieldOf env (fieldAt packet 2)) (fieldAt packet 3)
                (fieldAt packet 4) (InvokeRespCb resp (dfieldOf env (fieldAt packet 2))) st2)
      | Inr Inherited \<Rightarrow>
          processData env (dfieldOf env (fieldAt packet 2)) (fieldAt packet 3)
            (fieldAt packet 4) MemberRespCb (clearTimeout None st)
      | Inr Missing \<Rightarrow> (None, st))"

definition processJsonActionPacket :: "env \<Rightarrow> wire \<Rightarrow> transport \<Rightarrow> outcome" where
  "processJsonActionPacket env packet st =
     (if packet = WNull then (Some TypeError, st)
      else
        (case fieldAt packet 0 of
           Some (WNum n) \<Rightarrow>
             if n = int (packetTypeCode Transmit) then
               (case fieldAt packet 1 of
                  Some (WStr receiver) \<Rightarrow>
                    processData env (dfieldOf env (fieldAt packet 2)) (fieldAt packet 3)
                      (fieldAt packet 4)
                      (TransmitCb receiver (dfieldOf env (fieldAt packet 2))) st
                | _ \<Rightarrow> callOnInvalidMessage env (Error ''Receiver is not a string.'') st)
             else if n = int (packetTypeCode Invoke) then
               (case fieldAt packet 1 of
                  Some (WStr procedure) \<Rightarrow>
                    (case fieldAt packet 2 of
                       Some (WNum callId) \<Rightarrow>
                         processData env (dfieldOf env (fieldAt packet 3)) (fieldAt packet 4)
                           (fieldAt packet 5)
                           (InvokeCb procedure callId (dfieldOf env (fieldAt packet 3))) st
                     | _ \<Rightarrow> callOnInvalidMessage env (Error ''CallId is not a number.'') st)
                | _ \<Rightarrow> callOnInvalidMessage env (Error ''Receiver is not a string.'') st)
             else if n = int (packetTypeCode InvokeDataResp) then
               processInvokeDataResp env packet st
             else if n = int (packetTypeCode StreamChunk) then
               processJsonStreamChunk env (fieldAt packet 1) (dfieldOf env (fieldAt packet 2))
                 (fieldAt packet 3) (fieldAt packet 4) st
             else if n = int (packetTypeCode StreamDataPermission) then
               processStreamDataPermission (fieldAt packet 1) (fieldAt packet 2) st
             else if n = int (packetTypeCode StreamEnd) then
               processJsonStreamEnd env (fieldAt packet 1) (dfieldOf env (fieldAt packet 2))
                 (fieldAt packet 3) (fieldAt packet 4) st
             else if n = int (packetTypeCode InvokeErrResp) then
               rejectInvoke (fieldAt packet 1) (fieldAt packet 2) st
             else if n = int (packetTypeCode ReadStreamClose) then
               processReadStreamClose (fieldAt packet 1) (fieldAt packet 2) st
             else if n = int (packetTypeCode StreamAccept) then
               processStreamAccept (fieldAt packet 1) (fieldAt packet 2) st
             else if n = int (packetTypeCode WriteStreamClose) then
               processJsonWriteStreamClose (fieldAt packet 1) (fieldAt packet 2) st
             else callOnInvalidMessage env (Error ''Unknown packet type.'') st
         | _ \<Rightarrow> callOnInvalidMessage env (Error ''Unknown packet type.'') st))"

fun processBundle :: "env \<Rightarrow> wire list \<Rightarrow> transport \<Rightarrow> outcome" where
  "processBundle env [] st = (None, st)"
| "processBundle env (packet # packets) st =
     andThen (processJsonActionPacket env packet st) (processBundle env packets)"

subsection \<open>\<open>emitMessage\<close>\<close>

text \<open>
  A raw message is binary or text. The JSON codec is not among the sources: a text
  message is given by what \<open>decodeJson('[' + rawMsg + ']')\<close> does with it, the error it
  throws or the array it returns.
\<close>

datatype raw_message = BinaryMsg "8 word list" | TextMsg "error + wire list"

definition callOnPing :: "env \<Rightarrow> transport \<Rightarrow> outcome" where
  "callOnPing env st = (onPing env, emit CallOnPing st)"

definition callOnPong :: "env \<Rightarrow> transport \<Rightarrow> outcome" where
  "callOnPong env st = (onPong env, emit CallOnPong st)"

definition emitMessage :: "env \<Rightarrow> raw_message \<Rightarrow> transport \<Rightarrow> outcome" where
  "emitMessage env rawMsg st =
     tryCatch
       (case rawMsg of
          BinaryMsg buffer \<Rightarrow>
            if length buffer = 1 then
              (if buffer ! 0 = PING_UINT8
               then tryCatch (callOnPing env st) (callOnListenerError env)
               else if buffer ! 0 = PONG_UINT8
               then tryCatch (callOnPong env st) (callOnListenerError env)
               else processBinaryPacket env buffer st)
            else processBinaryPacket env buffer st
        | TextMsg decoded \<Rightarrow>
            (case decoded of
               Inl err \<Rightarrow> callOnInvalidMessage env err st
             | Inr packet \<Rightarrow>
                 if fieldAt (WArr packet) 0 = Some (WNum (int (packetTypeCode Bundle))) then
                   (case fieldAt (WArr packet) 1 of
                      Some (WArr packets) \<Rightarrow> processBundle env packets st
                    | _ \<Rightarrow> (None, st))
                 else processJsonActionPacket env (WArr packet) st))
       (callOnInvalidMessage env)"

section \<open>The connection\<close>

text \<open>
  \<open>_rejectBinaryContentResolver\<close>: every resolver's timeout is cleared and its callback
  called with the error, in the order of the map; the map is emptied afterwards, and is
  not when a callback throws.
\<close>

fun rejectResolvers ::
    "env \<Rightarrow> error \<Rightarrow> (pkey \<times> BinaryContentResolver) list \<Rightarrow> transport \<Rightarrow> outcome" where
  "rejectResolvers env err [] st = (None, st)"
| "rejectResolvers env err ((k, resolver) # rest) st =
     andThen
       (runResolverCallback env (callback resolver) (Inl err)
          (clearTimeout (Some (timeout resolver)) st))
       (rejectResolvers env err rest)"

definition rejectBinaryContentResolver :: "env \<Rightarrow> error \<Rightarrow> transport \<Rightarrow> outcome" where
  "rejectBinaryContentResolver env err st =
     andThen (rejectResolvers env err (binaryContentResolver st) st)
       (\<lambda>st1. (None, st1\<lparr>binaryContentResolver := []\<rparr>))"

fun rejectPromises :: "error \<Rightarrow> (int \<times> invoke_entry) list \<Rightarrow> transport \<Rightarrow> transport" where
  "rejectPromises err [] st = st"
| "rejectPromises err ((k, resp) # rest) st =
     rejectPromises err rest
       (emit (PromiseReject (e_promise resp) err) (clearTimeout (e_timeout resp) st))"

definition rejectInvokeRespPromises :: "error \<Rightarrow> transport \<Rightarrow> transport" where
  "rejectInvokeRespPromises err st =
     (let tmpPromises = invokeResponsePromises st
      in rejectPromises err tmpPromises (st\<lparr>invokeResponsePromises := []\<rparr>))"

fun callAll :: "stream_call \<Rightarrow> (int \<times> nat) list \<Rightarrow> transport \<Rightarrow> transport" where
  "callAll c [] st = st"
| "callAll c ((k, stream) # rest) st = callAll c rest (emit (StreamCall stream c) st)"

definition emitBadConnectionToStreams :: "transport \<Rightarrow> transport" where
  "emitBadConnectionToStreams st =
     callAll W_emitBadConnection (activeWriteStreams st)
       (callAll R_emitBadConnection (activeReadStreams st) st)"

text \<open>
  \<open>buffer.clearBatchTime()\<close> and \<open>buffer.flushBuffer()\<close> are calls into the package
  buffer, which is not among the sources.
\<close>

definition emitBadConnection :: "env \<Rightarrow> string \<Rightarrow> string option \<Rightarrow> transport \<Rightarrow> outcome" where
  "emitBadConnection env type msg st =
     (let st1 = st\<lparr>is_open := False\<rparr>;
          st2 = emit ClearBatchTime st1;
          err = BadConnectionError type msg;
          st3 = st2\<lparr>badConnectionStamp := generateNewBadConnectionStamp st2\<rparr>
      in andThen (rejectBinaryContentResolver env err st3)
           (\<lambda>st4.
              (let st5 = rejectInvokeRespPromises err st4;
                   st6 = emitBadConnectionToStreams st5
               in (None, st6\<lparr>activeReadStreams := [], activeWriteStreams := []\<rparr>))))"

definition emitConnection :: "transport \<Rightarrow> transport" where
  "emitConnection st = emit FlushBuffer (st\<lparr>is_open := True\<rparr>)"

subsection \<open>Notions for stating properties of the dispatch\<close>

text \<open>
  The map an inbound packet of a given type looks its id up in; whether the id names
  nothing there, neither an entry nor a member of \<open>Object.prototype\<close>; whether the maps
  hold ids the transport has allocated; and what the source checks of the packet's
  second argument before it looks the id up.
\<close>

definition namesNothing :: "transport \<Rightarrow> PacketType \<Rightarrow> wire option \<Rightarrow> bool" where
  "namesNothing st t x =
     (if t = InvokeDataResp \<or> t = InvokeErrResp
      then lookupProp (invokeResponsePromises st) x = Inr Missing
      else if t = StreamAccept \<or> t = StreamDataPermission \<or> t = ReadStreamClose
      then lookupProp (activeWriteStreams st) x = Inr Missing
      else if t = WriteStreamClose \<or> t = StreamChunk \<or> t = StreamEnd
      then lookupProp (activeReadStreams st) x = Inr Missing
      else False)"

definition allocatedIds :: "transport \<Rightarrow> bool" where
  "allocatedIds st \<longleftrightarrow>
     list_all safeInteger (map fst (invokeResponsePromises st)) \<and>
     list_all safeInteger (map fst (activeWriteStreams st)) \<and>
     list_all safeInteger (map fst (activeReadStreams st))"

definition argumentTyped :: "PacketType \<Rightarrow> wire option \<Rightarrow> bool" where
  "argumentTyped t x =
     (if t = StreamAccept \<or> t = StreamDataPermission \<or> t = WriteStreamClose then isNumber x
      else if t = ReadStreamClose then isNumber x \<or> x = None
      else True)"

definition answersAndStreamPackets :: "PacketType list" where
  "answersAndStreamPackets =
     [InvokeDataResp, InvokeErrResp, StreamAccept, StreamDataPermission, ReadStreamClose,
      WriteStreamClose, StreamChunk, StreamEnd]"

subsection \<open>Notions for stating properties of the invoke callbacks\<close>

text \<open>An action of the listener that calls one of the two callbacks.\<close>

definition isCallbackCall :: "invoke_action \<Rightarrow> bool" where
  "isCallbackCall a = (case a of Raise e \<Rightarrow> False | _ \<Rightarrow> True)"

text \<open>The last field of the \<open>InvokeErrResp\<close> packet that \<open>reject(err)\<close> sends.\<close>

definition errField :: "reject_arg \<Rightarrow> field" where
  "errField err = (case err of JSONStringArg s \<Rightarrow> FJSONStringClass | ErrorArg e \<Rightarrow> FDehydrated e)"

section \<open>Notions for the loss of the connection\<close>

text \<open>
  \<open>quiet st st' t\<close>: going from \<open>st\<close> to \<open>st'\<close> performs the effects \<open>t\<close> and nothing else
  that a callback could see: the open flag, the stamp, the identifier counters and the
  four maps are as before, and each effect of \<open>t\<close> was observed under the flag and stamp
  of \<open>st\<close>.
\<close>

definition quiet :: "transport \<Rightarrow> transport \<Rightarrow> effect list \<Rightarrow> bool" where
  "quiet st st' t \<longleftrightarrow>
     is_open st' = is_open st \<and> badConnectionStamp st' = badConnectionStamp st \<and>
     cid st' = cid st \<and> binaryContentPacketId st' = binaryContentPacketId st \<and>
     objectStreamId st' = objectStreamId st \<and> binaryStreamId st' = binaryStreamId st \<and>
     binaryContentResolver st' = binaryContentResolver st \<and>
     invokeResponsePromises st' = invokeResponsePromises st \<and>
     activeReadStreams st' = activeReadStreams st \<and>
     activeWriteStreams st' = activeWriteStreams st \<and>
     trace st' = trace st @ t \<and>
     observed st' = observed st @ map (\<lambda>e. (is_open st, badConnectionStamp st)) t"

section \<open>Invokes\<close>

text \<open>
  The \<open>_afterSend\<close> closures that \<open>prepareInvoke\<close> builds: the one of the branch without
  complex types, the one that calls \<open>setResponse\<close> and \<open>setResponseTimeout\<close>, and the one
  that calls \<open>setResponse\<close>, resolves \<open>sent\<close> and tells the streams they were
  transmitted. Each holds the call id, the promise, \<open>returnDataType\<close> and the
  \<open>responseTimeout\<close> asked for.
\<close>

datatype after_send =
    PlainAfterSend int nat bool "int option"
  | ArmAfterSend int nat bool "int option"
  | StreamsAfterSend int nat bool "WriteStream list"

record InvokePackage =
  p_head :: frame
  p_binary :: "frame option"
  p_afterSend :: after_send
  p_promise :: nat

text \<open>\<open>responseTimeout || this.options.responseTimeout\<close>\<close>

definition effectiveTimeout :: "int option \<Rightarrow> transport \<Rightarrow> int" where
  "effectiveTimeout rt st =
     (case rt of
        Some n \<Rightarrow> (if n \<noteq> 0 then n else responseTimeout (options st))
      | None \<Rightarrow> responseTimeout (options st))"

definition setResponse :: "int \<Rightarrow> nat \<Rightarrow> bool \<Rightarrow> transport \<Rightarrow> transport" where
  "setResponse callId p returnDataType st =
     st\<lparr>invokeResponsePromises :=
          AList.update callId
            \<lparr> e_promise = p, e_timeout = None, e_returnDataType = returnDataType \<rparr>
            (invokeResponsePromises st)\<rparr>"

definition armTimeout :: "int \<Rightarrow> nat \<Rightarrow> int option \<Rightarrow> invoke_entry \<Rightarrow> transport \<Rightarrow> transport" where
  "armTimeout callId p rt entry st =
     (let (h, st1) = setTimeout (InvokeTimeout callId p) (effectiveTimeout rt st) st
      in st1\<lparr>invokeResponsePromises :=
              AList.update callId (entry\<lparr>e_timeout := Some h\<rparr>) (invokeResponsePromises st1)\<rparr>)"

definition setResponseTimeout :: "int \<Rightarrow> nat \<Rightarrow> int option \<Rightarrow> transport \<Rightarrow> transport" where
  "setResponseTimeout callId p rt st =
     (case map_of (invokeResponsePromises st) callId of
        Some entry \<Rightarrow> (if e_timeout entry = None then armTimeout callId p rt entry st else st)
      | None \<Rightarrow> st)"

text \<open>
  The \<open>then\<close> callback of a join runs once \<open>sent\<close> and every \<open>closed\<close> have resolved.
  It runs as a microtask, after the code that resolved the last of them has finished;
  here it runs at the end of that code.
\<close>

definition joinReady :: "response_join \<Rightarrow> bool" where
  "joinReady j \<longleftrightarrow> j_sent j \<and> j_waiting j = [] \<and> \<not> j_done j"

fun runReadyJoins :: "response_join list \<Rightarrow> transport \<Rightarrow> transport" where
  "runReadyJoins [] st = st"
| "runReadyJoins (j # js) st =
     runReadyJoins js
       (if joinReady j then setResponseTimeout (j_callId j) (j_promise j) (j_responseTimeout j) st
        else st)"

definition settleJoins :: "transport \<Rightarrow> transport" where
  "settleJoins st =
     (let js = responseJoins st;
          st1 = runReadyJoins js st
      in st1\<lparr>responseJoins := map (\<lambda>j. if joinReady j then j\<lparr>j_done := True\<rparr> else j) js\<rparr>)"

definition markSent :: "nat \<Rightarrow> transport \<Rightarrow> transport" where
  "markSent p st =
     st\<lparr>responseJoins :=
          map (\<lambda>j. if j_promise j = p then j\<lparr>j_sent := True\<rparr> else j) (responseJoins st)\<rparr>"

text \<open>The \<open>closed\<close> promise of the write stream \<open>stream\<close> resolves.\<close>

definition streamClosed :: "nat \<Rightarrow> transport \<Rightarrow> transport" where
  "streamClosed stream st =
     settleJoins
       (st\<lparr>closedWriteStreams := stream # closedWriteStreams st,
           responseJoins :=
             map (\<lambda>j. j\<lparr>j_waiting := filter (\<lambda>s. s \<noteq> stream) (j_waiting j)\<rparr>)
               (responseJoins st)\<rparr>)"

definition runAfterSend :: "after_send \<Rightarrow> transport \<Rightarrow> transport" where
  "runAfterSend a st =
     (case a of
        PlainAfterSend callId p returnDataType rt \<Rightarrow>
          (let st1 = setResponse callId p returnDataType st
           in armTimeout callId p rt
                \<lparr> e_promise = p, e_timeout = None, e_returnDataType = returnDataType \<rparr> st1)
      | ArmAfterSend callId p returnDataType rt \<Rightarrow>
          setResponseTimeout callId p rt (setResponse callId p returnDataType st)
      | StreamsAfterSend callId p returnDataType streams \<Rightarrow>
          settleJoins
            (onTransmittedAll streams (markSent p (setResponse callId p returnDataType st))))"

text \<open>A timer runs out: the closure handed to \<open>setTimeout\<close> is called.\<close>

definition fireTimer :: "env \<Rightarrow> nat \<Rightarrow> transport \<Rightarrow> outcome" where
  "fireTimer env h st =
     (case map_of (timers st) h of
        None \<Rightarrow> (None, st)
      | Some task \<Rightarrow>
          (let st1 = st\<lparr>timers := AList.delete h (timers st)\<rparr>
           in case task of
                InvokeTimeout callId p \<Rightarrow>
                  (None, emit (PromiseReject p (TimeoutError InvokeResponse))
                           (st1\<lparr>invokeResponsePromises :=
                                  AList.delete callId (invokeResponsePromises st1)\<rparr>))
              | BinaryResolveTimeout binariesPacketId rcb \<Rightarrow>
                  runResolverCallback env rcb (Inl (TimeoutError BinaryResolve))
                    (st1\<lparr>binaryContentResolver :=
                           AList.delete binariesPacketId (binaryContentResolver st1)\<rparr>)))"

definition newJoin :: "int \<Rightarrow> nat \<Rightarrow> int option \<Rightarrow> WriteStream list \<Rightarrow> transport \<Rightarrow> transport" where
  "newJoin callId p rt streams st =
     st\<lparr>responseJoins := responseJoins st @
          [\<lparr> j_callId = callId, j_promise = p, j_responseTimeout = rt, j_sent = False,
             j_waiting = filter (\<lambda>s. s \<notin> set (closedWriteStreams st)) (map ws_ref streams),
             j_done = False \<rparr>]\<rparr>"

text \<open>The last branch of \<open>prepareInvoke\<close>: the data goes through the encoding walk.\<close>

definition prepareInvokeMixed ::
    "env \<Rightarrow> string \<Rightarrow> payload option \<Rightarrow> int option \<Rightarrow> bool \<Rightarrow> int \<Rightarrow> nat \<Rightarrow> transport
      \<Rightarrow> (error + InvokePackage) \<times> transport" where
  "prepareInvokeMixed env procedure data rt returnDataType callId p st =
     (let (data1, binaries, streams, st1) =
            (case data of
               None \<Rightarrow> (None, [], [], st)
             | Some d \<Rightarrow>
                 (case processMixedJSONDeep (escapeKey env) d [] [] st of
                    (w, bs, ss, st') \<Rightarrow> (Some w, bs, ss, st')));
          st2 = (if length streams > 0 then newJoin callId p rt streams st1 else st1);
          afterSend = (if length streams > 0 then StreamsAfterSend callId p returnDataType streams
                       else ArmAfterSend callId p returnDataType rt);
          fields = [FQuoted procedure, FNum callId,
                    FType (parseJSONDataType (length binaries > 0) (length streams > 0))]
                     @ jsonField data1
      in if length binaries > 0 then
           (let (binaryContentPacketId, st3) = getNewBinaryContentPacketId st2
            in case createBinaryContentPacket binaryContentPacketId binaries of
                 Inl e \<Rightarrow> (Inl e, st3)
               | Inr f \<Rightarrow>
                   (Inr \<lparr> p_head = TextFrame Invoke (fields @ [FNum binaryContentPacketId]),
                           p_binary = Some f, p_afterSend = afterSend, p_promise = p \<rparr>, st3))
         else (Inr \<lparr> p_head = TextFrame Invoke fields, p_binary = None,
                       p_afterSend = afterSend, p_promise = p \<rparr>, st2))"

definition prepareInvoke ::
    "env \<Rightarrow> string \<Rightarrow> payload option \<Rightarrow> int option \<Rightarrow> bool \<Rightarrow> bool \<Rightarrow> transport
      \<Rightarrow> (error + InvokePackage) \<times> transport" where
  "prepareInvoke env procedure data rt processComplexTypes returnDataType st =
     (let (callId, st1) = getNewCid st;
          p = nextPromise st1;
          st2 = st1\<lparr>nextPromise := p + 1\<rparr>
      in if \<not> processComplexTypes then
           (Inr \<lparr> p_head = TextFrame Invoke
                              ([FQuoted procedure, FNum callId, FType JSON] @ rawField data),
                   p_binary = None,
                   p_afterSend = PlainAfterSend callId p returnDataType rt,
                   p_promise = p \<rparr>, st2)
         else
           (case data of
              Some (PStream w) \<Rightarrow>
                (if streamsEnabled (options st2) then
                   (let (streamId, st3) = getNewStreamId (binary w) st2;
                        st4 = newJoin callId p rt [w] st3;
                        st5 = emit (StreamCall (ws_ref w) (W_init streamId)) st4
                    in (Inr \<lparr> p_head = TextFrame Invoke
                                  [FQuoted procedure, FNum callId, FType Stream, FNum streamId],
                              p_binary = None,
                              p_afterSend = StreamsAfterSend callId p returnDataType [w],
                              p_promise = p \<rparr>, st5))
                 else prepareInvokeMixed env procedure data rt returnDataType callId p st2)
            | Some (PBlob b) \<Rightarrow>
                (let (binaryContentPacketId, st3) = getNewBinaryContentPacketId st2
                 in case createBinaryContentPacket binaryContentPacketId [b] of
                      Inl e \<Rightarrow> (Inl e, st3)
                    | Inr f \<Rightarrow>
                        (Inr \<lparr> p_head = TextFrame Invoke
                                  [FQuoted procedure, FNum callId, FType Binary,
                                   FNum binaryContentPacketId],
                                p_binary = Some f,
                                p_afterSend = ArmAfterSend callId p returnDataType rt,
                                p_promise = p \<rparr>, st3))
            | _ \<Rightarrow> prepareInvokeMixed env procedure data rt returnDataType callId p st2))"

definition directSendPackage :: "InvokePackage \<Rightarrow> transport \<Rightarrow> transport" where
  "directSendPackage pack st =
     runAfterSend (p_afterSend pack) (silentDirectSendPackage (p_head pack) (p_binary pack) st)"

section \<open>Notions for the response timeout of an invoke\<close>

text \<open>
  The write streams \<open>prepareInvoke\<close> waits for: those of the payload that the transport
  embeds, which it does with complex types processed and streams enabled. (With streams
  disabled a write stream is sent as its \<open>toJSON\<close> value.)
\<close>

definition embeddedStreams :: "payload option \<Rightarrow> WriteStream list" where
  "embeddedStreams data = (case data of None \<Rightarrow> [] | Some d \<Rightarrow> streamsOf (leaves d))"

definition waitedStreams :: "transport \<Rightarrow> bool \<Rightarrow> payload option \<Rightarrow> WriteStream list" where
  "waitedStreams st processComplexTypes data =
     (if processComplexTypes \<and> streamsEnabled (options st) then embeddedStreams data else [])"

text \<open>
  What happens to a prepared invoke while it waits: its \<open>_afterSend\<close> is called, or the
  \<open>closed\<close> promise of a write stream resolves.
\<close>

datatype invoke_event = AfterSendFires | StreamCloses nat

fun runEvent :: "InvokePackage \<Rightarrow> invoke_event \<Rightarrow> transport \<Rightarrow> transport" where
  "runEvent pack AfterSendFires st = runAfterSend (p_afterSend pack) st"
| "runEvent pack (StreamCloses stream) st = streamClosed stream st"

definition runEvents :: "InvokePackage \<Rightarrow> invoke_event list \<Rightarrow> transport \<Rightarrow> transport" where
  "runEvents pack evs st = foldl (\<lambda>s e. runEvent pack e s) st evs"

text \<open>
  The handles of the running response timers of a call id; whether a stream has closed
  by the end of a list of events.
\<close>

definition invokeTimers :: "transport \<Rightarrow> int \<Rightarrow> nat list" where
  "invokeTimers st callId =
     map fst (filter (\<lambda>(h, task). case task of InvokeTimeout c p \<Rightarrow> c = callId | _ \<Rightarrow> False)
                (timers st))"

definition closedAfter :: "transport \<Rightarrow> invoke_event list \<Rightarrow> nat \<Rightarrow> bool" where
  "closedAfter st evs stream \<longleftrightarrow>
     stream \<in> set (closedWriteStreams st) \<or> StreamCloses stream \<in> set evs"

text \<open>The encoding walk leaves the pending invokes, the joins and the timers alone.\<close>

definition runtimeKept :: "transport \<Rightarrow> transport \<Rightarrow> bool" where
  "runtimeKept st st' \<longleftrightarrow>
     options st' = options st \<and> responseJoins st' = responseJoins st
     \<and> closedWriteStreams st' = closedWriteStreams st
     \<and> invokeResponsePromises st' = invokeResponsePromises st
     \<and> timers st' = timers st \<and> nextTimer st' = nextTimer st \<and> nextPromise st' = nextPromise st"

text \<open>
  What \<open>prepareInvoke\<close> leaves behind for the streams it waits for: the package's
  \<open>_afterSend\<close> and, if there are streams, the join over \<open>sent\<close> and their \<open>closed\<close>
  promises.
\<close>

definition preparedFor ::
    "transport \<Rightarrow> transport \<Rightarrow> InvokePackage \<Rightarrow> int \<Rightarrow> nat \<Rightarrow> int option \<Rightarrow> bool
      \<Rightarrow> WriteStream list \<Rightarrow> bool" where
  "preparedFor st st1 pack callId p rt returnDataType streams \<longleftrightarrow>
     p_promise pack = p
     \<and> closedWriteStreams st1 = closedWriteStreams st
     \<and> invokeResponsePromises st1 = invokeResponsePromises st
     \<and> timers st1 = timers st
     \<and> (if streams \<noteq> [] then
          p_afterSend pack = StreamsAfterSend callId p returnDataType streams
          \<and> responseJoins st1 = responseJoins st @
               [\<lparr> j_callId = callId, j_promise = p, j_responseTimeout = rt, j_sent = False,
                  j_waiting = filter (\<lambda>s. s \<notin> set (closedWriteStreams st)) (map ws_ref streams),
                  j_done = False \<rparr>]
        else (p_afterSend pack = ArmAfterSend callId p returnDataType rt
              \<or> p_afterSend pack = PlainAfterSend callId p returnDataType rt)
             \<and> responseJoins st1 = responseJoins st)"

text \<open>
  The entry of a call id in \<open>_invokeResponsePromises\<close>: installed with a running timer,
  which is the one response timer added for the call id since \<open>st\<close>; installed with
  \<open>timeout\<close> undefined and no response timer added; or as it was in \<open>st\<close>.
\<close>

definition pendingArmed :: "transport \<Rightarrow> transport \<Rightarrow> int \<Rightarrow> nat \<Rightarrow> bool \<Rightarrow> bool" where
  "pendingArmed st st' callId p returnDataType \<longleftrightarrow>
     (case map_of (invokeResponsePromises st') callId of
        None \<Rightarrow> False
      | Some e \<Rightarrow>
          e_promise e = p \<and> e_returnDataType e = returnDataType
          \<and> (case e_timeout e of
                None \<Rightarrow> False
              | Some h \<Rightarrow> invokeTimers st' callId = invokeTimers st callId @ [h]))"

definition pendingUnarmed :: "transport \<Rightarrow> transport \<Rightarrow> int \<Rightarrow> nat \<Rightarrow> bool \<Rightarrow> bool" where
  "pendingUnarmed st st' callId p returnDataType \<longleftrightarrow>
     map_of (invokeResponsePromises st') callId =
       Some \<lparr> e_promise = p, e_timeout = None, e_returnDataType = returnDataType \<rparr>
     \<and> invokeTimers st' callId = invokeTimers st callId"

definition untouched :: "transport \<Rightarrow> transport \<Rightarrow> int \<Rightarrow> bool" where
  "untouched st st' callId \<longleftrightarrow>
     map_of (invokeResponsePromises st') callId = map_of (invokeResponsePromises st) callId
     \<and> invokeTimers st' callId = invokeTimers st callId"

text \<open>The condition under which \<open>setResponseTimeout\<close> sets a timer.\<close>

definition armable :: "transport \<Rightarrow> int \<Rightarrow> bool" where
  "armable st callId \<longleftrightarrow>
     (case map_of (invokeResponsePromises st) callId of
        None \<Rightarrow> False | Some e \<Rightarrow> e_timeout e = None)"

text \<open>One round of the loop of \<open>runReadyJoins\<close>.\<close>

definition readyStep :: "response_join \<Rightarrow> transport \<Rightarrow> transport" where
  "readyStep j st =
     (if joinReady j then setResponseTimeout (j_callId j) (j_promise j) (j_responseTimeout j) st
      else st)"

text \<open>
  The joins of a call id follow the events: \<open>sent\<close> says whether \<open>_afterSend\<close> has run, the
  streams waited for are those of \<open>refs\<close> that have not closed, and the \<open>then\<close> callback
  has run once both are through. The entry follows accordingly.
\<close>

definition joinsTrack :: "transport \<Rightarrow> int \<Rightarrow> nat \<Rightarrow> nat list \<Rightarrow> bool \<Rightarrow> bool" where
  "joinsTrack st c p refs sent \<longleftrightarrow>
     (\<forall>j \<in> set (responseJoins st). j_callId j = c \<longrightarrow>
        refs \<noteq> [] \<and> j_promise j = p \<and> j_sent j = sent
        \<and> j_waiting j = filter (\<lambda>r. r \<notin> set (closedWriteStreams st)) refs
        \<and> (j_done j \<longleftrightarrow> sent \<and> j_waiting j = []))
     \<and> (refs \<noteq> [] \<longrightarrow> (\<exists>j \<in> set (responseJoins st). j_callId j = c))"

definition entryTrack ::
    "transport \<Rightarrow> transport \<Rightarrow> int \<Rightarrow> nat \<Rightarrow> bool \<Rightarrow> nat list \<Rightarrow> bool \<Rightarrow> bool" where
  "entryTrack st0 st c p returnDataType refs sent \<longleftrightarrow>
     (if sent then
        (if \<forall>r \<in> set refs. r \<in> set (closedWriteStreams st)
         then pendingArmed st0 st c p returnDataType
         else pendingUnarmed st0 st c p returnDataType)
      else untouched st0 st c)"

section \<open>Example inputs\<close>

definition demoStream :: "nat \<Rightarrow> WriteStream" where
  "demoStream n = \<lparr> ws_ref = n, binary = False, toJSON = WStr ''[WriteStream]'' \<rparr>"

definition demoValue :: payload where
  "demoValue =
     PObj [(''_b'', PNum 7), (''file'', PBlob [1, 2, 3]), (''_s'', PArr [PStream (demoStream 0)])]"

text \<open>An object with the key \<open>__proto__\<close>.\<close>

definition protoValue :: payload where
  "protoValue = PObj [(''__proto__'', PNum 5), (''a'', PNum 1)]"

definition manyStreams :: "nat \<Rightarrow> payload" where
  "manyStreams n = PArr (map (\<lambda>k. PStream (demoStream k)) [0..<n])"


definition parseAll :: resolve_options where
  "parseAll = \<lparr> parseStreams = True, parseBinaries = True \<rparr>"

definition parseStreamsOnly :: resolve_options where
  "parseStreamsOnly = \<lparr> parseStreams = True, parseBinaries = False \<rparr>"

text \<open>
  An environment whose hooks never throw; its data type codes are an example numbering.
\<close>

definition quietEnv :: env where
  "quietEnv =
     \<lparr> escapeKey = escapePlaceholderSequence, unescapeKey = unescapePlaceholderSequence,
       dataTypeOfCode = (\<lambda>n. if n = 0 then Some JSON else if n = 1 then Some Binary
          else if n = 2 then Some Stream else if n = 3 then Some JSONWithBinaries
          else if n = 4 then Some JSONWithStreams
          else if n = 5 then Some JSONWithStreamsAndBinaries else None),
       onInvalidMessage = (\<lambda>e. None), onListenerError = (\<lambda>e. None),
       onTransmit = (\<lambda>receiver d t. None), onInvoke = (\<lambda>procedure d t. []),
       onPing = None, onPong = None \<rparr>"

text \<open>
  A transport that allows streams in chunks and has handed out the object stream id 1
  (to the enclosing stream of the example).
\<close>

definition chunkTransport :: transport where
  "chunkTransport =
     snd (getNewStreamId False
            (new_transport (DEFAULT_OPTIONS\<lparr>chunksCanContainStreams := True\<rparr>) True))"

text \<open>
  Environments with hooks that throw: the ping and pong listeners throw \<open>Thrown 1\<close>, the
  transmit listener throws \<open>Thrown 1\<close>, and \<open>onListenerError\<close> throws \<open>Thrown 2\<close>; in the
  second one \<open>onInvalidMessage\<close> throws \<open>Thrown 3\<close> as well.
\<close>

definition throwingEnv :: env where
  "throwingEnv =
     quietEnv\<lparr> onPing := Some (Thrown 1), onPong := Some (Thrown 1),
               onTransmit := (\<lambda>receiver d t. Some (Thrown 1)),
               onListenerError := (\<lambda>e. Some (Thrown 2)) \<rparr>"

definition allThrowingEnv :: env where
  "allThrowingEnv = throwingEnv\<lparr> onInvalidMessage := (\<lambda>e. Some (Thrown 3)) \<rparr>"

definition freshTransport :: transport where
  "freshTransport = new_transport DEFAULT_OPTIONS True"

text \<open>
  Two \<open>StreamAccept\<close> packets for the stream id 99, which no transport here knows: one
  with a buffer size that is no number, one well typed.
\<close>

definition badAccept :: "wire list" where
  "badAccept = [WNum 6, WNum 99, WStr ''soon'']"

definition goodAccept :: "wire list" where
  "goodAccept = [WNum 6, WNum 99, WNum 10]"

text \<open>A \<open>StreamAccept\<close> packet whose stream id is the name of a member of \<open>Object.prototype\<close>.\<close>

definition memberAccept :: "wire list" where
  "memberAccept = [WNum 6, WStr ''toString'', WNum 10]"

text \<open>
  A listener that answers once, and one that calls \<open>end\<close>, then \<open>reject\<close>, then \<open>end\<close>
  again; the closure of the callbacks of the invoke with call id 7 on a fresh transport,
  before and after a first call, and one from before a lost connection.
\<close>

definition onceEnv :: env where
  "onceEnv = quietEnv\<lparr> onInvoke := (\<lambda>procedure d t. [End (Some (PNum 5)) False]) \<rparr>"

definition twiceEnv :: env where
  "twiceEnv = quietEnv\<lparr> onInvoke := (\<lambda>procedure d t.
      [End (Some (PNum 5)) False, Reject (ErrorArg 0), End None False]) \<rparr>"

definition freshClosure :: invoke_closure where
  "freshClosure =
     \<lparr> c_callId = 7, c_badConnectionTimestamp = MIN_SAFE_INTEGER, c_called = False \<rparr>"

definition usedClosure :: invoke_closure where
  "usedClosure = freshClosure\<lparr>c_called := True\<rparr>"

definition staleClosure :: invoke_closure where
  "staleClosure = freshClosure\<lparr>c_badConnectionTimestamp := MIN_SAFE_INTEGER - 1\<rparr>"


text \<open>
  A transport with one outstanding binary-content resolver (of a transmit with binary
  data), one pending invoke, one read stream and one write stream; what is left of it
  after \<open>emitBadConnection\<close> with quiet hooks, and with an \<open>onInvalidMessage\<close> that throws.
\<close>

definition busyTransport :: transport where
  "busyTransport =
     freshTransport\<lparr>
       binaryContentResolver :=
         [(NumKey 1, \<lparr> callback = BinaryCb (TransmitCb ''news'' (DT Binary)), timeout = 0 \<rparr>)],
       invokeResponsePromises :=
         [(3, \<lparr> e_promise = 0, e_timeout = Some 1, e_returnDataType = False \<rparr>)],
       activeReadStreams := [(- 1, 5)],
       activeWriteStreams := [(1, 6)],
       timers := [(0, BinaryResolveTimeout (NumKey 1) (BinaryCb (TransmitCb ''news'' (DT Binary)))),
                  (1, InvokeTimeout 3 0)],
       nextTimer := 2, nextPromise := 1 \<rparr>"

definition lostError :: error where
  "lostError = BadConnectionError ''lost'' (Some ''gone'')"

definition lostTransport :: transport where
  "lostTransport =
     freshTransport\<lparr>
       is_open := False, badConnectionStamp := MIN_SAFE_INTEGER + 1,
       nextTimer := 2, nextPromise := 1,
       trace := [ClearBatchTime, ClearTimeout (Some 0),
                 ResolverCallback (BinaryCb (TransmitCb ''news'' (DT Binary))) (Inl lostError),
                 CallOnInvalidMessage lostError,
                 ClearTimeout (Some 1), PromiseReject 0 lostError,
                 StreamCall 5 R_emitBadConnection, StreamCall 6 W_emitBadConnection],
       observed := [(False, MIN_SAFE_INTEGER), (False, MIN_SAFE_INTEGER + 1),
                    (False, MIN_SAFE_INTEGER + 1), (False, MIN_SAFE_INTEGER + 1),
                    (False, MIN_SAFE_INTEGER + 1), (False, MIN_SAFE_INTEGER + 1),
                    (False, MIN_SAFE_INTEGER + 1), (False, MIN_SAFE_INTEGER + 1)] \<rparr>"

definition abortedTransport :: transport where
  "abortedTransport =
     busyTransport\<lparr>
       is_open := False, badConnectionStamp := MIN_SAFE_INTEGER + 1,
       timers := [(1, InvokeTimeout 3 0)],
       trace := [ClearBatchTime, ClearTimeout (Some 0),
                 ResolverCallback (BinaryCb (TransmitCb ''news'' (DT Binary))) (Inl lostError),
                 CallOnInvalidMessage lostError],
       observed := [(False, MIN_SAFE_INTEGER), (False, MIN_SAFE_INTEGER + 1),
                    (False, MIN_SAFE_INTEGER + 1), (False, MIN_SAFE_INTEGER + 1)] \<rparr>"


text \<open>
  Binary content: the doubles 1 and 2 as bytes; a transport that waits for the binary
  content 1 and 2 of two transmits, and one that waits for 1 only; a frame that holds
  two binary content packets, separated by \<open>NEXT_BINARIES_PACKET_TOKEN\<close>; a frame that
  ends with that token, and a frame with the same id that follows it; the states the
  frames lead to.
\<close>

definition idOne :: "8 word list" where
  "idOne = [0x3F, 0xF0, 0, 0, 0, 0, 0, 0]"

definition idTwo :: "8 word list" where
  "idTwo = [0x40, 0, 0, 0, 0, 0, 0, 0]"

definition fileResolver :: BinaryContentResolver where
  "fileResolver = \<lparr> callback = BinaryCb (TransmitCb ''file'' (DT Binary)), timeout = 0 \<rparr>"

definition iconResolver :: BinaryContentResolver where
  "iconResolver = \<lparr> callback = BinaryCb (TransmitCb ''icon'' (DT Binary)), timeout = 1 \<rparr>"

definition waitingTransport :: transport where
  "waitingTransport =
     freshTransport\<lparr>
       binaryContentResolver :=
         [(NumKey 1, \<lparr> callback = BinaryCb (TransmitCb ''file'' (DT Binary)), timeout = 0 \<rparr>),
          (NumKey 2, \<lparr> callback = BinaryCb (TransmitCb ''icon'' (DT Binary)), timeout = 1 \<rparr>)],
       timers := [(0, BinaryResolveTimeout (NumKey 1) (BinaryCb (TransmitCb ''file'' (DT Binary)))),
                  (1, BinaryResolveTimeout (NumKey 2) (BinaryCb (TransmitCb ''icon'' (DT Binary))))],
       nextTimer := 2 \<rparr>"

definition twoPackets :: "8 word list" where
  "twoPackets = [5] @ idOne @ binariesSection [[1, 2, 3]]
                  @ setUint32 NEXT_BINARIES_PACKET_TOKEN @ idTwo @ binariesSection [[9]]"

definition fileDelivered :: transport where
  "fileDelivered =
     waitingTransport\<lparr>
       binaryContentResolver := [(NumKey 2, iconResolver)],
       timers := [(1, BinaryResolveTimeout (NumKey 2) (BinaryCb (TransmitCb ''icon'' (DT Binary))))],
       trace := [ClearTimeout (Some 0),
                 ResolverCallback (BinaryCb (TransmitCb ''file'' (DT Binary))) (Inr [[1, 2, 3]]),
                 CallOnTransmit ''file'' (RBlob [1, 2, 3]) (DT Binary)],
       observed := [(True, MIN_SAFE_INTEGER), (True, MIN_SAFE_INTEGER), (True, MIN_SAFE_INTEGER)] \<rparr>"

definition bothDelivered :: transport where
  "bothDelivered =
     fileDelivered\<lparr>
       binaryContentResolver := [],
       timers := [],
       trace := [ClearTimeout (Some 0),
                 ResolverCallback (BinaryCb (TransmitCb ''file'' (DT Binary))) (Inr [[1, 2, 3]]),
                 CallOnTransmit ''file'' (RBlob [1, 2, 3]) (DT Binary),
                 ClearTimeout (Some 1),
                 ResolverCallback (BinaryCb (TransmitCb ''icon'' (DT Binary))) (Inr [[9]]),
                 CallOnTransmit ''icon'' (RBlob [9]) (DT Binary)],
       observed := [(True, MIN_SAFE_INTEGER), (True, MIN_SAFE_INTEGER), (True, MIN_SAFE_INTEGER),
                    (True, MIN_SAFE_INTEGER), (True, MIN_SAFE_INTEGER), (True, MIN_SAFE_INTEGER)] \<rparr>"

definition oneWaiting :: transport where
  "oneWaiting =
     freshTransport\<lparr>
       binaryContentResolver := [(NumKey 1, fileResolver)],
       timers := [(0, BinaryResolveTimeout (NumKey 1) (BinaryCb (TransmitCb ''file'' (DT Binary))))],
       nextTimer := 1 \<rparr>"

definition firstFrame :: "8 word list" where
  "firstFrame = [5] @ idOne @ binariesSection [[1, 2, 3]] @ setUint32 NEXT_BINARIES_PACKET_TOKEN"

definition nextFrame :: "8 word list" where
  "nextFrame = [5] @ idOne @ binariesSection [[9]]"

definition afterFirstFrame :: transport where
  "afterFirstFrame =
     freshTransport\<lparr>
       nextTimer := 1,
       trace := [ClearTimeout (Some 0),
                 ResolverCallback (BinaryCb (TransmitCb ''file'' (DT Binary))) (Inr [[1, 2, 3]]),
                 CallOnTransmit ''file'' (RBlob [1, 2, 3]) (DT Binary),
                 CallOnInvalidMessage RangeError],
       observed := [(True, MIN_SAFE_INTEGER), (True, MIN_SAFE_INTEGER), (True, MIN_SAFE_INTEGER),
                    (True, MIN_SAFE_INTEGER)] \<rparr>"


text \<open>
  Two prepared invokes on a fresh transport, with complex types processed: one whose data
  holds a blob and the write stream 0, one with plain data.
\<close>

definition streamInvoke :: "(error + InvokePackage) \<times> transport" where
  "streamInvoke = prepareInvoke quietEnv ''add'' (Some demoValue) None True False freshTransport"

definition plainInvoke :: "(error + InvokePackage) \<times> transport" where
  "plainInvoke = prepareInvoke quietEnv ''add'' (Some (PNum 5)) None True False freshTransport"


text \<open>
  An invoke with call id 0 and promise 0 that waits for its response; the head of a
  response that refers to the binary content 7; the transport after the head has
  arrived, and after the connection was lost then.
\<close>

definition answeredEntry :: invoke_entry where
  "answeredEntry = \<lparr> e_promise = 0, e_timeout = Some 0, e_returnDataType = False \<rparr>"

definition awaitingTransport :: transport where
  "awaitingTransport =
     freshTransport\<lparr>
       invokeResponsePromises := [(0, answeredEntry)],
       timers := [(0, InvokeTimeout 0 0)], nextTimer := 1, nextPromise := 1 \<rparr>"

definition binaryHead :: "wire list" where
  "binaryHead = [WNum 3, WNum 0, WNum 1, WNum 7]"

definition headArrived :: transport where
  "headArrived =
     freshTransport\<lparr>
       binaryContentResolver :=
         [(NumKey 7, \<lparr> callback = BinaryCb (InvokeRespCb answeredEntry (DT Binary)),
                       timeout = 1 \<rparr>)],
       timers := [(1, BinaryResolveTimeout (NumKey 7)
                        (BinaryCb (InvokeRespCb answeredEntry (DT Binary))))],
       nextTimer := 2, nextPromise := 1,
       trace := [ClearTimeout (Some 0), SetTimeout 1 10000],
       observed := [(True, MIN_SAFE_INTEGER), (True, MIN_SAFE_INTEGER)] \<rparr>"

definition lostAfterHead :: transport where
  "lostAfterHead =
     freshTransport\<lparr>
       is_open := False, badConnectionStamp := MIN_SAFE_INTEGER + 1,
       nextTimer := 2, nextPromise := 1,
       trace := [ClearTimeout (Some 0), SetTimeout 1 10000, ClearBatchTime,
                 ClearTimeout (Some 1),
                 ResolverCallback (BinaryCb (InvokeRespCb answeredEntry (DT Binary)))
                   (Inl lostError),
                 CallOnInvalidMessage lostError],
       observed := [(True, MIN_SAFE_INTEGER), (True, MIN_SAFE_INTEGER),
                    (False, MIN_SAFE_INTEGER), (False, MIN_SAFE_INTEGER + 1),
                    (False, MIN_SAFE_INTEGER + 1), (False, MIN_SAFE_INTEGER + 1)] \<rparr>"

section \<open>Properties of the identifier counters\<close>


lemma MAX_pos: "0 < MAX_SAFE_INTEGER"
  by (simp add: MAX_SAFE_INTEGER_def)

lemma MIN_MAX: "MIN_SAFE_INTEGER = - MAX_SAFE_INTEGER"
  by (simp add: MAX_SAFE_INTEGER_def MIN_SAFE_INTEGER_def)

lemma getNewStreamId_object:
  assumes "1 \<le> objectStreamId st" "objectStreamId st \<le> MAX_SAFE_INTEGER + 1"
  shows "getNewStreamId False st =
           (1 + (objectStreamId st - 1) mod MAX_SAFE_INTEGER,
            st\<lparr>objectStreamId := 2 + (objectStreamId st - 1) mod MAX_SAFE_INTEGER\<rparr>)"
proof (cases "objectStreamId st > MAX_SAFE_INTEGER")
  case True
  with assms have "objectStreamId st - 1 = MAX_SAFE_INTEGER" by simp
  with True show ?thesis by (simp add: getNewStreamId_def)
next
  case False
  with assms have "(objectStreamId st - 1) mod MAX_SAFE_INTEGER = objectStreamId st - 1"
    by simp
  with False show ?thesis by (simp add: getNewStreamId_def)
qed

lemma getNewStreamId_binary:
  assumes "MIN_SAFE_INTEGER - 1 \<le> binaryStreamId st" "binaryStreamId st \<le> - 1"
  shows "getNewStreamId True st =
           (- 1 - (- 1 - binaryStreamId st) mod MAX_SAFE_INTEGER,
            st\<lparr>binaryStreamId := - 2 - (- 1 - binaryStreamId st) mod MAX_SAFE_INTEGER\<rparr>)"
proof (cases "binaryStreamId st < MIN_SAFE_INTEGER")
  case True
  with assms have "- 1 - binaryStreamId st = MAX_SAFE_INTEGER" by (simp add: MIN_MAX)
  with True show ?thesis by (simp add: getNewStreamId_def)
next
  case False
  with assms have "(- 1 - binaryStreamId st) mod MAX_SAFE_INTEGER = - 1 - binaryStreamId st"
    by (simp add: MIN_MAX)
  with False show ?thesis by (simp add: getNewStreamId_def)
qed

lemma mod_range: "0 \<le> (x::int) mod MAX_SAFE_INTEGER \<and> x mod MAX_SAFE_INTEGER \<le> MAX_SAFE_INTEGER - 1"
  using MAX_pos pos_mod_bound [of MAX_SAFE_INTEGER x] pos_mod_sign [of MAX_SAFE_INTEGER x] by linarith

lemma allocate_ids:
  assumes "allocate bs st = (ids, st')" "stream_counters_ok st"
  shows "map snd (filter (\<lambda>p. \<not> fst p) ids) =
           map (\<lambda>k. 1 + (objectStreamId st - 1 + int k) mod MAX_SAFE_INTEGER)
               [0..<length (filter (\<lambda>p. \<not> fst p) ids)]
       \<and> map snd (filter fst ids) =
           map (\<lambda>k. - 1 - (- 1 - binaryStreamId st + int k) mod MAX_SAFE_INTEGER)
               [0..<length (filter fst ids)]"
  using assms
proof (induction bs arbitrary: st ids st')
  case Nil
  then show ?case by simp
next
  case (Cons b bs)
  obtain i st1 where g: "getNewStreamId b st = (i, st1)" by (cases "getNewStreamId b st")
  obtain ids1 st2 where a: "allocate bs st1 = (ids1, st2)" by (cases "allocate bs st1")
  from Cons.prems g a have ids: "ids = (b, i) # ids1" by simp
  have ok: "1 \<le> objectStreamId st" "objectStreamId st \<le> MAX_SAFE_INTEGER + 1"
    "MIN_SAFE_INTEGER - 1 \<le> binaryStreamId st" "binaryStreamId st \<le> - 1"
    using Cons.prems(2) by (simp_all add: stream_counters_ok_def)
  show ?case
  proof (cases b)
    case False
    from g False getNewStreamId_object [OF ok(1,2)]
    have i: "i = 1 + (objectStreamId st - 1) mod MAX_SAFE_INTEGER"
      and st1: "st1 = st\<lparr>objectStreamId := 2 + (objectStreamId st - 1) mod MAX_SAFE_INTEGER\<rparr>"
      by simp_all
    have ok1: "stream_counters_ok st1"
      using ok mod_range [of "objectStreamId st - 1"]
      by (simp add: st1 stream_counters_ok_def)
    have shift: "(objectStreamId st1 - 1 + int k) mod MAX_SAFE_INTEGER =
                 (objectStreamId st - 1 + int (Suc k)) mod MAX_SAFE_INTEGER" for k
    proof -
      have "(objectStreamId st1 - 1 + int k) mod MAX_SAFE_INTEGER =
            ((objectStreamId st - 1) mod MAX_SAFE_INTEGER + (1 + int k)) mod MAX_SAFE_INTEGER"
        by (simp add: st1 algebra_simps)
      also have "\<dots> = (objectStreamId st - 1 + (1 + int k)) mod MAX_SAFE_INTEGER"
        by (rule mod_add_left_eq)
      finally show ?thesis by (simp add: algebra_simps)
    qed
    from Cons.IH [OF a ok1]
    have IH1: "map snd (filter (\<lambda>p. \<not> fst p) ids1) =
           map (\<lambda>k. 1 + (objectStreamId st - 1 + int (Suc k)) mod MAX_SAFE_INTEGER)
               [0..<length (filter (\<lambda>p. \<not> fst p) ids1)]"
      by (simp only: shift)
    from Cons.IH [OF a ok1]
    have IH2: "map snd (filter fst ids1) =
           map (\<lambda>k. - 1 - (- 1 - binaryStreamId st + int k) mod MAX_SAFE_INTEGER)
               [0..<length (filter fst ids1)]"
      by (simp add: st1)
    have hd: "i = 1 + (objectStreamId st - 1 + int 0) mod MAX_SAFE_INTEGER"
      by (simp add: i)
    show ?thesis
      unfolding ids using False IH2
      by (simp add: map_upt_Suc del: upt_Suc) (use IH1 hd in simp)
  next
    case True
    from g True getNewStreamId_binary [OF ok(3,4)]
    have i: "i = - 1 - (- 1 - binaryStreamId st) mod MAX_SAFE_INTEGER"
      and st1: "st1 = st\<lparr>binaryStreamId := - 2 - (- 1 - binaryStreamId st) mod MAX_SAFE_INTEGER\<rparr>"
      by simp_all
    have ok1: "stream_counters_ok st1"
      using ok mod_range [of "- 1 - binaryStreamId st"]
      by (simp add: st1 stream_counters_ok_def MIN_MAX)
    have shift: "(- 1 - binaryStreamId st1 + int k) mod MAX_SAFE_INTEGER =
                 (- 1 - binaryStreamId st + int (Suc k)) mod MAX_SAFE_INTEGER" for k
    proof -
      have "(- 1 - binaryStreamId st1 + int k) mod MAX_SAFE_INTEGER =
            ((- 1 - binaryStreamId st) mod MAX_SAFE_INTEGER + (1 + int k)) mod MAX_SAFE_INTEGER"
        by (simp add: st1 algebra_simps)
      also have "\<dots> = (- 1 - binaryStreamId st + (1 + int k)) mod MAX_SAFE_INTEGER"
        by (rule mod_add_left_eq)
      finally show ?thesis by (simp add: algebra_simps)
    qed
    from Cons.IH [OF a ok1]
    have IH1: "map snd (filter fst ids1) =
           map (\<lambda>k. - 1 - (- 1 - binaryStreamId st + int (Suc k)) mod MAX_SAFE_INTEGER)
               [0..<length (filter fst ids1)]"
      by (simp only: shift)
    from Cons.IH [OF a ok1]
    have IH2: "map snd (filter (\<lambda>p. \<not> fst p) ids1) =
           map (\<lambda>k. 1 + (objectStreamId st - 1 + int k) mod MAX_SAFE_INTEGER)
               [0..<length (filter (\<lambda>p. \<not> fst p) ids1)]"
      by (simp add: st1)
    have hd: "i = - 1 - (- 1 - binaryStreamId st + int 0) mod MAX_SAFE_INTEGER"
      by (simp add: i)
    show ?thesis
      unfolding ids using True IH2
      by (simp add: map_upt_Suc del: upt_Suc) (use IH1 hd in simp)
  qed
qed


text \<open>
  C9. Starting from a fresh transport, any sequence of stream id allocations hands out
  object stream ids \<open>1, 2, 3, \<dots>\<close> (back to \<open>1\<close> after \<open>MAX_SAFE_INTEGER\<close>) and binary
  stream ids \<open>-1, -2, -3, \<dots>\<close> (back to \<open>-1\<close> after \<open>MIN_SAFE_INTEGER\<close>). Hence every
  object stream id is positive, every binary stream id is negative, and an object
  stream id never equals a binary stream id.
\<close>

theorem stream_ids_signed:
  assumes "allocate bs (new_transport opts connected) = (ids, st')"
  shows "map snd (filter (\<lambda>p. \<not> fst p) ids) =
           map (\<lambda>k. 1 + int k mod MAX_SAFE_INTEGER)
               [0..<length (filter (\<lambda>p. \<not> fst p) ids)]
       \<and> map snd (filter fst ids) =
           map (\<lambda>k. - 1 - int k mod MAX_SAFE_INTEGER) [0..<length (filter fst ids)]
       \<and> (\<forall>i. (False, i) \<in> set ids \<longrightarrow> 1 \<le> i \<and> i \<le> MAX_SAFE_INTEGER)
       \<and> (\<forall>i. (True, i) \<in> set ids \<longrightarrow> MIN_SAFE_INTEGER \<le> i \<and> i \<le> - 1)
       \<and> (\<forall>i j. (False, i) \<in> set ids \<and> (True, j) \<in> set ids \<longrightarrow> i \<noteq> j)"
proof -
  have ok: "stream_counters_ok (new_transport opts connected)"
    using MAX_pos by (simp add: stream_counters_ok_def new_transport_def MIN_MAX)
  from allocate_ids [OF assms ok]
  have obj: "map snd (filter (\<lambda>p. \<not> fst p) ids) =
           map (\<lambda>k. 1 + int k mod MAX_SAFE_INTEGER)
               [0..<length (filter (\<lambda>p. \<not> fst p) ids)]"
    and bin: "map snd (filter fst ids) =
           map (\<lambda>k. - 1 - int k mod MAX_SAFE_INTEGER) [0..<length (filter fst ids)]"
    by (simp_all add: new_transport_def)
  have pos: "1 \<le> i \<and> i \<le> MAX_SAFE_INTEGER" if "(False, i) \<in> set ids" for i
  proof -
    from that have "i \<in> set (map snd (filter (\<lambda>p. \<not> fst p) ids))" by force
    then obtain k where "i = 1 + int k mod MAX_SAFE_INTEGER"
      unfolding obj by auto
    with mod_range [of "int k"] show ?thesis by simp
  qed
  have neg: "MIN_SAFE_INTEGER \<le> i \<and> i \<le> - 1" if "(True, i) \<in> set ids" for i
  proof -
    from that have "i \<in> set (map snd (filter fst ids))" by force
    then obtain k where "i = - 1 - int k mod MAX_SAFE_INTEGER"
      unfolding bin by auto
    with mod_range [of "int k"] show ?thesis by (simp add: MIN_MAX)
  qed
  have "i \<noteq> j" if "(False, i) \<in> set ids" "(True, j) \<in> set ids" for i j
    using pos [OF that(1)] neg [OF that(2)] by simp
  with obj bin pos neg show ?thesis by blast
qed

theorem stream_ids_signed_witness:
  "allocate [False, True, False, True] (new_transport DEFAULT_OPTIONS True) =
     ([(False, 1), (True, - 1), (False, 2), (True, - 2)],
      (new_transport DEFAULT_OPTIONS True)\<lparr>objectStreamId := 3, binaryStreamId := - 3\<rparr>)
   \<and> map snd (filter (\<lambda>p. \<not> fst p) [(False, 1), (True, - 1), (False, 2), (True, - 2)]) =
       map (\<lambda>k. 1 + int k mod MAX_SAFE_INTEGER)
         [0..<length (filter (\<lambda>p. \<not> fst p)
                        [(False, 1 :: int), (True, - 1), (False, 2), (True, - 2)])]
   \<and> map snd (filter fst [(False, 1), (True, - 1), (False, 2), (True, - 2)]) =
       map (\<lambda>k. - 1 - int k mod MAX_SAFE_INTEGER)
         [0..<length (filter fst [(False, 1 :: int), (True, - 1), (False, 2), (True, - 2)])]"
proof -
  have a: "allocate [False, True, False, True] (new_transport DEFAULT_OPTIONS True) =
     ([(False, 1), (True, - 1), (False, 2), (True, - 2)],
      (new_transport DEFAULT_OPTIONS True)\<lparr>objectStreamId := 3, binaryStreamId := - 3\<rparr>)"
    by (simp add: getNewStreamId_def new_transport_def MAX_SAFE_INTEGER_def
        MIN_SAFE_INTEGER_def)
  from stream_ids_signed [OF a] a show ?thesis by blast
qed

section \<open>Properties of the value codec\<close>

subsection \<open>The stream limit of the resolving walk\<close>





subsection \<open>Encoding and resolving\<close>

lemma process_frame:
  "processMixedJSONDeep esc v bins strs st = (w, bins', strs', st')
     \<Longrightarrow> options st' = options st \<and> (\<exists>t. trace st' = trace st @ t) \<and> (\<exists>bs. bins' = bins @ bs)"
  "processElements esc vs bins strs st = (ws, bins', strs', st')
     \<Longrightarrow> options st' = options st \<and> (\<exists>t. trace st' = trace st @ t) \<and> (\<exists>bs. bins' = bins @ bs)"
  "processFields esc kvs clone bins strs st = (clone', bins', strs', st')
     \<Longrightarrow> options st' = options st \<and> (\<exists>t. trace st' = trace st @ t) \<and> (\<exists>bs. bins' = bins @ bs)"
proof (induction esc v bins strs st and esc vs bins strs st and esc kvs clone bins strs st
    arbitrary: w bins' strs' st' and ws bins' strs' st' and clone' bins' strs' st'
    rule: processMixedJSONDeep_processElements_processFields.induct)
  case (2 esc w binaries streams st)
  then show ?case
    by (auto simp: getNewStreamId_def emit_def Let_def split: if_splits)
next
  case (3 esc xs binaries streams st)
  then show ?case by (auto split: prod.splits)
next
  case (4 esc kvs binaries streams st)
  then show ?case by (auto split: prod.splits)
next
  case (11 esc x xs binaries streams st)
  obtain y b1 s1 st1 where p: "processMixedJSONDeep esc x binaries streams st = (y, b1, s1, st1)"
    by (cases "processMixedJSONDeep esc x binaries streams st") auto
  obtain ys b2 s2 st2 where q: "processElements esc xs b1 s1 st1 = (ys, b2, s2, st2)"
    by (cases "processElements esc xs b1 s1 st1") auto
  from "11.IH"(1) [OF p] "11.IH"(2) [OF p [symmetric] refl refl refl q] "11.prems" p q
  show ?case by auto
next
  case (13 esc key x kvs clone binaries streams st)
  obtain y b1 s1 st1 where p: "processMixedJSONDeep esc x binaries streams st = (y, b1, s1, st1)"
    by (cases "processMixedJSONDeep esc x binaries streams st") auto
  from "13.prems" p have q: "processFields esc kvs (assignOwn (esc key) y clone) b1 s1 st1
       = (clone', bins', strs', st')" by simp
  from "13.IH"(1) [OF p] "13.IH"(2) [OF p [symmetric] refl refl refl q]
  show ?case by auto
qed auto

lemma update_fresh: "k \<notin> fst ` set al \<Longrightarrow> AList.update k v al = al @ [(k, v)]"
  by (induction al) auto

lemma decodable_append [simp]:
  "decodable ropts (a @ b) \<longleftrightarrow> decodable ropts a \<and> decodable ropts b"
  by (auto simp: decodable_def list_ex_iff)

lemma countStreams_append [simp]: "countStreams (a @ b) = countStreams a + countStreams b"
  by (simp add: countStreams_def)

lemma countStreams_nonneg: "0 \<le> countStreams a"
  by (simp add: countStreams_def)

lemma numberField_fresh:
  "k \<notin> fst ` set kvs \<Longrightarrow> numberField kvs k = None"
  using map_of_eq_None_iff [of kvs k] by (simp add: numberField_def)

lemma fresh_split:
  assumes "fresh S st st2" "trace st1 = trace st @ t1" "trace st2 = trace st1 @ t2"
  shows "fresh S st st1" "fresh S st1 st2"
  using assms by (auto simp: fresh_def)


lemma roundtrip_walk:
  fixes esc unesc :: "string \<Rightarrow> string"
  shows
  "processMixedJSONDeep esc v bins strs st = (w, bins', strs', st')
     \<Longrightarrow> streamsEnabled (options st) \<Longrightarrow> distinctKeys v \<Longrightarrow> decodable ropts (leaves v)
     \<Longrightarrow> m_binaries m = Some B \<Longrightarrow> \<exists>rest. B = bins' @ rest
     \<Longrightarrow> streamCount m + countStreams (leaves v) \<le> streamsPerPackageLimit topts
     \<Longrightarrow> fresh S st st' \<Longrightarrow> escapeOk esc unesc \<Longrightarrow> protoFree esc v
     \<Longrightarrow> \<exists>r m'. internalResolveMixedJSONDeep unesc topts ropts w m = (Inr r, m')
            \<and> m_binaries m' = Some B
            \<and> streamCount m' = streamCount m + countStreams (leaves v)
            \<and> sameValue S v r"
  "processElements esc vs bins strs st = (ws, bins', strs', st')
     \<Longrightarrow> streamsEnabled (options st) \<Longrightarrow> distinctKeysElements vs
     \<Longrightarrow> decodable ropts (leavesElements vs)
     \<Longrightarrow> m_binaries m = Some B \<Longrightarrow> \<exists>rest. B = bins' @ rest
     \<Longrightarrow> streamCount m + countStreams (leavesElements vs) \<le> streamsPerPackageLimit topts
     \<Longrightarrow> fresh S st st' \<Longrightarrow> escapeOk esc unesc \<Longrightarrow> protoFreeElements esc vs
     \<Longrightarrow> \<exists>rs m'. resolveElements unesc topts ropts ws m = (Inr rs, m')
            \<and> m_binaries m' = Some B
            \<and> streamCount m' = streamCount m + countStreams (leavesElements vs)
            \<and> sameElements S vs rs"
  "processFields esc kvs clone bins strs st = (clone', bins', strs', st')
     \<Longrightarrow> streamsEnabled (options st) \<Longrightarrow> distinct (map fst kvs) \<Longrightarrow> distinctKeysFields kvs
     \<Longrightarrow> decodable ropts (leavesFields kvs)
     \<Longrightarrow> esc ` fst ` set kvs \<inter> fst ` set clone = {}
     \<Longrightarrow> m_binaries m = Some B \<Longrightarrow> \<exists>rest. B = bins' @ rest
     \<Longrightarrow> streamCount m + countStreams (leavesFields kvs) \<le> streamsPerPackageLimit topts
     \<Longrightarrow> fresh S st st' \<Longrightarrow> escapeOk esc unesc \<Longrightarrow> protoFreeFields esc kvs
     \<Longrightarrow> \<exists>enc. clone' = clone @ enc \<and> map fst enc = map (esc \<circ> fst) kvs
            \<and> (\<forall>rclone. fst ` set kvs \<inter> fst ` set rclone = {} \<longrightarrow>
                  (\<exists>rs m'. resolveFields unesc topts ropts enc (None, rclone) m = (Inr (None, rclone @ rs), m')
                     \<and> m_binaries m' = Some B
                     \<and> streamCount m' = streamCount m + countStreams (leavesFields kvs)
                     \<and> sameFields S kvs rs))"
proof (induction esc v bins strs st and esc vs bins strs st and esc kvs clone bins strs st
    arbitrary: w bins' strs' st' m and ws bins' strs' st' m and clone' bins' strs' st' m
    rule: processMixedJSONDeep_processElements_processFields.induct)
  case (1 esc b binaries streams st)
  then show ?case
    by (auto simp: decodable_def isBlob_def numberField_def binaryAt_def countStreams_def
        isStream_def nth_append)
next
  case (2 esc s binaries streams st)
  from "2.prems" have ps: "parseStreams ropts"
    by (simp add: decodable_def isStream_def)
  from "2.prems" have w: "w = WObj [(''_s'', WNum (fst (getNewStreamId (binary s) st)))]"
    and tr: "trace st' = trace st @ [initCall s (fst (getNewStreamId (binary s) st))]"
    by (auto simp: Let_def emit_def initCall_def getNewStreamId_def split: prod.splits if_splits)
  from "2.prems" tr have S: "S s (fst (getNewStreamId (binary s) st))"
    by (simp add: fresh_def)
  from "2.prems" have lim: "streamCount m < streamsPerPackageLimit topts"
    by (simp add: countStreams_def isStream_def)
  from w ps S lim "2.prems"(5) show ?case
    by (simp add: numberField_def countStreams_def isStream_def)
next
  case (3 esc xs binaries streams st)
  obtain ys b1 s1 st1 where p: "processElements esc xs binaries streams st = (ys, b1, s1, st1)"
    by (cases "processElements esc xs binaries streams st") auto
  with "3.prems" have eq: "w = WArr ys" "bins' = b1" "st' = st1" by simp_all
  from "3.prems"(3) have dk: "distinctKeysElements xs" by simp
  from "3.prems"(4) have dc: "decodable ropts (leavesElements xs)" by simp
  from "3.prems"(6) eq have B1: "\<exists>rest. B = b1 @ rest" by simp
  from "3.prems"(7) have lim: "streamCount m + countStreams (leavesElements xs)
      \<le> streamsPerPackageLimit topts" by simp
  from "3.prems"(8) eq have fr: "fresh S st st1" by simp
  from "3.prems"(10) have pf: "protoFreeElements esc xs" by simp
  from "3.IH" [OF p "3.prems"(2) dk dc "3.prems"(5) B1 lim fr "3.prems"(9) pf]
  obtain rs m' where "resolveElements unesc topts ropts ys m = (Inr rs, m')"
    "m_binaries m' = Some B"
    "streamCount m' = streamCount m + countStreams (leavesElements xs)"
    "sameElements S xs rs"
    by blast
  with eq show ?case by simp
next
  case (4 esc kvs binaries streams st)
  obtain cl b1 s1 st1 where p: "processFields esc kvs [] binaries streams st = (cl, b1, s1, st1)"
    by (cases "processFields esc kvs [] binaries streams st") auto
  with "4.prems" have eq: "w = WObj cl" "bins' = b1" "st' = st1" by simp_all
  from "4.prems"(3) have dk: "distinct (map fst kvs)" "distinctKeysFields kvs" by simp_all
  from "4.prems"(4) have dc: "decodable ropts (leavesFields kvs)" by simp
  from "4.prems"(6) eq have B1: "\<exists>rest. B = b1 @ rest" by simp
  from "4.prems"(7) have lim: "streamCount m + countStreams (leavesFields kvs)
      \<le> streamsPerPackageLimit topts" by simp
  from "4.prems"(8) eq have fr: "fresh S st st1" by simp
  have e: "esc ` fst ` set kvs \<inter> fst ` set ([] :: (string \<times> wire) list) = {}" by simp
  from "4.prems"(10) have pf: "protoFreeFields esc kvs" by simp
  from "4.IH" [OF p "4.prems"(2) dk dc e "4.prems"(5) B1 lim fr "4.prems"(9) pf]
  obtain enc where enc: "cl = enc" "map fst enc = map (esc \<circ> fst) kvs"
    and dec: "\<And>rclone. fst ` set kvs \<inter> fst ` set rclone = {} \<Longrightarrow>
        \<exists>rs m'. resolveFields unesc topts ropts enc (None, rclone) m = (Inr (None, rclone @ rs), m')
           \<and> m_binaries m' = Some B
           \<and> streamCount m' = streamCount m + countStreams (leavesFields kvs)
           \<and> sameFields S kvs rs"
    by auto
  from dec [of "[]"] obtain rs m' where
    r: "resolveFields unesc topts ropts enc (None, []) m = (Inr (None, rs), m')"
    "m_binaries m' = Some B"
    "streamCount m' = streamCount m + countStreams (leavesFields kvs)"
    "sameFields S kvs rs"
    by auto
  from "4.prems"(9) have nb: "\<And>k. esc k \<noteq> ''_b''" and ns: "\<And>k. esc k \<noteq> ''_s''"
    by (simp_all add: escapeOk_def)
  have keys: "fst ` set enc = esc ` fst ` set kvs"
    using enc(2) by (metis image_image list.set_map map_map)
  have nob: "''_b'' \<notin> fst ` set enc"
  proof
    assume "''_b'' \<in> fst ` set enc"
    then obtain k where "''_b'' = esc k" unfolding keys by blast
    with nb [of k] show False by simp
  qed
  have nos: "''_s'' \<notin> fst ` set enc"
  proof
    assume "''_s'' \<in> fst ` set enc"
    then obtain k where "''_s'' = esc k" unfolding keys by blast
    with ns [of k] show False by simp
  qed
  from nob nos have "numberField enc ''_b'' = None" "numberField enc ''_s'' = None"
    by (simp_all add: numberField_fresh)
  with r eq enc show ?case by (simp add: finishObject_def)
next
  case (5 esc d binaries streams st)
  then show ?case by (simp add: decodable_def isDate_def)
next
  case (11 esc x xs binaries streams st)
  obtain y b1 s1 st1 where p: "processMixedJSONDeep esc x binaries streams st = (y, b1, s1, st1)"
    by (cases "processMixedJSONDeep esc x binaries streams st") auto
  obtain ys b2 s2 st2 where q: "processElements esc xs b1 s1 st1 = (ys, b2, s2, st2)"
    by (cases "processElements esc xs b1 s1 st1") auto
  from "11.prems" p q have eq: "ws = y # ys" "bins' = b2" "st' = st2" by simp_all
  from process_frame(1) [OF p] obtain t1 where
    f1: "options st1 = options st" "trace st1 = trace st @ t1" by auto
  from process_frame(2) [OF q] obtain t2 bs2 where
    f2: "trace st2 = trace st1 @ t2" "b2 = b1 @ bs2" by auto
  from "11.prems"(8) eq have fr: "fresh S st st1" "fresh S st1 st2"
    using fresh_split [OF _ f1(2) f2(1)] by simp_all
  from "11.prems" eq f2 have B1: "\<exists>rest. B = b1 @ rest" by auto
  from "11.prems"(3) have dk: "distinctKeys x" "distinctKeysElements xs" by simp_all
  from "11.prems"(4) have dc: "decodable ropts (leaves x)" "decodable ropts (leavesElements xs)"
    by simp_all
  from "11.prems"(7) have "streamCount m + (countStreams (leaves x)
      + countStreams (leavesElements xs)) \<le> streamsPerPackageLimit topts" by simp
  then have lim1: "streamCount m + countStreams (leaves x) \<le> streamsPerPackageLimit topts"
    using countStreams_nonneg [of "leavesElements xs"] by linarith
  from "11.prems"(10) have pf: "protoFree esc x" "protoFreeElements esc xs" by simp_all
  from "11.IH"(1) [OF p "11.prems"(2) dk(1) dc(1) "11.prems"(5) B1 lim1 fr(1) "11.prems"(9) pf(1)]
  obtain r m1 where r: "internalResolveMixedJSONDeep unesc topts ropts y m = (Inr r, m1)"
    "m_binaries m1 = Some B" "streamCount m1 = streamCount m + countStreams (leaves x)"
    "sameValue S x r"
    by blast
  have lim2: "streamCount m1 + countStreams (leavesElements xs) \<le> streamsPerPackageLimit topts"
    using "11.prems"(7) r(3) by simp
  have se1: "streamsEnabled (options st1)" using "11.prems"(2) f1(1) by simp
  have B2: "\<exists>rest. B = b2 @ rest" using "11.prems"(6) eq by simp
  from "11.IH"(2) [OF p [symmetric] refl refl refl q se1 dk(2) dc(2) r(2) B2 lim2 fr(2) "11.prems"(9)
      pf(2)]
  obtain rs m2 where rs: "resolveElements unesc topts ropts ys m1 = (Inr rs, m2)"
    "m_binaries m2 = Some B"
    "streamCount m2 = streamCount m1 + countStreams (leavesElements xs)"
    "sameElements S xs rs"
    by blast
  from r rs eq show ?case by simp
next
  case (13 esc key x kvs clone binaries streams st)
  obtain y b1 s1 st1 where p: "processMixedJSONDeep esc x binaries streams st = (y, b1, s1, st1)"
    by (cases "processMixedJSONDeep esc x binaries streams st") auto
  from "13.prems"(12) have pf: "key \<noteq> ''__proto__''" "esc key \<noteq> ''__proto__''"
    "protoFree esc x" "protoFreeFields esc kvs"
    by simp_all
  from "13.prems"(6) have kf: "esc key \<notin> fst ` set clone" by auto
  then have upd: "assignOwn (esc key) y clone = clone @ [(esc key, y)]"
    using pf(2) by (simp add: assignOwn_def update_fresh)
  from "13.prems"(1) p upd
  have q: "processFields esc kvs (clone @ [(esc key, y)]) b1 s1 st1 = (clone', bins', strs', st')"
    by simp
  from process_frame(1) [OF p] obtain t1 where
    f1: "options st1 = options st" "trace st1 = trace st @ t1" by auto
  from process_frame(3) [OF q] obtain t2 bs2 where
    f2: "trace st' = trace st1 @ t2" "bins' = b1 @ bs2" by auto
  from "13.prems"(10) have fr: "fresh S st st1" "fresh S st1 st'"
    using fresh_split [OF _ f1(2) f2(1)] by simp_all
  from "13.prems" f2 have B1: "\<exists>rest. B = b1 @ rest" by auto
  from "13.prems"(11) have inv: "\<And>k. unesc (esc k) = k"
    by (simp add: escapeOk_def)
  have inj: "esc a = esc b \<Longrightarrow> a = b" for a b
    using inv by metis
  from "13.prems"(3) have knew: "key \<notin> fst ` set kvs" and dk: "distinct (map fst kvs)" by auto
  have disj: "esc ` fst ` set kvs \<inter> fst ` set (clone @ [(esc key, y)]) = {}"
    using "13.prems"(6) knew inj by auto
  from "13.prems"(4) have dkv: "distinctKeys x" "distinctKeysFields kvs" by simp_all
  from "13.prems"(5) have dc: "decodable ropts (leaves x)" "decodable ropts (leavesFields kvs)"
    by simp_all
  from "13.prems"(9) have "streamCount m + (countStreams (leaves x)
      + countStreams (leavesFields kvs)) \<le> streamsPerPackageLimit topts" by simp
  then have lim1: "streamCount m + countStreams (leaves x) \<le> streamsPerPackageLimit topts"
    using countStreams_nonneg [of "leavesFields kvs"] by linarith
  from "13.IH"(1) [OF p "13.prems"(2) dkv(1) dc(1) "13.prems"(7) B1 lim1 fr(1) "13.prems"(11) pf(3)]
  obtain r m1 where r: "internalResolveMixedJSONDeep unesc topts ropts y m = (Inr r, m1)"
    "m_binaries m1 = Some B" "streamCount m1 = streamCount m + countStreams (leaves x)"
    "sameValue S x r"
    by blast
  have pre2: "streamCount m1 + countStreams (leavesFields kvs) \<le> streamsPerPackageLimit topts"
    using "13.prems"(9) r(3) by simp
  have se1: "streamsEnabled (options st1)" using "13.prems"(2) f1(1) by simp
  note ih2 = "13.IH"(2) [OF p [symmetric] refl refl refl, unfolded upd]
  from ih2 [OF q se1 dk dkv(2) dc(2) disj r(2) "13.prems"(8) pre2 fr(2) "13.prems"(11) pf(4)]
  obtain enc1 where enc1: "clone' = (clone @ [(esc key, y)]) @ enc1"
    "map fst enc1 = map (esc \<circ> fst) kvs"
    and dec1: "\<And>rclone. fst ` set kvs \<inter> fst ` set rclone = {} \<Longrightarrow>
        \<exists>rs m'. resolveFields unesc topts ropts enc1 (None, rclone) m1 = (Inr (None, rclone @ rs), m')
           \<and> m_binaries m' = Some B
           \<and> streamCount m' = streamCount m1 + countStreams (leavesFields kvs)
           \<and> sameFields S kvs rs"
    by blast
  have "\<exists>rs m'. resolveFields unesc topts ropts ((esc key, y) # enc1) (None, rclone) m
            = (Inr (None, rclone @ rs), m')
          \<and> m_binaries m' = Some B
          \<and> streamCount m' = streamCount m + countStreams (leavesFields ((key, x) # kvs))
          \<and> sameFields S ((key, x) # kvs) rs"
    if d: "fst ` set ((key, x) # kvs) \<inter> fst ` set rclone = {}" for rclone
  proof -
    from d have "key \<notin> fst ` set rclone" by auto
    then have u: "assignResolved key y r (None, rclone) = (None, rclone @ [(key, r)])"
      using pf(1) by (simp add: assignResolved_def update_fresh)
    from d knew have "fst ` set kvs \<inter> fst ` set (rclone @ [(key, r)]) = {}" by auto
    from dec1 [OF this] obtain rs m' where
      rs: "resolveFields unesc topts ropts enc1 (None, rclone @ [(key, r)]) m1
             = (Inr (None, (rclone @ [(key, r)]) @ rs), m')"
      "m_binaries m' = Some B"
      "streamCount m' = streamCount m1 + countStreams (leavesFields kvs)"
      "sameFields S kvs rs"
      by auto
    from r rs u inv show ?thesis
      by (intro exI [of _ "(key, r) # rs"] exI [of _ m']) simp
  qed
  with enc1 show ?case
    by (intro exI [of _ "(esc key, y) # enc1"]) simp
qed (auto simp: countStreams_def isStream_def)


lemma escapeOk_model: "escapeOk escapePlaceholderSequence unescapePlaceholderSequence"
proof -
  have "unescapePlaceholderSequence (escapePlaceholderSequence k) = k" for k
  proof (cases k)
    case (Cons c cs)
    then show ?thesis by (cases cs) auto
  qed simp
  moreover have "escapePlaceholderSequence k \<noteq> ''_b'' \<and> escapePlaceholderSequence k \<noteq> ''_s''"
    for k
    by (cases k) auto
  ultimately show ?thesis by (simp add: escapeOk_def)
qed

lemma demo_encoded:
  "processMixedJSONDeep escapePlaceholderSequence demoValue [] []
       (new_transport DEFAULT_OPTIONS True) =
     (WObj [(''__b'', WNum 7), (''file'', WObj [(''_b'', WNum 0)]),
            (''__s'', WArr [WObj [(''_s'', WNum 1)]])],
      [[1, 2, 3]], [demoStream 0],
      (new_transport DEFAULT_OPTIONS True)
        \<lparr>objectStreamId := 2, trace := [StreamCall 0 (W_init 1)],
         observed := [(True, MIN_SAFE_INTEGER)]\<rparr>)"
  by (simp add: demoValue_def demoStream_def new_transport_def DEFAULT_OPTIONS_def
      getNewStreamId_def emit_def MAX_SAFE_INTEGER_def MIN_SAFE_INTEGER_def assignOwn_def)

lemma demo_resolved:
  "resolveMixedJSONDeep unescapePlaceholderSequence DEFAULT_OPTIONS
       (WObj [(''__b'', WNum 7), (''file'', WObj [(''_b'', WNum 0)]),
              (''__s'', WArr [WObj [(''_s'', WNum 1)]])])
       parseAll (Some [[1, 2, 3]]) =
     (Inr (RObj [(''_b'', RNum 7), (''file'', RBlob [1, 2, 3]), (''_s'', RArr [RStream 1])]),
      \<lparr> m_binaries = Some [[1, 2, 3]], streamCount = 1, created = [1] \<rparr>)"
  by (simp add: resolveMixedJSONDeep_def parseAll_def DEFAULT_OPTIONS_def numberField_def
      binaryAt_def assignResolved_def finishObject_def)

text \<open>
  C1, as amended. Let the key escape be invertible and never yield \<open>_b\<close> or \<open>_s\<close>. Let
  \<open>v\<close> be built from JSON primitives, arrays, objects, blobs and write streams, with no
  \<open>Date\<close> in it, no key \<open>__proto__\<close> and no key escaped to \<open>__proto__\<close>, and with every write
  stream occurring once and not initialised before; let the encoding transport have
  streams enabled, the decoder parse binaries if \<open>v\<close> holds a blob and streams if \<open>v\<close>
  holds a write stream, and the decoder's \<open>streamsPerPackageLimit\<close> be at least the number
  of write streams in \<open>v\<close>. Then resolving the encoded tree with the collected binaries
  succeeds with a value structurally equal to \<open>v\<close>: blobs are byte-equal, every write
  stream has become the read stream of the id it was initialised with, and keys are the
  user's keys, also keys named \<open>_b\<close> or \<open>_s\<close>.
\<close>

theorem mixed_roundtrip:
  assumes "escapeOk esc unesc"
      and "streamsEnabled (options st)"
      and "distinctKeys v"
      and "decodable ropts (leaves v)"
      and "countStreams (leaves v) \<le> streamsPerPackageLimit topts"
      and "protoFree esc v"
      and "streamsUnused st v"
  shows "roundTrips esc unesc topts ropts st v"
proof -
  obtain w binaries streams st' where
    p: "processMixedJSONDeep esc v [] [] st = (w, binaries, streams, st')"
    by (cases "processMixedJSONDeep esc v [] [] st") auto
  let ?S = "\<lambda>s i. initCall s i \<in> set (drop (length (trace st)) (trace st'))"
  let ?m = "\<lparr> m_binaries = Some binaries, streamCount = 0, created = [] \<rparr>"
  have fr: "fresh ?S st st'" by (simp add: fresh_def)
  have mb: "m_binaries ?m = Some binaries" by simp
  have ex: "\<exists>rest. binaries = binaries @ rest" by simp
  have lim: "streamCount ?m + countStreams (leaves v) \<le> streamsPerPackageLimit topts"
    using assms(5) by simp
  from roundtrip_walk(1) [OF p assms(2) assms(3) assms(4) mb ex lim fr assms(1) assms(6)]
  obtain r m' where "internalResolveMixedJSONDeep unesc topts ropts w ?m = (Inr r, m')"
    "sameValue ?S v r"
    by blast
  with p show ?thesis
    by (simp add: roundTrips_def resolveMixedJSONDeep_def)
qed

theorem mixed_roundtrip_witness:
  "escapeOk escapePlaceholderSequence unescapePlaceholderSequence
   \<and> streamsEnabled (options (new_transport DEFAULT_OPTIONS True))
   \<and> distinctKeys demoValue
   \<and> decodable parseAll (leaves demoValue)
   \<and> countStreams (leaves demoValue) \<le> streamsPerPackageLimit DEFAULT_OPTIONS
   \<and> protoFree escapePlaceholderSequence demoValue
   \<and> streamsUnused (new_transport DEFAULT_OPTIONS True) demoValue
   \<and> roundTrips escapePlaceholderSequence unescapePlaceholderSequence DEFAULT_OPTIONS parseAll
       (new_transport DEFAULT_OPTIONS True) demoValue
   \<and> fst (processMixedJSONDeep escapePlaceholderSequence demoValue [] []
            (new_transport DEFAULT_OPTIONS True)) =
       WObj [(''__b'', WNum 7), (''file'', WObj [(''_b'', WNum 0)]),
             (''__s'', WArr [WObj [(''_s'', WNum 1)]])]
   \<and> fst (resolveMixedJSONDeep unescapePlaceholderSequence DEFAULT_OPTIONS
            (WObj [(''__b'', WNum 7), (''file'', WObj [(''_b'', WNum 0)]),
                   (''__s'', WArr [WObj [(''_s'', WNum 1)]])])
            parseAll (Some [[1, 2, 3]])) =
       Inr (RObj [(''_b'', RNum 7), (''file'', RBlob [1, 2, 3]), (''_s'', RArr [RStream 1])])"
proof -
  have a: "streamsEnabled (options (new_transport DEFAULT_OPTIONS True))"
    by (simp add: new_transport_def DEFAULT_OPTIONS_def)
  have b: "distinctKeys demoValue"
    by (simp add: demoValue_def)
  have c: "decodable parseAll (leaves demoValue)"
    by (simp add: demoValue_def decodable_def parseAll_def isDate_def)
  have d: "countStreams (leaves demoValue) \<le> streamsPerPackageLimit DEFAULT_OPTIONS"
    by (simp add: demoValue_def countStreams_def isStream_def DEFAULT_OPTIONS_def)
  have e: "protoFree escapePlaceholderSequence demoValue"
    by (simp add: demoValue_def)
  have f: "streamsUnused (new_transport DEFAULT_OPTIONS True) demoValue"
    by (simp add: streamsUnused_def streamsOf_def initialisedStreams_def demoValue_def
        new_transport_def)
  from mixed_roundtrip [OF escapeOk_model a b c d e f] escapeOk_model a b c d e f
    demo_encoded demo_resolved
  show ?thesis by simp
qed

text \<open>
  The claim as the spec states it, for every value, fails on a value with more write
  streams than the decoder's limit (the resolving walk throws at the 21st placeholder),
  on a \<open>Date\<close> (the encoding walk passes it through and the resolving walk clones it
  into an empty object; sent over the wire it would arrive as a string), and on an
  object with the key \<open>__proto__\<close>: the key is escaped and sent, and the resolving walk
  assigns it to \<open>__proto__\<close> of the clone, which creates no property.
\<close>

theorem mixed_roundtrip_counterexample:
  "\<not> roundTrips escapePlaceholderSequence unescapePlaceholderSequence DEFAULT_OPTIONS
       parseStreamsOnly (new_transport DEFAULT_OPTIONS True) (manyStreams 21)
   \<and> fst (resolveMixedJSONDeep unescapePlaceholderSequence DEFAULT_OPTIONS
            (fst (processMixedJSONDeep escapePlaceholderSequence (manyStreams 21) [] []
                   (new_transport DEFAULT_OPTIONS True)))
            parseStreamsOnly (Some [])) = Inl (Error ''Max stream limit reached.'')
   \<and> \<not> roundTrips escapePlaceholderSequence unescapePlaceholderSequence DEFAULT_OPTIONS
       parseAll (new_transport DEFAULT_OPTIONS True) (PDate 0)
   \<and> fst (resolveMixedJSONDeep unescapePlaceholderSequence DEFAULT_OPTIONS
            (fst (processMixedJSONDeep escapePlaceholderSequence (PDate 0) [] []
                   (new_transport DEFAULT_OPTIONS True)))
            parseAll (Some [])) = Inr (RObj [])
   \<and> \<not> roundTrips escapePlaceholderSequence unescapePlaceholderSequence DEFAULT_OPTIONS
       parseAll (new_transport DEFAULT_OPTIONS True) protoValue
   \<and> fst (processMixedJSONDeep escapePlaceholderSequence protoValue [] []
            (new_transport DEFAULT_OPTIONS True)) =
       WObj [(''___proto__'', WNum 5), (''a'', WNum 1)]
   \<and> fst (resolveMixedJSONDeep unescapePlaceholderSequence DEFAULT_OPTIONS
            (WObj [(''___proto__'', WNum 5), (''a'', WNum 1)]) parseAll (Some [])) =
       Inr (RObj [(''a'', RNum 1)])"
proof -
  have many: "fst (resolveMixedJSONDeep unescapePlaceholderSequence DEFAULT_OPTIONS
            (fst (processMixedJSONDeep escapePlaceholderSequence (manyStreams 21) [] []
                   (new_transport DEFAULT_OPTIONS True)))
            parseStreamsOnly (Some [])) = Inl (Error ''Max stream limit reached.'')"
    by code_simp
  have bins: "fst (snd (processMixedJSONDeep escapePlaceholderSequence (manyStreams 21) [] []
                   (new_transport DEFAULT_OPTIONS True))) = []"
    by code_simp
  from many bins
  have "\<not> roundTrips escapePlaceholderSequence unescapePlaceholderSequence DEFAULT_OPTIONS
       parseStreamsOnly (new_transport DEFAULT_OPTIONS True) (manyStreams 21)"
    by (auto simp: roundTrips_def split: prod.splits sum.splits)
  moreover have "\<not> roundTrips escapePlaceholderSequence unescapePlaceholderSequence
       DEFAULT_OPTIONS parseAll (new_transport DEFAULT_OPTIONS True) (PDate 0)"
    by (simp add: roundTrips_def resolveMixedJSONDeep_def)
  moreover have "fst (resolveMixedJSONDeep unescapePlaceholderSequence DEFAULT_OPTIONS
            (fst (processMixedJSONDeep escapePlaceholderSequence (PDate 0) [] []
                   (new_transport DEFAULT_OPTIONS True)))
            parseAll (Some [])) = Inr (RObj [])"
    by (simp add: resolveMixedJSONDeep_def)
  moreover have enc: "processMixedJSONDeep escapePlaceholderSequence protoValue [] []
            (new_transport DEFAULT_OPTIONS True) =
       (WObj [(''___proto__'', WNum 5), (''a'', WNum 1)], [], [],
        new_transport DEFAULT_OPTIONS True)"
    by (simp add: protoValue_def assignOwn_def)
  moreover have dec: "resolveMixedJSONDeep unescapePlaceholderSequence DEFAULT_OPTIONS
            (WObj [(''___proto__'', WNum 5), (''a'', WNum 1)]) parseAll (Some []) =
       (Inr (RObj [(''a'', RNum 1)]),
        \<lparr> m_binaries = Some [], streamCount = 0, created = [] \<rparr>)"
    by (simp add: resolveMixedJSONDeep_def parseAll_def numberField_def assignResolved_def
        finishObject_def)
  moreover from enc dec
  have "\<not> roundTrips escapePlaceholderSequence unescapePlaceholderSequence DEFAULT_OPTIONS
       parseAll (new_transport DEFAULT_OPTIONS True) protoValue"
    by (simp add: roundTrips_def protoValue_def)
  ultimately show ?thesis using many by simp
qed

section \<open>Properties of sending\<close>

text \<open>
  C4 (the code does not do what the claim says). A transport with
  \<open>chunksCanContainStreams\<close> has given the enclosing stream the id 1 and is asked to send
  a write stream as a chunk of stream 1. The inner stream gets the id 2, and the packet
  sent is \<open>StreamChunk, 2, Stream, 2\<close>: the header names the inner stream, not the
  enclosing stream 1.
\<close>

theorem stream_chunk_header_names_inner_stream:
  "fst (getNewStreamId False
          (new_transport (DEFAULT_OPTIONS\<lparr>chunksCanContainStreams := True\<rparr>) True)) = 1
   \<and> fst (sendStreamChunk quietEnv 1 (Some (PStream (demoStream 0))) True False
            chunkTransport) = None
   \<and> trace (snd (sendStreamChunk quietEnv 1 (Some (PStream (demoStream 0))) True False
                   chunkTransport)) =
       [Send (TextFrame StreamChunk [FNum 2, FType Stream, FNum 2]),
        StreamCall 0 (W_init 2), StreamCall 0 W_onTransmitted]"
  by (simp add: sendStreamChunk_def chunkTransport_def getNewStreamId_def new_transport_def
      DEFAULT_OPTIONS_def MAX_SAFE_INTEGER_def send_def emit_def demoStream_def)

section \<open>Properties of the listener hooks\<close>

text \<open>
  The transmit and invoke listeners run inside \<open>try\<close>, and what they throw goes to
  \<open>_onListenerError\<close>, which swallows what \<open>onListenerError\<close> throws: nothing is thrown
  on, and \<open>onInvalidMessage\<close> is not called.
\<close>

lemma processTransmit_trace:
  "trace (processTransmit env receiver d t st) =
     trace st @ CallOnTransmit receiver d t #
       (case onTransmit env receiver d t of None \<Rightarrow> [] | Some e \<Rightarrow> [CallOnListenerError e])"
  by (simp add: processTransmit_def priv_onListenerError_def callOnListenerError_def emit_def
      Let_def split: option.splits)

text \<open>
  C6 (the code does not do what the claim says). A ping arrives, \<open>onPing\<close> throws
  \<open>Thrown 1\<close> and \<open>onListenerError\<close> throws \<open>Thrown 2\<close>. \<open>emitMessage\<close> calls
  \<open>this.onListenerError\<close> directly, not \<open>_onListenerError\<close>, so \<open>Thrown 2\<close> reaches the
  outer \<open>catch\<close> and \<open>onInvalidMessage\<close> is called with it; when \<open>onInvalidMessage\<close>
  throws too, its error reaches the caller of \<open>emitMessage\<close>. The same holds for a pong.
  On the transmit path the error of \<open>onListenerError\<close> is swallowed.
\<close>

theorem ping_listener_error_reaches_onInvalidMessage:
  "emitMessage throwingEnv (BinaryMsg [PING_UINT8]) freshTransport =
     (None, freshTransport
        \<lparr>trace := [CallOnPing, CallOnListenerError (Thrown 1), CallOnInvalidMessage (Thrown 2)],
         observed := [(True, MIN_SAFE_INTEGER), (True, MIN_SAFE_INTEGER),
                      (True, MIN_SAFE_INTEGER)]\<rparr>)
   \<and> fst (emitMessage allThrowingEnv (BinaryMsg [PING_UINT8]) freshTransport) = Some (Thrown 3)
   \<and> trace (snd (emitMessage throwingEnv (BinaryMsg [PONG_UINT8]) freshTransport)) =
       [CallOnPong, CallOnListenerError (Thrown 1), CallOnInvalidMessage (Thrown 2)]
   \<and> emitMessage allThrowingEnv
        (TextMsg (Inr [WNum 1, WStr ''news'', WNum 0, WStr ''hello''])) freshTransport =
     (None, freshTransport
        \<lparr>trace := [CallOnTransmit ''news'' (RStr ''hello'') (DT JSON),
                   CallOnListenerError (Thrown 1)],
         observed := [(True, MIN_SAFE_INTEGER), (True, MIN_SAFE_INTEGER)]\<rparr>)"
  by (simp add: emitMessage_def throwingEnv_def allThrowingEnv_def quietEnv_def
      freshTransport_def new_transport_def tryCatch_def callOnPing_def callOnPong_def
      callOnListenerError_def callOnInvalidMessage_def emit_def PING_UINT8_def PONG_UINT8_def
      processJsonActionPacket_def fieldAt_def dfieldOf_def processData_def
      runDataCallback_def jsonValue_def processTransmit_def priv_onListenerError_def
      DEFAULT_OPTIONS_def)

section \<open>Properties of the dispatch of text packets\<close>

lemma dispatch:
  assumes "fieldAt packet 0 = Some (WNum (int (packetTypeCode t)))"
  shows "t = InvokeDataResp \<Longrightarrow>
           processJsonActionPacket env packet st = processInvokeDataResp env packet st"
    and "t = InvokeErrResp \<Longrightarrow>
           processJsonActionPacket env packet st
             = rejectInvoke (fieldAt packet 1) (fieldAt packet 2) st"
    and "t = StreamAccept \<Longrightarrow>
           processJsonActionPacket env packet st
             = processStreamAccept (fieldAt packet 1) (fieldAt packet 2) st"
    and "t = StreamDataPermission \<Longrightarrow>
           processJsonActionPacket env packet st
             = processStreamDataPermission (fieldAt packet 1) (fieldAt packet 2) st"
    and "t = ReadStreamClose \<Longrightarrow>
           processJsonActionPacket env packet st
             = processReadStreamClose (fieldAt packet 1) (fieldAt packet 2) st"
    and "t = WriteStreamClose \<Longrightarrow>
           processJsonActionPacket env packet st
             = processJsonWriteStreamClose (fieldAt packet 1) (fieldAt packet 2) st"
    and "t = StreamChunk \<Longrightarrow>
           processJsonActionPacket env packet st
             = processJsonStreamChunk env (fieldAt packet 1) (dfieldOf env (fieldAt packet 2))
                 (fieldAt packet 3) (fieldAt packet 4) st"
    and "t = StreamEnd \<Longrightarrow>
           processJsonActionPacket env packet st
             = processJsonStreamEnd env (fieldAt packet 1) (dfieldOf env (fieldAt packet 2))
                 (fieldAt packet 3) (fieldAt packet 4) st"
proof -
  from assms have nn: "packet \<noteq> WNull" by (auto simp: fieldAt_def)
  show "t = InvokeDataResp \<Longrightarrow>
           processJsonActionPacket env packet st = processInvokeDataResp env packet st"
    using assms nn by (simp add: processJsonActionPacket_def)
  show "t = InvokeErrResp \<Longrightarrow>
           processJsonActionPacket env packet st
             = rejectInvoke (fieldAt packet 1) (fieldAt packet 2) st"
    using assms nn by (simp add: processJsonActionPacket_def)
  show "t = StreamAccept \<Longrightarrow>
           processJsonActionPacket env packet st
             = processStreamAccept (fieldAt packet 1) (fieldAt packet 2) st"
    using assms nn by (simp add: processJsonActionPacket_def)
  show "t = StreamDataPermission \<Longrightarrow>
           processJsonActionPacket env packet st
             = processStreamDataPermission (fieldAt packet 1) (fieldAt packet 2) st"
    using assms nn by (simp add: processJsonActionPacket_def)
  show "t = ReadStreamClose \<Longrightarrow>
           processJsonActionPacket env packet st
             = processReadStreamClose (fieldAt packet 1) (fieldAt packet 2) st"
    using assms nn by (simp add: processJsonActionPacket_def)
  show "t = WriteStreamClose \<Longrightarrow>
           processJsonActionPacket env packet st
             = processJsonWriteStreamClose (fieldAt packet 1) (fieldAt packet 2) st"
    using assms nn by (simp add: processJsonActionPacket_def)
  show "t = StreamChunk \<Longrightarrow>
           processJsonActionPacket env packet st
             = processJsonStreamChunk env (fieldAt packet 1) (dfieldOf env (fieldAt packet 2))
                 (fieldAt packet 3) (fieldAt packet 4) st"
    using assms nn by (simp add: processJsonActionPacket_def)
  show "t = StreamEnd \<Longrightarrow>
           processJsonActionPacket env packet st
             = processJsonStreamEnd env (fieldAt packet 1) (dfieldOf env (fieldAt packet 2))
                 (fieldAt packet 3) (fieldAt packet 4) st"
    using assms nn by (simp add: processJsonActionPacket_def)
qed


lemma unknown_id_packet:
  assumes "fieldAt packet 0 = Some (WNum (int (packetTypeCode t)))"
      and "t \<in> set answersAndStreamPackets"
      and "namesNothing st t (fieldAt packet 1)"
      and "argumentTyped t (fieldAt packet 2)"
  shows "processJsonActionPacket env packet st = (None, st)"
proof -
  note d = dispatch [OF assms(1), of env st]
  from assms(2) consider "t = InvokeDataResp" | "t = InvokeErrResp" | "t = StreamAccept"
    | "t = StreamDataPermission" | "t = ReadStreamClose" | "t = WriteStreamClose"
    | "t = StreamChunk" | "t = StreamEnd"
    by (auto simp: answersAndStreamPackets_def)
  then show ?thesis
  proof cases
    case 1
    with assms(3) d(1) show ?thesis
      by (simp add: processInvokeDataResp_def namesNothing_def)
  next
    case 2
    with assms(3) d(2) show ?thesis
      by (simp add: rejectInvoke_def namesNothing_def)
  next
    case 3
    with assms(3,4) obtain n where "fieldAt packet 2 = Some (WNum n)"
      by (auto simp: argumentTyped_def isNumber_def split: option.splits wire.splits)
    with 3 assms(3) d(3) show ?thesis
      by (simp add: processStreamAccept_def namesNothing_def)
  next
    case 4
    with assms(3,4) obtain n where "fieldAt packet 2 = Some (WNum n)"
      by (auto simp: argumentTyped_def isNumber_def split: option.splits wire.splits)
    with 4 assms(3) d(4) show ?thesis
      by (simp add: processStreamDataPermission_def namesNothing_def)
  next
    case 5
    with assms(4) have "isNumber (fieldAt packet 2) \<or> fieldAt packet 2 = None"
      by (simp add: argumentTyped_def)
    with 5 assms(3) d(5) show ?thesis
      by (auto simp: processReadStreamClose_def namesNothing_def)
  next
    case 6
    with assms(3,4) obtain n where "fieldAt packet 2 = Some (WNum n)"
      by (auto simp: argumentTyped_def isNumber_def split: option.splits wire.splits)
    with 6 assms(3) d(6) show ?thesis
      by (simp add: processJsonWriteStreamClose_def namesNothing_def)
  next
    case 7
    with assms(3) d(7) show ?thesis
      by (simp add: processJsonStreamChunk_def namesNothing_def)
  next
    case 8
    with assms(3) d(8) show ?thesis
      by (simp add: processJsonStreamEnd_def namesNothing_def)
  qed
qed

lemma unknown_id_message:
  assumes "fieldAt (WArr xs) 0 = Some (WNum (int (packetTypeCode t)))"
      and "t \<in> set answersAndStreamPackets"
      and "namesNothing st t (fieldAt (WArr xs) 1)"
      and "argumentTyped t (fieldAt (WArr xs) 2)"
  shows "emitMessage env (TextMsg (Inr xs)) st = (None, st)"
proof -
  from assms(2) have "t \<noteq> Bundle" by (auto simp: answersAndStreamPackets_def)
  then have "int (packetTypeCode t) \<noteq> int (packetTypeCode Bundle)" by (cases t) simp_all
  with assms(1) have nb: "fieldAt (WArr xs) 0 \<noteq> Some (WNum (int (packetTypeCode Bundle)))"
    by simp
  from unknown_id_packet [OF assms] nb show ?thesis
    by (simp add: emitMessage_def tryCatch_def)
qed

lemma bad_accept_packet: "processJsonActionPacket quietEnv (WArr badAccept) freshTransport =
     (Some (Error ''Invalid buffer size data type to accept a stream.''), freshTransport)"
  by (simp add: dispatch(3) [where t = StreamAccept] badAccept_def fieldAt_def
      processStreamAccept_def)

lemma bad_accept_message: "trace (snd (emitMessage quietEnv (TextMsg (Inr badAccept)) freshTransport)) =
     [CallOnInvalidMessage (Error ''Invalid buffer size data type to accept a stream.'')]"
proof -
  have nb: "fieldAt (WArr badAccept) 0 = Some (WNum 6)"
    by (simp add: badAccept_def fieldAt_def)
  have "emitMessage quietEnv (TextMsg (Inr badAccept)) freshTransport =
          callOnInvalidMessage quietEnv
            (Error ''Invalid buffer size data type to accept a stream.'') freshTransport"
    by (simp add: emitMessage_def tryCatch_def bad_accept_packet nb)
  then show ?thesis
    by (simp add: callOnInvalidMessage_def emit_def freshTransport_def new_transport_def)
qed


lemma member_accept_message:
  "emitMessage quietEnv (TextMsg (Inr memberAccept)) freshTransport =
     (None, freshTransport\<lparr>trace := [CallOnInvalidMessage TypeError],
                            observed := [(True, MIN_SAFE_INTEGER)]\<rparr>)"
proof -
  have nb: "fieldAt (WArr memberAccept) 0 = Some (WNum 6)"
    by (simp add: memberAccept_def fieldAt_def)
  have k: "lookupProp (activeWriteStreams freshTransport) (Some (WStr ''toString'')) =
      Inr Inherited"
    by (simp add: lookupProp_def stringKey_def objectPrototypeMembers_def)
  have "processJsonActionPacket quietEnv (WArr memberAccept) freshTransport =
      (Some TypeError, freshTransport)"
    using k
    by (simp add: dispatch(3) [where t = StreamAccept] memberAccept_def fieldAt_def
        processStreamAccept_def)
  then show ?thesis
    by (simp add: emitMessage_def tryCatch_def nb callOnInvalidMessage_def quietEnv_def
        emit_def freshTransport_def new_transport_def)
qed

text \<open>
  C10, as amended. On a transport whose maps hold ids it has allocated, an inbound
  \<open>InvokeDataResp\<close>, \<open>InvokeErrResp\<close>, \<open>StreamChunk\<close> or \<open>StreamEnd\<close> packet whose call id or
  stream id names nothing in the map it is looked up in, neither an entry nor a member
  of \<open>Object.prototype\<close>, is a silent no-op: nothing is thrown, no hook is called, the
  state is unchanged. The same holds for \<open>StreamAccept\<close>, \<open>StreamDataPermission\<close> and
  \<open>WriteStreamClose\<close> when their second argument is a number, and for \<open>ReadStreamClose\<close>
  when its close code is a number or absent: the source checks that argument before it
  looks the id up.
\<close>

theorem unknown_id_is_ignored:
  assumes "fieldAt packet 0 = Some (WNum (int (packetTypeCode t)))"
      and "t \<in> set answersAndStreamPackets"
      and "allocatedIds st"
      and "namesNothing st t (fieldAt packet 1)"
      and "argumentTyped t (fieldAt packet 2)"
  shows "processJsonActionPacket env packet st = (None, st)
       \<and> (\<forall>xs. packet = WArr xs \<longrightarrow> emitMessage env (TextMsg (Inr xs)) st = (None, st))"
  using unknown_id_packet [OF assms(1,2,4,5)] unknown_id_message [OF _ assms(2)] assms(1,4,5)
  by blast

theorem unknown_id_is_ignored_witness:
  "fieldAt (WArr goodAccept) 0 = Some (WNum (int (packetTypeCode StreamAccept)))
   \<and> StreamAccept \<in> set answersAndStreamPackets
   \<and> allocatedIds freshTransport
   \<and> namesNothing freshTransport StreamAccept (fieldAt (WArr goodAccept) 1)
   \<and> argumentTyped StreamAccept (fieldAt (WArr goodAccept) 2)
   \<and> processJsonActionPacket quietEnv (WArr goodAccept) freshTransport = (None, freshTransport)
   \<and> emitMessage quietEnv (TextMsg (Inr goodAccept)) freshTransport = (None, freshTransport)"
proof -
  have a: "fieldAt (WArr goodAccept) 0 = Some (WNum (int (packetTypeCode StreamAccept)))"
    by (simp add: goodAccept_def fieldAt_def)
  have b: "StreamAccept \<in> set answersAndStreamPackets"
    by (simp add: answersAndStreamPackets_def)
  have i: "allocatedIds freshTransport"
    by (simp add: allocatedIds_def freshTransport_def new_transport_def)
  have c: "namesNothing freshTransport StreamAccept (fieldAt (WArr goodAccept) 1)"
    by (simp add: namesNothing_def lookupProp_def goodAccept_def fieldAt_def safeInteger_def
        MAX_SAFE_INTEGER_def freshTransport_def new_transport_def)
  have d: "argumentTyped StreamAccept (fieldAt (WArr goodAccept) 2)"
    by (simp add: argumentTyped_def goodAccept_def fieldAt_def isNumber_def)
  from unknown_id_is_ignored [OF a b i c d, of quietEnv] a b i c d show ?thesis by blast
qed

text \<open>
  The claim as the spec states it fails on a \<open>StreamAccept\<close> packet for an unknown stream
  whose buffer size is a string: \<open>_processStreamAccept\<close> throws before it looks the
  stream up, and \<open>emitMessage\<close> hands the error to \<open>onInvalidMessage\<close>. It also fails on a
  \<open>StreamAccept\<close> packet with the stream id \<open>toString\<close>: the map has no such entry, but the
  lookup finds the member of \<open>Object.prototype\<close>, and calling \<open>_open\<close> on it throws a
  \<open>TypeError\<close>.
\<close>

theorem unknown_id_is_ignored_counterexample:
  "activeWriteStreams freshTransport = []
   \<and> processJsonActionPacket quietEnv (WArr badAccept) freshTransport =
       (Some (Error ''Invalid buffer size data type to accept a stream.''), freshTransport)
   \<and> trace (snd (emitMessage quietEnv (TextMsg (Inr badAccept)) freshTransport)) =
       [CallOnInvalidMessage (Error ''Invalid buffer size data type to accept a stream.'')]
   \<and> trace (snd (emitMessage quietEnv (TextMsg (Inr memberAccept)) freshTransport)) =
       [CallOnInvalidMessage TypeError]"
proof -
  have "activeWriteStreams freshTransport = []"
    by (simp add: freshTransport_def new_transport_def)
  with bad_accept_packet bad_accept_message member_accept_message show ?thesis by simp
qed

section \<open>Basic facts about the trace\<close>

lemma emit_fields [simp]:
  "trace (emit e st) = trace st @ [e]"
  "observed (emit e st) = observed st @ [(is_open st, badConnectionStamp st)]"
  "options (emit e st) = options st"
  "is_open (emit e st) = is_open st"
  "badConnectionStamp (emit e st) = badConnectionStamp st"
  "binaryContentPacketId (emit e st) = binaryContentPacketId st"
  "binaryContentResolver (emit e st) = binaryContentResolver st"
  "objectStreamId (emit e st) = objectStreamId st"
  "binaryStreamId (emit e st) = binaryStreamId st"
  "activeReadStreams (emit e st) = activeReadStreams st"
  "activeWriteStreams (emit e st) = activeWriteStreams st"
  "cid (emit e st) = cid st"
  "invokeResponsePromises (emit e st) = invokeResponsePromises st"
  "timers (emit e st) = timers st"
  "nextTimer (emit e st) = nextTimer st"
  "nextPromise (emit e st) = nextPromise st"
  "responseJoins (emit e st) = responseJoins st"
  "closedWriteStreams (emit e st) = closedWriteStreams st"
  by (simp_all add: emit_def)

section \<open>Properties of the invoke callbacks\<close>

lemma onTransmittedAll_trace:
  "trace (onTransmittedAll ws st) =
     trace st @ map (\<lambda>w. StreamCall (ws_ref w) W_onTransmitted) ws"
  by (induction ws arbitrary: st) simp_all

lemma silentDirectSendPackage_trace:
  "\<exists>t. trace (silentDirectSendPackage h b st) = trace st @ t \<and> Send h \<in> set t"
  by (cases b) (auto simp: silentDirectSendPackage_def send_def)

lemma sendMixed_sends:
  assumes "sendMixed env ptype prefix dt data st = (None, st')"
  shows "\<exists>t fields. trace st' = trace st @ t \<and> Send (TextFrame ptype (prefix @ fields)) \<in> set t"
proof -
  obtain data1 binaries streams st1 where
    w: "(case data of None \<Rightarrow> (None, [], [], st)
         | Some d \<Rightarrow> (case processMixedJSONDeep (escapeKey env) d [] [] st of
                        (w, bs, ss, st') \<Rightarrow> (Some w, bs, ss, st'))) = (data1, binaries, streams, st1)"
    by (metis prod_cases4)
  have t1: "\<exists>t. trace st1 = trace st @ t"
  proof (cases data)
    case None
    with w show ?thesis by simp
  next
    case (Some d)
    obtain w' bs ss s' where p: "processMixedJSONDeep (escapeKey env) d [] [] st = (w', bs, ss, s')"
      by (metis prod_cases4)
    with w Some have "st1 = s'" by simp
    with process_frame(1) [OF p] show ?thesis by simp
  qed
  then obtain ta where ta: "trace st1 = trace st @ ta" ..
  show ?thesis
  proof (cases "length binaries > 0")
    case False
    let ?h = "TextFrame ptype (prefix @ [FType (dt False (length streams > 0))] @ jsonField data1)"
    from assms w False have st': "st' = onTransmittedAll streams (silentDirectSendPackage ?h None st1)"
      by (simp add: sendMixed_def Let_def)
    from silentDirectSendPackage_trace [of ?h None st1] obtain tb where
      tb: "trace (silentDirectSendPackage ?h None st1) = trace st1 @ tb" "Send ?h \<in> set tb" by blast
    from onTransmittedAll_trace [of streams "silentDirectSendPackage ?h None st1"] obtain tc where
      tc: "trace st' = trace (silentDirectSendPackage ?h None st1) @ tc" unfolding st' by simp
    from ta tb tc have "trace st' = trace st @ (ta @ tb @ tc)" "Send ?h \<in> set (ta @ tb @ tc)"
      by simp_all
    then show ?thesis by blast
  next
    case True
    obtain bid st2 where g: "getNewBinaryContentPacketId st1 = (bid, st2)"
      by (cases "getNewBinaryContentPacketId st1")
    then have t2: "trace st2 = trace st1" by (auto simp: getNewBinaryContentPacketId_def Let_def)
    let ?h = "TextFrame ptype ((prefix @ [FType (dt True (length streams > 0))] @ jsonField data1)
                 @ [FNum bid])"
    from assms w True g obtain b where
      st': "st' = onTransmittedAll streams (silentDirectSendPackage ?h (Some b) st2)"
      by (auto simp: sendMixed_def Let_def split: sum.splits)
    from silentDirectSendPackage_trace [of ?h "Some b" st2] obtain tb where
      tb: "trace (silentDirectSendPackage ?h (Some b) st2) = trace st2 @ tb" "Send ?h \<in> set tb"
      by blast
    from onTransmittedAll_trace [of streams "silentDirectSendPackage ?h (Some b) st2"] obtain tc
      where tc: "trace st' = trace (silentDirectSendPackage ?h (Some b) st2) @ tc"
      unfolding st' by simp
    from ta t2 tb tc have "trace st' = trace st @ (ta @ tb @ tc)" "Send ?h \<in> set (ta @ tb @ tc)"
      by simp_all
    then show ?thesis by (metis append.assoc)
  qed
qed

lemma sendInvokeDataResp_sends:
  assumes "sendInvokeDataResp env callId data pct st = (None, st')"
  shows "\<exists>t fields. trace st' = trace st @ t
           \<and> Send (TextFrame InvokeDataResp (FNum callId # fields)) \<in> set t"
proof (cases pct)
  case False
  with assms show ?thesis
    by (auto simp: sendInvokeDataResp_def send_def)
next
  case True
  note pct = True
  have mixed: ?thesis
    if "sendMixed env InvokeDataResp [FNum callId] parseJSONDataType data st = (None, st')"
    using sendMixed_sends [OF that] by auto
  show ?thesis
  proof (cases data)
    case None
    with assms pct mixed show ?thesis by (simp add: sendInvokeDataResp_def)
  next
    case (Some d)
    show ?thesis
    proof (cases d)
      case (PStream w)
      show ?thesis
      proof (cases "streamsEnabled (options st)")
        case True
        with assms pct Some PStream show ?thesis
          by (auto simp: sendInvokeDataResp_def send_def getNewStreamId_def Let_def
              split: prod.splits if_splits)
      next
        case False
        with assms pct Some PStream mixed show ?thesis by (simp add: sendInvokeDataResp_def)
      qed
    next
      case (PBlob b)
      with assms pct Some show ?thesis
        by (auto simp: sendInvokeDataResp_def send_def getNewBinaryContentPacketId_def
            Let_def split: prod.splits if_splits sum.splits)
    qed (use assms pct Some mixed in \<open>simp_all add: sendInvokeDataResp_def\<close>)
  qed
qed


lemma callbacks_first:
  assumes "\<not> c_called c" "c_badConnectionTimestamp c = badConnectionStamp st"
  shows "rejectCallback err c st =
           (None, c\<lparr>c_called := True\<rparr>,
            send (TextFrame InvokeErrResp [FNum (c_callId c), errField err]) st)"
    and "endCallback env data pct c st =
           (fst (sendInvokeDataResp env (c_callId c) data pct st), c\<lparr>c_called := True\<rparr>,
            snd (sendInvokeDataResp env (c_callId c) data pct st))"
  using assms
  by (simp_all add: rejectCallback_def endCallback_def errField_def Let_def split: prod.splits)

lemma callbacks_second:
  assumes "c_called c"
  shows "endCallback env data pct c st = (Some (InvalidActionError (c_callId c)), c, st)"
    and "rejectCallback err c st = (Some (InvalidActionError (c_callId c)), c, st)"
  using assms by (simp_all add: rejectCallback_def endCallback_def)

lemma callbacks_fenced:
  assumes "\<not> c_called c" "c_badConnectionTimestamp c \<noteq> badConnectionStamp st"
  shows "endCallback env data pct c st = (None, c\<lparr>c_called := True\<rparr>, st)"
    and "rejectCallback err c st = (None, c\<lparr>c_called := True\<rparr>, st)"
  using assms by (simp_all add: rejectCallback_def endCallback_def Let_def)

lemma callback_call_marks:
  assumes "isCallbackCall a" "invokeAction env a c st = (None, c1, st1)"
  shows "c_called c1 \<and> c_callId c1 = c_callId c"
  using assms
  by (cases a)
     (auto simp: isCallbackCall_def invokeAction_def endCallback_def rejectCallback_def Let_def
        split: if_splits prod.splits)

lemma second_call_inside_listener:
  assumes "onInvoke env procedure d t = a1 # a2 # rest"
      and "isCallbackCall a1" "isCallbackCall a2"
      and "invokeAction env a1
             \<lparr> c_callId = callId, c_badConnectionTimestamp = badConnectionStamp st,
               c_called = False \<rparr> (emit (CallOnInvoke procedure d t) st) = (None, c1, st1)"
  shows "processInvoke env procedure callId d t st =
           (c1, priv_onListenerError env (InvalidActionError callId) st1)"
    and "trace (priv_onListenerError env (InvalidActionError callId) st1) =
           trace st1 @ [CallOnListenerError (InvalidActionError callId)]"
proof -
  from callback_call_marks [OF assms(2) assms(4)]
  have c1: "c_called c1" "c_callId c1 = callId" by simp_all
  from assms(3) c1 have "invokeAction env a2 c1 st1 = (Some (InvalidActionError callId), c1, st1)"
    by (cases a2) (simp_all add: isCallbackCall_def invokeAction_def callbacks_second)
  with assms(1) assms(4) show "processInvoke env procedure callId d t st =
           (c1, priv_onListenerError env (InvalidActionError callId) st1)"
    by (simp add: processInvoke_def Let_def)
  show "trace (priv_onListenerError env (InvalidActionError callId) st1) =
           trace st1 @ [CallOnListenerError (InvalidActionError callId)]"
    by (simp add: priv_onListenerError_def callOnListenerError_def)
qed

text \<open>
  C7, as amended. The first call of \<open>end\<close> or \<open>reject\<close>, with the connection not lost
  since the invoke was delivered, sends the response and marks the callbacks as called.
  Any call after that throws an \<open>InvalidActionError\<close> to its caller and sends nothing.
  A first call after \<open>badConnectionStamp\<close> has changed sends nothing (and still marks the
  callbacks as called). When the second call is made inside the listener and the
  listener lets the exception out, \<open>_processInvoke\<close> catches it and reports it through
  \<open>onListenerError\<close>.
\<close>

theorem invoke_callbacks_single_shot:
  "(\<not> c_called c \<and> c_badConnectionTimestamp c = badConnectionStamp st \<longrightarrow>
      rejectCallback err c st =
        (None, c\<lparr>c_called := True\<rparr>,
         send (TextFrame InvokeErrResp [FNum (c_callId c), errField err]) st)
      \<and> endCallback env data pct c st =
        (fst (sendInvokeDataResp env (c_callId c) data pct st), c\<lparr>c_called := True\<rparr>,
         snd (sendInvokeDataResp env (c_callId c) data pct st))
      \<and> (fst (sendInvokeDataResp env (c_callId c) data pct st) = None \<longrightarrow>
           (\<exists>t fields. trace (snd (sendInvokeDataResp env (c_callId c) data pct st)) = trace st @ t
              \<and> Send (TextFrame InvokeDataResp (FNum (c_callId c) # fields)) \<in> set t)))
   \<and> (c_called c \<longrightarrow>
        endCallback env data pct c st = (Some (InvalidActionError (c_callId c)), c, st)
        \<and> rejectCallback err c st = (Some (InvalidActionError (c_callId c)), c, st))
   \<and> (\<not> c_called c \<and> c_badConnectionTimestamp c \<noteq> badConnectionStamp st \<longrightarrow>
        endCallback env data pct c st = (None, c\<lparr>c_called := True\<rparr>, st)
        \<and> rejectCallback err c st = (None, c\<lparr>c_called := True\<rparr>, st))
   \<and> (onInvoke env procedure d t = a1 # a2 # rest \<and> isCallbackCall a1 \<and> isCallbackCall a2
        \<and> invokeAction env a1
             \<lparr> c_callId = callId, c_badConnectionTimestamp = badConnectionStamp st,
               c_called = False \<rparr> (emit (CallOnInvoke procedure d t) st) = (None, c1, st1)
       \<longrightarrow> processInvoke env procedure callId d t st =
             (c1, priv_onListenerError env (InvalidActionError callId) st1)
           \<and> trace (priv_onListenerError env (InvalidActionError callId) st1) =
             trace st1 @ [CallOnListenerError (InvalidActionError callId)])"
proof -
  have sends: "\<exists>t fields. trace (snd (sendInvokeDataResp env (c_callId c) data pct st))
                   = trace st @ t
              \<and> Send (TextFrame InvokeDataResp (FNum (c_callId c) # fields)) \<in> set t"
    if "fst (sendInvokeDataResp env (c_callId c) data pct st) = None"
  proof -
    from that have "sendInvokeDataResp env (c_callId c) data pct st =
        (None, snd (sendInvokeDataResp env (c_callId c) data pct st))"
      by (metis prod.collapse)
    then show ?thesis by (rule sendInvokeDataResp_sends)
  qed
  show ?thesis
  proof (intro conjI impI)
    assume a: "\<not> c_called c \<and> c_badConnectionTimestamp c = badConnectionStamp st"
    then have a1: "\<not> c_called c" and a2: "c_badConnectionTimestamp c = badConnectionStamp st"
      by simp_all
    show "rejectCallback err c st =
        (None, c\<lparr>c_called := True\<rparr>,
         send (TextFrame InvokeErrResp [FNum (c_callId c), errField err]) st)"
      by (rule callbacks_first(1) [OF a1 a2])
    show "endCallback env data pct c st =
        (fst (sendInvokeDataResp env (c_callId c) data pct st), c\<lparr>c_called := True\<rparr>,
         snd (sendInvokeDataResp env (c_callId c) data pct st))"
      by (rule callbacks_first(2) [OF a1 a2])
  next
    assume "fst (sendInvokeDataResp env (c_callId c) data pct st) = None"
    then show "\<exists>t fields. trace (snd (sendInvokeDataResp env (c_callId c) data pct st))
                   = trace st @ t
              \<and> Send (TextFrame InvokeDataResp (FNum (c_callId c) # fields)) \<in> set t"
      by (rule sends)
  next
    assume b: "c_called c"
    show "endCallback env data pct c st = (Some (InvalidActionError (c_callId c)), c, st)"
      by (rule callbacks_second(1) [OF b])
    show "rejectCallback err c st = (Some (InvalidActionError (c_callId c)), c, st)"
      by (rule callbacks_second(2) [OF b])
  next
    assume "\<not> c_called c \<and> c_badConnectionTimestamp c \<noteq> badConnectionStamp st"
    then have c1: "\<not> c_called c" and c2: "c_badConnectionTimestamp c \<noteq> badConnectionStamp st"
      by simp_all
    show "endCallback env data pct c st = (None, c\<lparr>c_called := True\<rparr>, st)"
      by (rule callbacks_fenced(1) [OF c1 c2])
    show "rejectCallback err c st = (None, c\<lparr>c_called := True\<rparr>, st)"
      by (rule callbacks_fenced(2) [OF c1 c2])
  next
    assume d: "onInvoke env procedure d t = a1 # a2 # rest \<and> isCallbackCall a1
        \<and> isCallbackCall a2
        \<and> invokeAction env a1
             \<lparr> c_callId = callId, c_badConnectionTimestamp = badConnectionStamp st,
               c_called = False \<rparr> (emit (CallOnInvoke procedure d t) st) = (None, c1, st1)"
    then have d1: "onInvoke env procedure d t = a1 # a2 # rest" and d2: "isCallbackCall a1"
      and d3: "isCallbackCall a2"
      and d4: "invokeAction env a1
             \<lparr> c_callId = callId, c_badConnectionTimestamp = badConnectionStamp st,
               c_called = False \<rparr> (emit (CallOnInvoke procedure d t) st) = (None, c1, st1)"
      by simp_all
    show "processInvoke env procedure callId d t st =
             (c1, priv_onListenerError env (InvalidActionError callId) st1)"
      by (rule second_call_inside_listener(1) [OF d1 d2 d3 d4])
    show "trace (priv_onListenerError env (InvalidActionError callId) st1) =
             trace st1 @ [CallOnListenerError (InvalidActionError callId)]"
      by (rule second_call_inside_listener(2) [OF d1 d2 d3 d4])
  qed
qed


theorem invoke_callbacks_single_shot_witness:
  "rejectCallback (ErrorArg 0) freshClosure freshTransport =
     (None, usedClosure,
      send (TextFrame InvokeErrResp [FNum 7, FDehydrated 0]) freshTransport)
   \<and> endCallback quietEnv (Some (PNum 5)) False freshClosure freshTransport =
     (None, usedClosure,
      send (TextFrame InvokeDataResp [FNum 7, FType JSON, FRaw (PNum 5)]) freshTransport)
   \<and> endCallback quietEnv None False usedClosure freshTransport =
     (Some (InvalidActionError 7), usedClosure, freshTransport)
   \<and> rejectCallback (ErrorArg 0) staleClosure freshTransport =
     (None, staleClosure\<lparr>c_called := True\<rparr>, freshTransport)
   \<and> trace (snd (processInvoke twiceEnv ''add'' 7 RNull (DT JSON) freshTransport)) =
     [CallOnInvoke ''add'' RNull (DT JSON),
      Send (TextFrame InvokeDataResp [FNum 7, FType JSON, FRaw (PNum 5)]),
      CallOnListenerError (InvalidActionError 7)]"
proof -
  have stamp: "badConnectionStamp freshTransport = MIN_SAFE_INTEGER"
    by (simp add: freshTransport_def new_transport_def)
  have f1: "\<not> c_called freshClosure
      \<and> c_badConnectionTimestamp freshClosure = badConnectionStamp freshTransport"
    by (simp add: freshClosure_def stamp)
  have f2: "c_called usedClosure"
    by (simp add: usedClosure_def)
  have f3: "\<not> c_called staleClosure
      \<and> c_badConnectionTimestamp staleClosure \<noteq> badConnectionStamp freshTransport"
    by (simp add: staleClosure_def freshClosure_def stamp)
  have resp: "sendInvokeDataResp quietEnv 7 (Some (PNum 5)) False freshTransport =
      (None, send (TextFrame InvokeDataResp [FNum 7, FType JSON, FRaw (PNum 5)]) freshTransport)"
    by (simp add: sendInvokeDataResp_def rawField_def)
  have f4: "onInvoke twiceEnv ''add'' RNull (DT JSON) =
        End (Some (PNum 5)) False # Reject (ErrorArg 0) # [End None False]
      \<and> isCallbackCall (End (Some (PNum 5)) False) \<and> isCallbackCall (Reject (ErrorArg 0))
      \<and> invokeAction twiceEnv (End (Some (PNum 5)) False)
           \<lparr> c_callId = 7, c_badConnectionTimestamp = badConnectionStamp freshTransport,
             c_called = False \<rparr> (emit (CallOnInvoke ''add'' RNull (DT JSON)) freshTransport) =
         (None, usedClosure,
          send (TextFrame InvokeDataResp [FNum 7, FType JSON, FRaw (PNum 5)])
            (emit (CallOnInvoke ''add'' RNull (DT JSON)) freshTransport))"
    by (simp add: twiceEnv_def quietEnv_def isCallbackCall_def invokeAction_def endCallback_def
        sendInvokeDataResp_def rawField_def usedClosure_def freshClosure_def stamp)
  have id7: "c_callId freshClosure = 7" "c_callId usedClosure = 7"
    by (simp_all add: freshClosure_def usedClosure_def)
  have used: "freshClosure\<lparr>c_called := True\<rparr> = usedClosure"
    by (simp add: usedClosure_def)
  note t1 = invoke_callbacks_single_shot
    [where c = freshClosure and st = freshTransport and err = "ErrorArg 0" and env = quietEnv
       and data = "Some (PNum 5)" and pct = False]
  note t2 = invoke_callbacks_single_shot
    [where c = usedClosure and st = freshTransport and err = "ErrorArg 0" and env = quietEnv
       and data = None and pct = False]
  note t3 = invoke_callbacks_single_shot
    [where c = staleClosure and st = freshTransport and err = "ErrorArg 0" and env = quietEnv
       and data = None and pct = False]
  note t4 = invoke_callbacks_single_shot
    [where c = freshClosure and st = freshTransport and err = "ErrorArg 0" and env = twiceEnv
       and data = None and pct = False and procedure = "''add''" and d = RNull
       and t = "DT JSON" and ?a1.0 = "End (Some (PNum 5)) False"
       and ?a2.0 = "Reject (ErrorArg 0)" and rest = "[End None False]" and callId = 7
       and ?c1.0 = usedClosure
       and ?st1.0 = "send (TextFrame InvokeDataResp [FNum 7, FType JSON, FRaw (PNum 5)])
            (emit (CallOnInvoke ''add'' RNull (DT JSON)) freshTransport)"]
  from t1 f1 have w1: "rejectCallback (ErrorArg 0) freshClosure freshTransport =
     (None, usedClosure,
      send (TextFrame InvokeErrResp [FNum 7, FDehydrated 0]) freshTransport)"
    and w2: "endCallback quietEnv (Some (PNum 5)) False freshClosure freshTransport =
     (None, usedClosure,
      send (TextFrame InvokeDataResp [FNum 7, FType JSON, FRaw (PNum 5)]) freshTransport)"
    by (simp_all add: id7 used resp errField_def)
  from t2 f2 have w3: "endCallback quietEnv None False usedClosure freshTransport =
     (Some (InvalidActionError 7), usedClosure, freshTransport)"
    by (simp add: id7)
  from t3 f3 have w4: "rejectCallback (ErrorArg 0) staleClosure freshTransport =
     (None, staleClosure\<lparr>c_called := True\<rparr>, freshTransport)"
    by simp
  from t4 f4 have "processInvoke twiceEnv ''add'' 7 RNull (DT JSON) freshTransport =
        (usedClosure, priv_onListenerError twiceEnv (InvalidActionError 7)
           (send (TextFrame InvokeDataResp [FNum 7, FType JSON, FRaw (PNum 5)])
              (emit (CallOnInvoke ''add'' RNull (DT JSON)) freshTransport)))"
    by blast
  then have w5: "trace (snd (processInvoke twiceEnv ''add'' 7 RNull (DT JSON) freshTransport)) =
     [CallOnInvoke ''add'' RNull (DT JSON),
      Send (TextFrame InvokeDataResp [FNum 7, FType JSON, FRaw (PNum 5)]),
      CallOnListenerError (InvalidActionError 7)]"
    by (simp add: priv_onListenerError_def callOnListenerError_def send_def
        freshTransport_def new_transport_def)
  from w1 w2 w3 w4 w5 show ?thesis by blast
qed

text \<open>
  The claim as the spec states it fails on a second call that is made after the
  listener has returned: the listener answers once; a later call of \<open>end\<close> throws the
  \<open>InvalidActionError\<close> to its caller, and nothing is reported through
  \<open>onListenerError\<close>, as the unchanged trace shows.
\<close>

theorem invoke_callbacks_single_shot_counterexample:
  "fst (processInvoke onceEnv ''add'' 7 RNull (DT JSON) freshTransport) = usedClosure
   \<and> trace (snd (processInvoke onceEnv ''add'' 7 RNull (DT JSON) freshTransport)) =
       [CallOnInvoke ''add'' RNull (DT JSON),
        Send (TextFrame InvokeDataResp [FNum 7, FType JSON, FRaw (PNum 5)])]
   \<and> endCallback onceEnv (Some (PNum 6)) False usedClosure
        (snd (processInvoke onceEnv ''add'' 7 RNull (DT JSON) freshTransport)) =
       (Some (InvalidActionError 7), usedClosure,
        snd (processInvoke onceEnv ''add'' 7 RNull (DT JSON) freshTransport))
   \<and> CallOnListenerError (InvalidActionError 7)
        \<notin> set (trace (snd (processInvoke onceEnv ''add'' 7 RNull (DT JSON) freshTransport)))"
proof -
  have p: "processInvoke onceEnv ''add'' 7 RNull (DT JSON) freshTransport =
      (usedClosure,
       send (TextFrame InvokeDataResp [FNum 7, FType JSON, FRaw (PNum 5)])
         (emit (CallOnInvoke ''add'' RNull (DT JSON)) freshTransport))"
    by (simp add: processInvoke_def onceEnv_def quietEnv_def invokeAction_def endCallback_def
        sendInvokeDataResp_def rawField_def usedClosure_def freshClosure_def
        freshTransport_def new_transport_def Let_def)
  have t: "trace (snd (processInvoke onceEnv ''add'' 7 RNull (DT JSON) freshTransport)) =
       [CallOnInvoke ''add'' RNull (DT JSON),
        Send (TextFrame InvokeDataResp [FNum 7, FType JSON, FRaw (PNum 5)])]"
    unfolding p by (simp add: send_def freshTransport_def new_transport_def)
  have e: "endCallback onceEnv (Some (PNum 6)) False usedClosure
        (snd (processInvoke onceEnv ''add'' 7 RNull (DT JSON) freshTransport)) =
       (Some (InvalidActionError 7), usedClosure,
        snd (processInvoke onceEnv ''add'' 7 RNull (DT JSON) freshTransport))"
    by (simp add: endCallback_def usedClosure_def freshClosure_def)
  from p t e show ?thesis by simp
qed

section \<open>Losing the connection\<close>

lemma quiet_refl: "quiet st st []"
  by (simp add: quiet_def)

lemma quiet_trans: "quiet st st1 t1 \<Longrightarrow> quiet st1 st2 t2 \<Longrightarrow> quiet st st2 (t1 @ t2)"
  by (simp add: quiet_def)

lemma quiet_emit: "quiet st (emit e st) [e]"
  by (simp add: quiet_def)

lemma quiet_clearTimeout: "quiet st (clearTimeout h st) [ClearTimeout h]"
  by (cases h) (simp_all add: quiet_def clearTimeout_def)

lemma quiet_error_callback:
  assumes "runDataCallback env cb (Inl err) st = (thrown, st')"
  shows "\<exists>t. quiet st st' t
           \<and> (\<forall>p. cb = ChunkCb p \<longrightarrow> thrown = None \<and> t = [PromiseReject p err])
           \<and> ((\<forall>p. cb \<noteq> ChunkCb p) \<longrightarrow>
                 thrown = onInvalidMessage env err \<and> t = [CallOnInvalidMessage err])"
  using assms
  by (cases cb) (auto simp: runDataCallback_def callOnInvalidMessage_def quiet_def)

lemma quiet_resolver_error:
  assumes "runResolverCallback env rcb (Inl err) st = (thrown, st')"
  shows "\<exists>t. quiet st st' (ResolverCallback rcb (Inl err) # t)
           \<and> ((\<forall>e. onInvalidMessage env e = None) \<longrightarrow> thrown = None)"
proof -
  obtain cb where cb: "runDataCallback env cb (Inl err) (emit (ResolverCallback rcb (Inl err)) st)
      = (thrown, st')"
    using assms by (cases rcb) (auto simp: runResolverCallback_def Let_def)
  from quiet_error_callback [OF cb] obtain t where
    t: "quiet (emit (ResolverCallback rcb (Inl err)) st) st' t"
    and th: "(\<forall>p. cb = ChunkCb p \<longrightarrow> thrown = None)"
      "((\<forall>p. cb \<noteq> ChunkCb p) \<longrightarrow> thrown = onInvalidMessage env err)"
    by blast
  from quiet_trans [OF quiet_emit t]
  have "quiet st st' (ResolverCallback rcb (Inl err) # t)" by simp
  moreover from th have "(\<forall>e. onInvalidMessage env e = None) \<longrightarrow> thrown = None" by metis
  ultimately show ?thesis by blast
qed

lemma quiet_rejectResolvers:
  assumes "rejectResolvers env err rs st = (thrown, st')"
  shows "\<exists>t. quiet st st' t
           \<and> ((\<forall>e. onInvalidMessage env e = None) \<longrightarrow> thrown = None)
           \<and> (thrown = None \<longrightarrow>
                (\<forall>(k, r) \<in> set rs. ClearTimeout (Some (timeout r)) \<in> set t
                    \<and> ResolverCallback (callback r) (Inl err) \<in> set t))"
  using assms
proof (induction rs arbitrary: st)
  case Nil
  then show ?case using quiet_refl by auto
next
  case (Cons kr rs)
  obtain k r where kr: "kr = (k, r)" by (cases kr)
  obtain th1 st1 where c: "runResolverCallback env (callback r) (Inl err)
        (clearTimeout (Some (timeout r)) st) = (th1, st1)"
    by (cases "runResolverCallback env (callback r) (Inl err)
        (clearTimeout (Some (timeout r)) st)")
  from quiet_resolver_error [OF c] obtain t1 where
    t1: "quiet (clearTimeout (Some (timeout r)) st) st1
           (ResolverCallback (callback r) (Inl err) # t1)"
    and n1: "(\<forall>e. onInvalidMessage env e = None) \<longrightarrow> th1 = None"
    by blast
  from quiet_trans [OF quiet_clearTimeout t1]
  have q1: "quiet st st1
      ([ClearTimeout (Some (timeout r))] @ ResolverCallback (callback r) (Inl err) # t1)" .
  show ?case
  proof (cases th1)
    case (Some e)
    with Cons.prems kr c have "thrown = Some e" "st' = st1" by (simp_all add: andThen_def)
    with q1 n1 Some show ?thesis by auto
  next
    case None
    with Cons.prems kr c have r: "rejectResolvers env err rs st1 = (thrown, st')"
      by (simp add: andThen_def)
    from Cons.IH [OF r] obtain t2 where
      t2: "quiet st1 st' t2"
      and n2: "(\<forall>e. onInvalidMessage env e = None) \<longrightarrow> thrown = None"
      and a2: "thrown = None \<longrightarrow>
                (\<forall>(k, r) \<in> set rs. ClearTimeout (Some (timeout r)) \<in> set t2
                    \<and> ResolverCallback (callback r) (Inl err) \<in> set t2)"
      by blast
    from quiet_trans [OF q1 t2] n2 a2 kr show ?thesis
      by (intro exI [of _ "([ClearTimeout (Some (timeout r))]
            @ ResolverCallback (callback r) (Inl err) # t1) @ t2"]) auto
  qed
qed

lemma quiet_rejectPromises:
  "\<exists>t. quiet st (rejectPromises err ps st) t
       \<and> (\<forall>(k, e) \<in> set ps. ClearTimeout (e_timeout e) \<in> set t
             \<and> PromiseReject (e_promise e) err \<in> set t)"
proof (induction ps arbitrary: st)
  case Nil
  then show ?case using quiet_refl by auto
next
  case (Cons ke ps)
  obtain k e where ke: "ke = (k, e)" by (cases ke)
  let ?st1 = "emit (PromiseReject (e_promise e) err) (clearTimeout (e_timeout e) st)"
  have q1: "quiet st ?st1 ([ClearTimeout (e_timeout e)] @ [PromiseReject (e_promise e) err])"
    by (rule quiet_trans [OF quiet_clearTimeout quiet_emit])
  from Cons [of ?st1] obtain t2 where
    t2: "quiet ?st1 (rejectPromises err ps ?st1) t2"
    and a2: "\<forall>(k, e) \<in> set ps. ClearTimeout (e_timeout e) \<in> set t2
             \<and> PromiseReject (e_promise e) err \<in> set t2"
    by blast
  from quiet_trans [OF q1 t2] a2 ke show ?case
    by (intro exI [of _ "([ClearTimeout (e_timeout e)] @ [PromiseReject (e_promise e) err]) @ t2"])
       auto
qed

lemma quiet_callAll:
  "\<exists>t. quiet st (callAll c ss st) t \<and> (\<forall>(k, s) \<in> set ss. StreamCall s c \<in> set t)"
proof (induction ss arbitrary: st)
  case Nil
  then show ?case using quiet_refl by auto
next
  case (Cons ks ss)
  obtain k s where ks: "ks = (k, s)" by (cases ks)
  from Cons [of "emit (StreamCall s c) st"] obtain t2 where
    t2: "quiet (emit (StreamCall s c) st) (callAll c ss (emit (StreamCall s c) st)) t2"
    and a2: "\<forall>(k, s) \<in> set ss. StreamCall s c \<in> set t2"
    by blast
  from quiet_trans [OF quiet_emit t2] a2 ks show ?case
    by (intro exI [of _ "[StreamCall s c] @ t2"]) auto
qed


lemma new_stamp_differs: "generateNewBadConnectionStamp st \<noteq> badConnectionStamp st"
  by (simp add: generateNewBadConnectionStamp_def MAX_SAFE_INTEGER_def MIN_SAFE_INTEGER_def)

lemma bad_connection_example:
  "emitBadConnection quietEnv ''lost'' (Some ''gone'') busyTransport = (None, lostTransport)"
  by (simp add: emitBadConnection_def busyTransport_def lostTransport_def lostError_def
      freshTransport_def new_transport_def quietEnv_def Let_def andThen_def
      rejectBinaryContentResolver_def rejectInvokeRespPromises_def
      emitBadConnectionToStreams_def runResolverCallback_def runDataCallback_def
      callOnInvalidMessage_def clearTimeout_def generateNewBadConnectionStamp_def
      MAX_SAFE_INTEGER_def MIN_SAFE_INTEGER_def emit_def)

text \<open>
  C3, as amended. \<open>emitBadConnection\<close> sets \<open>open\<close> to false, clears the batch timer
  (the first effect, still under the old stamp) and replaces \<open>badConnectionStamp\<close> by a
  different value; every later effect is observed with \<open>open\<close> false and the new stamp.
  The identifier counters keep their values. When the call returns normally, every
  outstanding resolver has had its timeout cleared and its callback called with the
  \<open>BadConnectionError\<close>, every invoke that has an entry in \<open>_invokeResponsePromises\<close> has
  had its timeout cleared and its promise rejected with that error, every active read
  and write stream has been signalled, and the resolver map, \<open>_invokeResponsePromises\<close>
  and both stream maps are empty. It returns normally whenever \<open>onInvalidMessage\<close> does
  not throw. (An invoke whose response has arrived and waits for its binary content has
  no entry any more: its promise is in the hands of the resolver callback.)
\<close>

theorem bad_connection_rejects_everything:
  assumes run: "emitBadConnection env type msg st = (thrown, st')"
  shows "\<not> is_open st'
     \<and> badConnectionStamp st' = generateNewBadConnectionStamp st
     \<and> badConnectionStamp st' \<noteq> badConnectionStamp st
     \<and> cid st' = cid st \<and> binaryContentPacketId st' = binaryContentPacketId st
     \<and> objectStreamId st' = objectStreamId st \<and> binaryStreamId st' = binaryStreamId st
     \<and> (\<exists>t. trace st' = trace st @ ClearBatchTime # t
          \<and> observed st' = observed st @ (False, badConnectionStamp st)
                # map (\<lambda>e. (False, badConnectionStamp st')) t
          \<and> (thrown = None \<longrightarrow>
                (\<forall>(k, r) \<in> set (binaryContentResolver st).
                     ClearTimeout (Some (timeout r)) \<in> set t
                     \<and> ResolverCallback (callback r) (Inl (BadConnectionError type msg)) \<in> set t)
              \<and> (\<forall>(k, e) \<in> set (invokeResponsePromises st).
                     ClearTimeout (e_timeout e) \<in> set t
                     \<and> PromiseReject (e_promise e) (BadConnectionError type msg) \<in> set t)
              \<and> (\<forall>(k, s) \<in> set (activeReadStreams st).
                     StreamCall s R_emitBadConnection \<in> set t)
              \<and> (\<forall>(k, s) \<in> set (activeWriteStreams st).
                     StreamCall s W_emitBadConnection \<in> set t)))
     \<and> (thrown = None \<longrightarrow> binaryContentResolver st' = [] \<and> invokeResponsePromises st' = []
            \<and> activeReadStreams st' = [] \<and> activeWriteStreams st' = [])
     \<and> ((\<forall>e. onInvalidMessage env e = None) \<longrightarrow> thrown = None)"
proof -
  define err where "err = BadConnectionError type msg"
  define st3 where "st3 = (emit ClearBatchTime (st\<lparr>is_open := False\<rparr>))
                    \<lparr>badConnectionStamp := generateNewBadConnectionStamp st\<rparr>"
  have st3: "\<not> is_open st3" "badConnectionStamp st3 = generateNewBadConnectionStamp st"
    "cid st3 = cid st" "binaryContentPacketId st3 = binaryContentPacketId st"
    "objectStreamId st3 = objectStreamId st" "binaryStreamId st3 = binaryStreamId st"
    "trace st3 = trace st @ [ClearBatchTime]"
    "observed st3 = observed st @ [(False, badConnectionStamp st)]"
    "binaryContentResolver st3 = binaryContentResolver st"
    "invokeResponsePromises st3 = invokeResponsePromises st"
    "activeReadStreams st3 = activeReadStreams st"
    "activeWriteStreams st3 = activeWriteStreams st"
    by (simp_all add: st3_def)
  obtain th1 st4 where r1: "rejectResolvers env err (binaryContentResolver st) st3 = (th1, st4)"
    by (cases "rejectResolvers env err (binaryContentResolver st) st3")
  from quiet_rejectResolvers [OF r1] obtain t1 where
    q1: "quiet st3 st4 t1"
    and n1: "(\<forall>e. onInvalidMessage env e = None) \<longrightarrow> th1 = None"
    and a1: "th1 = None \<longrightarrow>
                (\<forall>(k, r) \<in> set (binaryContentResolver st).
                    ClearTimeout (Some (timeout r)) \<in> set t1
                    \<and> ResolverCallback (callback r) (Inl err) \<in> set t1)"
    by blast
  have gen: "generateNewBadConnectionStamp (emit ClearBatchTime (st\<lparr>is_open := False\<rparr>))
      = generateNewBadConnectionStamp st"
    by (simp add: generateNewBadConnectionStamp_def)
  note differs = new_stamp_differs [of st]
  show ?thesis
  proof (cases th1)
    case (Some e)
    with run r1 have res: "thrown = Some e" "st' = st4"
      by (simp_all add: emitBadConnection_def Let_def gen err_def st3_def
          rejectBinaryContentResolver_def andThen_def)
    from q1 have "trace st' = trace st @ ClearBatchTime # t1
        \<and> observed st' = observed st @ (False, badConnectionStamp st)
                # map (\<lambda>e. (False, badConnectionStamp st')) t1"
      by (simp add: quiet_def st3 res)
    moreover from q1 have "\<not> is_open st'" "badConnectionStamp st' = generateNewBadConnectionStamp st"
      "cid st' = cid st" "binaryContentPacketId st' = binaryContentPacketId st"
      "objectStreamId st' = objectStreamId st" "binaryStreamId st' = binaryStreamId st"
      by (simp_all add: quiet_def st3 res)
    ultimately show ?thesis using res n1 Some differs by auto
  next
    case None
    let ?st4b = "st4\<lparr>binaryContentResolver := [], invokeResponsePromises := []\<rparr>"
    let ?st5 = "rejectPromises err (invokeResponsePromises st) ?st4b"
    let ?st5a = "callAll R_emitBadConnection (activeReadStreams st) ?st5"
    let ?st6 = "callAll W_emitBadConnection (activeWriteStreams st) ?st5a"
    from quiet_rejectPromises [of ?st4b err "invokeResponsePromises st"] obtain t2 where
      q2: "quiet ?st4b ?st5 t2"
      and a2: "\<forall>(k, e) \<in> set (invokeResponsePromises st). ClearTimeout (e_timeout e) \<in> set t2
             \<and> PromiseReject (e_promise e) err \<in> set t2"
      by blast
    from quiet_callAll [of ?st5 R_emitBadConnection "activeReadStreams st"] obtain t3 where
      q3: "quiet ?st5 ?st5a t3"
      and a3: "\<forall>(k, s) \<in> set (activeReadStreams st). StreamCall s R_emitBadConnection \<in> set t3"
      by blast
    from quiet_callAll [of ?st5a W_emitBadConnection "activeWriteStreams st"] obtain t4 where
      q4: "quiet ?st5a ?st6 t4"
      and a4: "\<forall>(k, s) \<in> set (activeWriteStreams st). StreamCall s W_emitBadConnection \<in> set t4"
      by blast
    from q1 have m4: "invokeResponsePromises st4 = invokeResponsePromises st"
      "activeReadStreams st4 = activeReadStreams st"
      "activeWriteStreams st4 = activeWriteStreams st"
      by (simp_all add: quiet_def st3)
    from q2 have m5: "activeReadStreams ?st5 = activeReadStreams st"
      "activeWriteStreams ?st5 = activeWriteStreams st"
      by (simp_all add: quiet_def m4)
    from run r1 None have res: "thrown = None"
      "st' = ?st6\<lparr>activeReadStreams := [], activeWriteStreams := []\<rparr>"
      by (simp_all add: emitBadConnection_def Let_def gen err_def [symmetric]
          st3_def [symmetric] rejectBinaryContentResolver_def andThen_def
          rejectInvokeRespPromises_def emitBadConnectionToStreams_def m4 m5)
    let ?t = "t1 @ t2 @ t3 @ t4"
    from q1 q2 q3 q4 have fields: "\<not> is_open st'"
      "badConnectionStamp st' = generateNewBadConnectionStamp st"
      "cid st' = cid st" "binaryContentPacketId st' = binaryContentPacketId st"
      "objectStreamId st' = objectStreamId st" "binaryStreamId st' = binaryStreamId st"
      "binaryContentResolver st' = []" "invokeResponsePromises st' = []"
      "activeReadStreams st' = []" "activeWriteStreams st' = []"
      by (simp_all add: quiet_def st3 res)
    from q1 q2 q3 q4 have tr: "trace st' = trace st @ ClearBatchTime # ?t"
      "observed st' = observed st @ (False, badConnectionStamp st)
                # map (\<lambda>e. (False, badConnectionStamp st')) ?t"
      by (simp_all add: quiet_def st3 res)
    have all: "(\<forall>(k, r) \<in> set (binaryContentResolver st).
                     ClearTimeout (Some (timeout r)) \<in> set ?t
                     \<and> ResolverCallback (callback r) (Inl (BadConnectionError type msg)) \<in> set ?t)
              \<and> (\<forall>(k, e) \<in> set (invokeResponsePromises st).
                     ClearTimeout (e_timeout e) \<in> set ?t
                     \<and> PromiseReject (e_promise e) (BadConnectionError type msg) \<in> set ?t)
              \<and> (\<forall>(k, s) \<in> set (activeReadStreams st).
                     StreamCall s R_emitBadConnection \<in> set ?t)
              \<and> (\<forall>(k, s) \<in> set (activeWriteStreams st).
                     StreamCall s W_emitBadConnection \<in> set ?t)"
      using a1 a2 a3 a4 None unfolding err_def by fastforce
    from tr all have "\<exists>t. trace st' = trace st @ ClearBatchTime # t
          \<and> observed st' = observed st @ (False, badConnectionStamp st)
                # map (\<lambda>e. (False, badConnectionStamp st')) t
          \<and> (thrown = None \<longrightarrow>
                (\<forall>(k, r) \<in> set (binaryContentResolver st).
                     ClearTimeout (Some (timeout r)) \<in> set t
                     \<and> ResolverCallback (callback r) (Inl (BadConnectionError type msg)) \<in> set t)
              \<and> (\<forall>(k, e) \<in> set (invokeResponsePromises st).
                     ClearTimeout (e_timeout e) \<in> set t
                     \<and> PromiseReject (e_promise e) (BadConnectionError type msg) \<in> set t)
              \<and> (\<forall>(k, s) \<in> set (activeReadStreams st).
                     StreamCall s R_emitBadConnection \<in> set t)
              \<and> (\<forall>(k, s) \<in> set (activeWriteStreams st).
                     StreamCall s W_emitBadConnection \<in> set t))"
      by blast
    with fields differs res show ?thesis by simp
  qed
qed


theorem bad_connection_rejects_everything_witness:
  "emitBadConnection quietEnv ''lost'' (Some ''gone'') busyTransport = (None, lostTransport)
   \<and> is_open busyTransport \<and> \<not> is_open lostTransport
   \<and> badConnectionStamp busyTransport = MIN_SAFE_INTEGER
   \<and> badConnectionStamp lostTransport = MIN_SAFE_INTEGER + 1
   \<and> cid lostTransport = cid busyTransport
   \<and> binaryContentResolver lostTransport = [] \<and> invokeResponsePromises lostTransport = []
   \<and> activeReadStreams lostTransport = [] \<and> activeWriteStreams lostTransport = []
   \<and> (\<exists>t. trace lostTransport = trace busyTransport @ ClearBatchTime # t
        \<and> ClearTimeout (Some 0) \<in> set t
        \<and> ResolverCallback (BinaryCb (TransmitCb ''news'' (DT Binary))) (Inl lostError) \<in> set t
        \<and> ClearTimeout (Some 1) \<in> set t
        \<and> PromiseReject 0 lostError \<in> set t
        \<and> StreamCall 5 R_emitBadConnection \<in> set t
        \<and> StreamCall 6 W_emitBadConnection \<in> set t)"
proof -
  have maps: "binaryContentResolver busyTransport =
      [(NumKey 1, \<lparr> callback = BinaryCb (TransmitCb ''news'' (DT Binary)), timeout = 0 \<rparr>)]"
    "invokeResponsePromises busyTransport =
      [(3, \<lparr> e_promise = 0, e_timeout = Some 1, e_returnDataType = False \<rparr>)]"
    "activeReadStreams busyTransport = [(- 1, 5)]"
    "activeWriteStreams busyTransport = [(1, 6)]"
    by (simp_all add: busyTransport_def)
  have before: "is_open busyTransport" "badConnectionStamp busyTransport = MIN_SAFE_INTEGER"
    by (simp_all add: busyTransport_def freshTransport_def new_transport_def)
  have "generateNewBadConnectionStamp busyTransport = MIN_SAFE_INTEGER + 1"
    by (simp add: generateNewBadConnectionStamp_def before MAX_SAFE_INTEGER_def MIN_SAFE_INTEGER_def)
  with bad_connection_rejects_everything [OF bad_connection_example] before
  show ?thesis
    unfolding maps lostError_def by (simp add: bad_connection_example) blast
qed

lemma head_arrives:
  "emitMessage quietEnv (TextMsg (Inr binaryHead)) awaitingTransport = (None, headArrived)"
  by (simp add: emitMessage_def tryCatch_def fieldAt_def processJsonActionPacket_def
     processInvokeDataResp_def lookupProp_def deleteProp_def safeInteger_def MAX_SAFE_INTEGER_def
     awaitingTransport_def headArrived_def answeredEntry_def binaryHead_def
     freshTransport_def new_transport_def DEFAULT_OPTIONS_def
     dfieldOf_def quietEnv_def processData_def resolveBinaryContent_def setTimeout_def
     isNumber_def toKey_def clearTimeout_def emit_def Let_def andThen_def)

lemma lost_after_head:
  "emitBadConnection quietEnv ''lost'' (Some ''gone'') headArrived = (None, lostAfterHead)"
  by (simp add: emitBadConnection_def headArrived_def lostAfterHead_def lostError_def
      answeredEntry_def
      freshTransport_def new_transport_def quietEnv_def Let_def andThen_def
      rejectBinaryContentResolver_def rejectInvokeRespPromises_def
      emitBadConnectionToStreams_def runResolverCallback_def runDataCallback_def
      callOnInvalidMessage_def clearTimeout_def generateNewBadConnectionStamp_def
      MAX_SAFE_INTEGER_def MIN_SAFE_INTEGER_def emit_def)

text \<open>
  The claim as the spec states it fails in two ways. When a resolver callback throws
  (the resolver of a transmit hands the error to \<open>onInvalidMessage\<close>, and that hook
  throws), \<open>emitBadConnection\<close> ends before the pending invoke is rejected and before the
  streams are signalled and their maps emptied. And an invoke whose \<open>InvokeDataResp\<close>
  packet has arrived with a reference to binary content that has not arrived is pending
  without an entry: the packet has removed the entry and cleared the timeout, and on
  \<open>emitBadConnection\<close> the resolver callback hands the error to \<open>onInvalidMessage\<close>; the
  promise 0 of the invoke is neither rejected nor resolved.
\<close>

theorem bad_connection_rejects_everything_counterexample:
  "emitBadConnection allThrowingEnv ''lost'' (Some ''gone'') busyTransport =
     (Some (Thrown 3), abortedTransport)
   \<and> invokeResponsePromises abortedTransport =
       [(3, \<lparr> e_promise = 0, e_timeout = Some 1, e_returnDataType = False \<rparr>)]
   \<and> PromiseReject 0 lostError \<notin> set (trace abortedTransport)
   \<and> activeReadStreams abortedTransport = [(- 1, 5)]
   \<and> StreamCall 5 R_emitBadConnection \<notin> set (trace abortedTransport)
   \<and> activeWriteStreams abortedTransport = [(1, 6)]
   \<and> StreamCall 6 W_emitBadConnection \<notin> set (trace abortedTransport)
   \<and> invokeResponsePromises awaitingTransport = [(0, answeredEntry)]
   \<and> e_promise answeredEntry = 0
   \<and> emitMessage quietEnv (TextMsg (Inr binaryHead)) awaitingTransport = (None, headArrived)
   \<and> emitBadConnection quietEnv ''lost'' (Some ''gone'') headArrived = (None, lostAfterHead)
   \<and> trace lostAfterHead =
       [ClearTimeout (Some 0), SetTimeout 1 10000, ClearBatchTime, ClearTimeout (Some 1),
        ResolverCallback (BinaryCb (InvokeRespCb answeredEntry (DT Binary))) (Inl lostError),
        CallOnInvalidMessage lostError]"
proof -
  have "emitBadConnection allThrowingEnv ''lost'' (Some ''gone'') busyTransport =
     (Some (Thrown 3), abortedTransport)"
    by (simp add: emitBadConnection_def busyTransport_def abortedTransport_def lostError_def
      freshTransport_def new_transport_def allThrowingEnv_def throwingEnv_def quietEnv_def
      Let_def andThen_def
      rejectBinaryContentResolver_def runResolverCallback_def runDataCallback_def
      callOnInvalidMessage_def clearTimeout_def generateNewBadConnectionStamp_def
      MAX_SAFE_INTEGER_def MIN_SAFE_INTEGER_def emit_def)
  then have first: "emitBadConnection allThrowingEnv ''lost'' (Some ''gone'') busyTransport =
     (Some (Thrown 3), abortedTransport)
   \<and> invokeResponsePromises abortedTransport =
       [(3, \<lparr> e_promise = 0, e_timeout = Some 1, e_returnDataType = False \<rparr>)]
   \<and> PromiseReject 0 lostError \<notin> set (trace abortedTransport)
   \<and> activeReadStreams abortedTransport = [(- 1, 5)]
   \<and> StreamCall 5 R_emitBadConnection \<notin> set (trace abortedTransport)
   \<and> activeWriteStreams abortedTransport = [(1, 6)]
   \<and> StreamCall 6 W_emitBadConnection \<notin> set (trace abortedTransport)"
    by (simp add: abortedTransport_def busyTransport_def)
  have second: "invokeResponsePromises awaitingTransport = [(0, answeredEntry)]"
    "e_promise answeredEntry = 0"
    "trace lostAfterHead =
       [ClearTimeout (Some 0), SetTimeout 1 10000, ClearBatchTime, ClearTimeout (Some 1),
        ResolverCallback (BinaryCb (InvokeRespCb answeredEntry (DT Binary))) (Inl lostError),
        CallOnInvalidMessage lostError]"
    by (simp_all add: awaitingTransport_def answeredEntry_def lostAfterHead_def)
  from first second head_arrives lost_after_head show ?thesis by blast
qed

section \<open>Binary content packets\<close>

lemma length_setUint32 [simp]: "length (setUint32 n) = 4"
  by (simp add: setUint32_def)

lemma bigEndian_setUint32:
  assumes "n < 2 ^ 32"
  shows "bigEndian (setUint32 n) = n"
proof -
  define n1 where "n1 = n div 256"
  define n2 where "n2 = n1 div 256"
  define n3 where "n3 = n2 div 256"
  have d1: "n div 2 ^ 8 = n1" by (simp add: n1_def)
  have d2: "n div 2 ^ 16 = n2"
    by (simp add: n1_def n2_def div_mult2_eq [symmetric])
  have d3: "n div 2 ^ 24 = n3"
    by (simp add: n1_def n2_def n3_def div_mult2_eq [symmetric])
  from assms have small: "n3 < 256"
    unfolding d3 [symmetric] by (simp add: less_mult_imp_div_less)
  have s1: "n1 * 256 + n mod 256 = n" unfolding n1_def by simp
  have s2: "n2 * 256 + n1 mod 256 = n1" unfolding n2_def by simp
  have s3: "n3 * 256 + n2 mod 256 = n2" unfolding n3_def by simp
  have "bigEndian (setUint32 n) =
      ((n3 mod 256 * 256 + n2 mod 256) * 256 + n1 mod 256) * 256 + n mod 256"
    unfolding bigEndian_def setUint32_def d1 d2 d3 by (simp add: unat_of_nat)
  also have "\<dots> = n" using small by (simp add: s1 s2 s3)
  finally show ?thesis .
qed

lemma getUint32_at:
  assumes "n < 2 ^ 32"
  shows "getUint32 (pre @ setUint32 n @ rest) (length pre) = Inr n"
  using bigEndian_setUint32 [OF assms] by (simp add: getUint32_def)

lemma scanBinaries_section:
  assumes "\<forall>b \<in> set bs. length b \<le> MAX_SUPPORTED_ARRAY_BUFFER_SIZE"
      and "tail = [] \<or> (\<exists>rest. tail = setUint32 NEXT_BINARIES_PACKET_TOKEN @ rest)"
  shows "scanBinaries (pre @ binariesSection bs @ tail) (length pre) hasResolver acc =
           Inr (length pre + length (binariesSection bs) + (if tail = [] then 0 else 4),
                if hasResolver then acc @ bs else acc, tail \<noteq> [])"
  using assms
proof (induction bs arbitrary: pre acc)
  case Nil
  show ?case
  proof (cases "tail = []")
    case True
    then show ?thesis by (simp add: scanBinaries.simps)
  next
    case False
    with Nil.prems obtain rest where t: "tail = setUint32 NEXT_BINARIES_PACKET_TOKEN @ rest"
      by blast
    have "getUint32 (pre @ setUint32 NEXT_BINARIES_PACKET_TOKEN @ rest) (length pre) =
        Inr NEXT_BINARIES_PACKET_TOKEN"
      by (rule getUint32_at) (simp add: NEXT_BINARIES_PACKET_TOKEN_def MAX_UINT_32_def)
    then show ?thesis
      by (simp add: scanBinaries.simps [of _ "length pre"] t setUint32_def)
  qed
next
  case (Cons b bs)
  let ?view = "pre @ binariesSection (b # bs) @ tail"
  let ?pre = "pre @ setUint32 (length b) @ b"
  from Cons.prems have len: "length b \<le> MAX_SUPPORTED_ARRAY_BUFFER_SIZE" by simp
  then have small: "length b < 2 ^ 32" and notok: "length b \<noteq> NEXT_BINARIES_PACKET_TOKEN"
    by (simp_all add: MAX_SUPPORTED_ARRAY_BUFFER_SIZE_def NEXT_BINARIES_PACKET_TOKEN_def
        MAX_UINT_32_def)
  have v: "?view = ?pre @ binariesSection bs @ tail" by simp
  have g: "getUint32 ?view (length pre) = Inr (length b)"
    using getUint32_at [OF small, of pre "b @ binariesSection bs @ tail"] by simp
  have blob: "take (length b) (drop (length pre + 4) ?view) = b" by simp
  have lt: "length pre < length ?view" by simp
  from Cons.prems have rest: "\<forall>b \<in> set bs. length b \<le> MAX_SUPPORTED_ARRAY_BUFFER_SIZE"
    by simp
  have "scanBinaries ?view (length pre) hasResolver acc =
      scanBinaries ?view (length pre + 4 + length b) hasResolver
        (if hasResolver then acc @ [b] else acc)"
    using g notok lt blob by (subst scanBinaries.simps) simp
  also have "\<dots> = scanBinaries (?pre @ binariesSection bs @ tail) (length ?pre) hasResolver
        (if hasResolver then acc @ [b] else acc)"
    unfolding v by (simp add: add.assoc)
  also have "\<dots> = Inr (length ?pre + length (binariesSection bs) + (if tail = [] then 0 else 4),
                if hasResolver then (if hasResolver then acc @ [b] else acc) @ bs
                else (if hasResolver then acc @ [b] else acc), tail \<noteq> [])"
    by (rule Cons.IH [OF rest Cons.prems(2)])
  finally show ?case by simp
qed

lemma getFloat64_at:
  "length idBytes = 8 \<Longrightarrow>
     getFloat64 (pre @ idBytes @ rest) (length pre) = Inr (decodeFloat64 idBytes)"
  by (simp add: getFloat64_def)

lemma binary_content_section:
  assumes "length idBytes = 8"
      and "\<forall>b \<in> set bs. length b \<le> MAX_SUPPORTED_ARRAY_BUFFER_SIZE"
      and "tail = [] \<or> (\<exists>rest. tail = setUint32 NEXT_BINARIES_PACKET_TOKEN @ rest)"
  shows "processBinaryContentPacket env (pre @ idBytes @ binariesSection bs @ tail)
           (length pre) st =
         andThen
           (fireResolver env (decodeFloat64 idBytes)
              (if resolverFor st (decodeFloat64 idBytes) \<noteq> None then bs else []) st)
           (\<lambda>st3. if tail = [] then (None, st3)
              else processBinaryContentPacket env (pre @ idBytes @ binariesSection bs @ tail)
                     (length pre + 8 + length (binariesSection bs) + 4) st3)"
proof -
  let ?view = "pre @ idBytes @ binariesSection bs @ tail"
  have id: "getFloat64 ?view (length pre) = Inr (decodeFloat64 idBytes)"
    by (rule getFloat64_at [OF assms(1)])
  have scan: "scanBinaries ?view (length pre + 8) h [] =
        Inr (length pre + 8 + length (binariesSection bs) + (if tail = [] then 0 else 4),
             if h then bs else [], tail \<noteq> [])" for h
  proof -
    have "scanBinaries ((pre @ idBytes) @ binariesSection bs @ tail) (length (pre @ idBytes))
          h [] =
        Inr (length (pre @ idBytes) + length (binariesSection bs) + (if tail = [] then 0 else 4),
             if h then [] @ bs else [], tail \<noteq> [])"
      by (rule scanBinaries_section [OF assms(2,3)])
    then show ?thesis using assms(1) by simp
  qed
  show ?thesis
  proof (cases "resolverFor st (decodeFloat64 idBytes) = None")
    case True
    then show ?thesis
      by (subst processBinaryContentPacket.simps)
         (simp add: id scan [of False] andThen_def split: option.splits prod.splits)
  next
    case False
    then show ?thesis
      by (subst processBinaryContentPacket.simps)
         (simp add: id scan [of True] andThen_def split: option.splits prod.splits)
  qed
qed

lemma binary_content_truncated:
  "length view < offset + 8 \<Longrightarrow>
     processBinaryContentPacket env view offset st = (Some RangeError, st)"
  by (subst processBinaryContentPacket.simps) (simp add: getFloat64_def)

text \<open>
  C5, as amended. A \<open>BinaryContent\<close> packet starts at some offset of the frame with its
  id; its blobs follow, each behind its length, up to the end of the frame or up to a
  length field equal to \<open>NEXT_BINARIES_PACKET_TOKEN\<close>. When a resolver is registered for
  the id, the resolver is removed, its timeout cleared, and its callback called once,
  with exactly these blobs; the callback no longer finds the resolver. After the token
  the parser goes on in the same frame, right behind the token, where it reads the next
  packet: its id first.
\<close>

theorem binary_content_resolver_fired_once:
  assumes "length idBytes = 8" and "decodeFloat64 idBytes = Some n"
      and "map_of (binaryContentResolver st) (NumKey n) = Some resolver"
      and "\<forall>b \<in> set bs. length b \<le> MAX_SUPPORTED_ARRAY_BUFFER_SIZE"
      and "tail = [] \<or> (\<exists>rest. tail = setUint32 NEXT_BINARIES_PACKET_TOKEN @ rest)"
  shows "(let view = pre @ idBytes @ binariesSection bs @ tail;
              st1 = st\<lparr>binaryContentResolver :=
                         AList.delete (NumKey n) (binaryContentResolver st)\<rparr>;
              st2 = clearTimeout (Some (timeout resolver)) st1
          in map_of (binaryContentResolver st2) (NumKey n) = None
           \<and> processBinaryContentPacket env view (length pre) st =
               andThen (runResolverCallback env (callback resolver) (Inr bs) st2)
                 (\<lambda>st3. if tail = [] then (None, st3)
                    else processBinaryContentPacket env view
                           (length pre + 8 + length (binariesSection bs) + 4) st3))"
proof -
  have res: "resolverFor st (Some n) = Some resolver"
    using assms(3) by (simp add: resolverFor_def)
  have gone: "map_of (AList.delete (NumKey n) (binaryContentResolver st)) (NumKey n) = None"
    by (simp add: delete_conv')
  show ?thesis
    using gone binary_content_section [OF assms(1,4,5), where pre = pre and env = env and st = st]
    by (simp add: assms(2) res fireResolver_def Let_def clearTimeout_def)
qed

lemma decode_idOne: "decodeFloat64 idOne = Some 1"
  by (simp add: decodeFloat64_def idOne_def bigEndian_def Let_def)

lemma decode_idTwo: "decodeFloat64 idTwo = Some 2"
  by (simp add: decodeFloat64_def idTwo_def bigEndian_def Let_def)

lemmas example_states = waitingTransport_def fileDelivered_def bothDelivered_def
  fileResolver_def iconResolver_def freshTransport_def new_transport_def

lemmas callback_defs = runResolverCallback_def runDataCallback_def processTransmit_def
  clearTimeout_def binaryAt_def emit_def quietEnv_def Let_def

lemma file_callback:
  "runResolverCallback quietEnv (callback fileResolver) (Inr [[1, 2, 3]])
     (clearTimeout (Some (timeout fileResolver))
        (waitingTransport\<lparr>binaryContentResolver :=
            AList.delete (NumKey 1) (binaryContentResolver waitingTransport)\<rparr>)) =
   (None, fileDelivered)"
  by (simp add: example_states callback_defs)

lemma icon_callback:
  "runResolverCallback quietEnv (callback iconResolver) (Inr [[9]])
     (clearTimeout (Some (timeout iconResolver))
        (fileDelivered\<lparr>binaryContentResolver :=
            AList.delete (NumKey 2) (binaryContentResolver fileDelivered)\<rparr>)) =
   (None, bothDelivered)"
  by (simp add: example_states callback_defs)

theorem binary_content_resolver_fired_once_witness:
  "length idOne = 8 \<and> decodeFloat64 idOne = Some 1
   \<and> map_of (binaryContentResolver waitingTransport) (NumKey 1) = Some fileResolver
   \<and> length [1, 2, 3 :: 8 word] \<le> MAX_SUPPORTED_ARRAY_BUFFER_SIZE
   \<and> twoPackets = [5] @ idOne @ binariesSection [[1, 2, 3]]
        @ setUint32 NEXT_BINARIES_PACKET_TOKEN @ idTwo @ binariesSection [[9]]
   \<and> processBinaryContentPacket quietEnv twoPackets 1 waitingTransport =
       processBinaryContentPacket quietEnv twoPackets 20 fileDelivered
   \<and> processBinaryContentPacket quietEnv twoPackets 20 fileDelivered = (None, bothDelivered)
   \<and> processBinaryPacket quietEnv twoPackets waitingTransport = (None, bothDelivered)"
proof -
  have sizes: "\<forall>b \<in> set [[1, 2, 3 :: 8 word]]. length b \<le> MAX_SUPPORTED_ARRAY_BUFFER_SIZE"
    "\<forall>b \<in> set [[9 :: 8 word]]. length b \<le> MAX_SUPPORTED_ARRAY_BUFFER_SIZE"
    by (simp_all add: MAX_SUPPORTED_ARRAY_BUFFER_SIZE_def MAX_UINT_32_def)
  have len: "length idOne = 8" "length idTwo = 8" by (simp_all add: idOne_def idTwo_def)
  have r1: "map_of (binaryContentResolver waitingTransport) (NumKey 1) = Some fileResolver"
    by (simp add: waitingTransport_def fileResolver_def)
  have r2: "map_of (binaryContentResolver fileDelivered) (NumKey 2) = Some iconResolver"
    by (simp add: fileDelivered_def)
  have t1: "setUint32 NEXT_BINARIES_PACKET_TOKEN @ idTwo @ binariesSection [[9]] = [] \<or>
      (\<exists>rest. setUint32 NEXT_BINARIES_PACKET_TOKEN @ idTwo @ binariesSection [[9]] =
         setUint32 NEXT_BINARIES_PACKET_TOKEN @ rest)"
    by blast
  have t2: "([] :: 8 word list) = [] \<or>
      (\<exists>rest. [] = setUint32 NEXT_BINARIES_PACKET_TOKEN @ rest)"
    by blast
  have nonempty: "setUint32 NEXT_BINARIES_PACKET_TOKEN @ idTwo @ binariesSection [[9]] \<noteq> []"
    by (simp add: setUint32_def)
  have first: "processBinaryContentPacket quietEnv twoPackets 1 waitingTransport =
       processBinaryContentPacket quietEnv twoPackets 20 fileDelivered"
    using binary_content_resolver_fired_once [OF len(1) decode_idOne r1 sizes(1) t1,
        of "[5]" quietEnv] nonempty
    by (simp add: Let_def file_callback andThen_def twoPackets_def)
  have second: "processBinaryContentPacket quietEnv twoPackets 20 fileDelivered =
       (None, bothDelivered)"
    using binary_content_resolver_fired_once [OF len(2) decode_idTwo r2 sizes(2) t2,
        of "[5] @ idOne @ binariesSection [[1, 2, 3]] @ setUint32 NEXT_BINARIES_PACKET_TOKEN"
           quietEnv]
    by (simp add: Let_def icon_callback andThen_def twoPackets_def len)
  have whole: "processBinaryPacket quietEnv twoPackets waitingTransport =
      processBinaryContentPacket quietEnv twoPackets 1 waitingTransport"
    by (simp add: processBinaryPacket_def twoPackets_def)
  from first second whole len(1) decode_idOne r1 sizes(1) show ?thesis
    by (simp add: twoPackets_def)
qed

lemma first_frame:
  "emitMessage quietEnv (BinaryMsg firstFrame) oneWaiting = (None, afterFirstFrame)"
proof -
  have len: "length idOne = 8" by (simp add: idOne_def)
  have sizes: "\<forall>b \<in> set [[1, 2, 3 :: 8 word]]. length b \<le> MAX_SUPPORTED_ARRAY_BUFFER_SIZE"
    by (simp add: MAX_SUPPORTED_ARRAY_BUFFER_SIZE_def MAX_UINT_32_def)
  have tail: "setUint32 NEXT_BINARIES_PACKET_TOKEN = [] \<or>
      (\<exists>rest. setUint32 NEXT_BINARIES_PACKET_TOKEN = setUint32 NEXT_BINARIES_PACKET_TOKEN @ rest)"
    by simp
  have fire: "fireResolver quietEnv (Some 1) [[1, 2, 3]] oneWaiting =
      (None, afterFirstFrame\<lparr>trace := butlast (trace afterFirstFrame),
                              observed := butlast (observed afterFirstFrame)\<rparr>)"
    by (simp add: fireResolver_def resolverFor_def oneWaiting_def afterFirstFrame_def
        fileResolver_def freshTransport_def new_transport_def callback_defs)
  have res: "resolverFor oneWaiting (Some 1) \<noteq> None"
    by (simp add: resolverFor_def oneWaiting_def)
  have "processBinaryContentPacket quietEnv firstFrame 1 oneWaiting =
      processBinaryContentPacket quietEnv firstFrame 20
        (afterFirstFrame\<lparr>trace := butlast (trace afterFirstFrame),
                              observed := butlast (observed afterFirstFrame)\<rparr>)"
    using binary_content_section [OF len sizes tail, where pre = "[5]" and env = quietEnv
        and st = oneWaiting] res
    by (simp add: decode_idOne fire andThen_def firstFrame_def setUint32_def)
  also have "\<dots> = (Some RangeError, afterFirstFrame\<lparr>trace := butlast (trace afterFirstFrame),
                              observed := butlast (observed afterFirstFrame)\<rparr>)"
    by (rule binary_content_truncated) (simp add: firstFrame_def idOne_def)
  finally have "processBinaryPacket quietEnv firstFrame oneWaiting =
      (Some RangeError, afterFirstFrame\<lparr>trace := butlast (trace afterFirstFrame),
                              observed := butlast (observed afterFirstFrame)\<rparr>)"
    by (simp add: processBinaryPacket_def firstFrame_def)
  moreover have "length firstFrame \<noteq> 1" by (simp add: firstFrame_def idOne_def)
  ultimately show ?thesis
    by (simp add: emitMessage_def tryCatch_def callOnInvalidMessage_def quietEnv_def
        afterFirstFrame_def emit_def freshTransport_def new_transport_def)
qed

lemma next_frame:
  "emitMessage quietEnv (BinaryMsg nextFrame) afterFirstFrame = (None, afterFirstFrame)"
proof -
  have len: "length idOne = 8" by (simp add: idOne_def)
  have sizes: "\<forall>b \<in> set [[9 :: 8 word]]. length b \<le> MAX_SUPPORTED_ARRAY_BUFFER_SIZE"
    by (simp add: MAX_SUPPORTED_ARRAY_BUFFER_SIZE_def MAX_UINT_32_def)
  have tail: "([] :: 8 word list) = [] \<or>
      (\<exists>rest. [] = setUint32 NEXT_BINARIES_PACKET_TOKEN @ rest)"
    by simp
  have res: "resolverFor afterFirstFrame (Some 1) = None"
    by (simp add: resolverFor_def afterFirstFrame_def freshTransport_def new_transport_def)
  have "processBinaryContentPacket quietEnv nextFrame 1 afterFirstFrame = (None, afterFirstFrame)"
    using binary_content_section [OF len sizes tail, where pre = "[5]" and env = quietEnv
        and st = afterFirstFrame]
    by (simp add: decode_idOne res fireResolver_def andThen_def nextFrame_def)
  then have "processBinaryPacket quietEnv nextFrame afterFirstFrame = (None, afterFirstFrame)"
    by (simp add: processBinaryPacket_def nextFrame_def)
  moreover have "length nextFrame \<noteq> 1" by (simp add: nextFrame_def idOne_def)
  ultimately show ?thesis
    by (simp add: emitMessage_def tryCatch_def)
qed

text \<open>
  The claim as the spec states it fails on a frame that ends with the token, followed by
  a frame with the same id: the first frame delivers its blob and then, reading an id
  behind the token, throws a \<open>RangeError\<close>, which \<open>emitMessage\<close> hands to
  \<open>onInvalidMessage\<close>; the second frame finds no resolver and delivers nothing.
\<close>

theorem binary_content_resolver_fired_once_counterexample:
  "map_of (binaryContentResolver oneWaiting) (NumKey 1) = Some fileResolver
   \<and> firstFrame = [5] @ idOne @ binariesSection [[1, 2, 3]] @ setUint32 NEXT_BINARIES_PACKET_TOKEN
   \<and> nextFrame = [5] @ idOne @ binariesSection [[9]]
   \<and> decodeFloat64 idOne = Some 1
   \<and> emitMessage quietEnv (BinaryMsg firstFrame) oneWaiting = (None, afterFirstFrame)
   \<and> emitMessage quietEnv (BinaryMsg nextFrame) afterFirstFrame = (None, afterFirstFrame)
   \<and> trace afterFirstFrame =
       [ClearTimeout (Some 0),
        ResolverCallback (BinaryCb (TransmitCb ''file'' (DT Binary))) (Inr [[1, 2, 3]]),
        CallOnTransmit ''file'' (RBlob [1, 2, 3]) (DT Binary),
        CallOnInvalidMessage RangeError]"
  using first_frame next_frame decode_idOne
  by (simp add: oneWaiting_def firstFrame_def nextFrame_def afterFirstFrame_def)

section \<open>The response timeout of an invoke\<close>

lemma streamsOf_append [simp]: "streamsOf (xs @ ys) = streamsOf xs @ streamsOf ys"
  by (simp add: streamsOf_def)

lemma runtimeKept_refl [simp]: "runtimeKept st st"
  by (simp add: runtimeKept_def)

lemma runtimeKept_trans: "runtimeKept st st1 \<Longrightarrow> runtimeKept st1 st2 \<Longrightarrow> runtimeKept st st2"
  by (simp add: runtimeKept_def)

lemma runtimeKept_streamId: "runtimeKept st (snd (getNewStreamId b st))"
  by (simp add: runtimeKept_def getNewStreamId_def Let_def)

lemma process_streams:
  "processMixedJSONDeep esc v bins strs st = (w, bins', strs', st')
     \<Longrightarrow> runtimeKept st st'
       \<and> strs' = strs @ (if streamsEnabled (options st) then streamsOf (leaves v) else [])"
  "processElements esc vs bins strs st = (ws, bins', strs', st')
     \<Longrightarrow> runtimeKept st st'
       \<and> strs' = strs @ (if streamsEnabled (options st) then streamsOf (leavesElements vs) else [])"
  "processFields esc kvs clone bins strs st = (clone', bins', strs', st')
     \<Longrightarrow> runtimeKept st st'
       \<and> strs' = strs @ (if streamsEnabled (options st) then streamsOf (leavesFields kvs) else [])"
proof (induction esc v bins strs st and esc vs bins strs st and esc kvs clone bins strs st
    arbitrary: w bins' strs' st' and ws bins' strs' st' and clone' bins' strs' st'
    rule: processMixedJSONDeep_processElements_processFields.induct)
  case (1 esc b binaries streams st)
  then show ?case by (simp add: streamsOf_def)
next
  case (2 esc wstr binaries streams st)
  show ?case
  proof (cases "streamsEnabled (options st)")
    case True
    with "2.prems" have "strs' = streams @ [wstr]"
      and "st' = emit (StreamCall (ws_ref wstr) (W_init (fst (getNewStreamId (binary wstr) st))))
                   (snd (getNewStreamId (binary wstr) st))"
      by (simp_all add: Let_def split: prod.splits)
    then show ?thesis
      using True by (simp add: streamsOf_def runtimeKept_def getNewStreamId_def Let_def)
  next
    case False
    with "2.prems" show ?thesis by simp
  qed
next
  case (3 esc xs binaries streams st)
  obtain ys b1 s1 st1 where q: "processElements esc xs binaries streams st = (ys, b1, s1, st1)"
    by (cases "processElements esc xs binaries streams st") auto
  with "3.prems" have "strs' = s1" "st' = st1" by simp_all
  with "3.IH" [OF q] show ?case by simp
next
  case (4 esc kvs binaries streams st)
  obtain c1 b1 s1 st1 where q: "processFields esc kvs [] binaries streams st = (c1, b1, s1, st1)"
    by (cases "processFields esc kvs [] binaries streams st") auto
  with "4.prems" have "strs' = s1" "st' = st1" by simp_all
  with "4.IH" [OF q] show ?case by simp
next
  case (5 esc d binaries streams st)
  then show ?case by (simp add: streamsOf_def)
next
  case (6 esc binaries streams st)
  then show ?case by (simp add: streamsOf_def)
next
  case (7 esc b binaries streams st)
  then show ?case by (simp add: streamsOf_def)
next
  case (8 esc n binaries streams st)
  then show ?case by (simp add: streamsOf_def)
next
  case (9 esc s binaries streams st)
  then show ?case by (simp add: streamsOf_def)
next
  case (10 esc binaries streams st)
  then show ?case by (simp add: streamsOf_def)
next
  case (11 esc x xs binaries streams st)
  obtain y b1 s1 st1 where p: "processMixedJSONDeep esc x binaries streams st = (y, b1, s1, st1)"
    by (cases "processMixedJSONDeep esc x binaries streams st") auto
  obtain ys b2 s2 st2 where q: "processElements esc xs b1 s1 st1 = (ys, b2, s2, st2)"
    by (cases "processElements esc xs b1 s1 st1") auto
  from "11.prems" p q have r: "strs' = s2" "st' = st2" by simp_all
  note a = "11.IH"(1) [OF p] and b = "11.IH"(2) [OF p [symmetric] refl refl refl q]
  from a have o: "options st1 = options st" by (simp add: runtimeKept_def)
  from a b have "runtimeKept st st2" by (blast intro: runtimeKept_trans)
  moreover from a b o
  have "s2 = streams @ (if streamsEnabled (options st)
                        then streamsOf (leavesElements (x # xs)) else [])"
    by simp
  ultimately show ?case using r by simp
next
  case (12 esc clone binaries streams st)
  then show ?case by (simp add: streamsOf_def)
next
  case (13 esc key x kvs clone binaries streams st)
  obtain y b1 s1 st1 where p: "processMixedJSONDeep esc x binaries streams st = (y, b1, s1, st1)"
    by (cases "processMixedJSONDeep esc x binaries streams st") auto
  from "13.prems" p
  have q: "processFields esc kvs (assignOwn (esc key) y clone) b1 s1 st1 =
      (clone', bins', strs', st')"
    by simp
  note a = "13.IH"(1) [OF p] and b = "13.IH"(2) [OF p [symmetric] refl refl refl q]
  from a have o: "options st1 = options st" by (simp add: runtimeKept_def)
  from a b have "runtimeKept st st'" by (blast intro: runtimeKept_trans)
  moreover from a b o
  have "strs' = streams @ (if streamsEnabled (options st)
                        then streamsOf (leavesFields ((key, x) # kvs)) else [])"
    by simp
  ultimately show ?case by simp
qed

lemma prepare_mixed:
  assumes "prepareInvokeMixed env procedure data rt returnDataType callId p st = (Inr pack, st1)"
  shows "preparedFor st st1 pack callId p rt returnDataType
           (if streamsEnabled (options st) then embeddedStreams data else [])"
proof -
  let ?streams = "if streamsEnabled (options st) then embeddedStreams data else []"
  obtain data1 binaries streams st0 where w:
    "(case data of
               None \<Rightarrow> (None, [], [], st)
             | Some d \<Rightarrow>
                 (case processMixedJSONDeep (escapeKey env) d [] [] st of
                    (w, bs, ss, st') \<Rightarrow> (Some w, bs, ss, st'))) = (data1, binaries, streams, st0)"
    by (metis prod_cases4)
  have k: "runtimeKept st st0 \<and> streams = ?streams"
  proof (cases data)
    case None
    with w show ?thesis by (simp add: embeddedStreams_def)
  next
    case (Some d)
    obtain x bs ss st' where q: "processMixedJSONDeep (escapeKey env) d [] [] st = (x, bs, ss, st')"
      by (metis prod_cases4)
    with w Some have "streams = ss" "st0 = st'" by simp_all
    with process_streams(1) [OF q] Some show ?thesis by (simp add: embeddedStreams_def)
  qed
  define st2 where "st2 = (if length streams > 0 then newJoin callId p rt streams st0 else st0)"
  define afterSend where "afterSend =
     (if length streams > 0 then StreamsAfterSend callId p returnDataType streams
      else ArmAfterSend callId p returnDataType rt)"
  have j: "closedWriteStreams st2 = closedWriteStreams st"
    "invokeResponsePromises st2 = invokeResponsePromises st" "timers st2 = timers st"
    "responseJoins st2 = (if streams \<noteq> [] then responseJoins st @
               [\<lparr> j_callId = callId, j_promise = p, j_responseTimeout = rt, j_sent = False,
                  j_waiting = filter (\<lambda>s. s \<notin> set (closedWriteStreams st)) (map ws_ref streams),
                  j_done = False \<rparr>] else responseJoins st)"
    using k by (simp_all add: st2_def newJoin_def runtimeKept_def)
  have "p_promise pack = p \<and> p_afterSend pack = afterSend
      \<and> (st1 = st2 \<or> st1 = snd (getNewBinaryContentPacketId st2))"
    using assms unfolding prepareInvokeMixed_def w
    by (auto simp: Let_def st2_def afterSend_def split: prod.splits sum.splits if_splits)
  moreover have "closedWriteStreams (snd (getNewBinaryContentPacketId st2)) = closedWriteStreams st2"
    "invokeResponsePromises (snd (getNewBinaryContentPacketId st2)) = invokeResponsePromises st2"
    "timers (snd (getNewBinaryContentPacketId st2)) = timers st2"
    "responseJoins (snd (getNewBinaryContentPacketId st2)) = responseJoins st2"
    by (simp_all add: getNewBinaryContentPacketId_def Let_def)
  ultimately show ?thesis
    using j k by (auto simp: preparedFor_def afterSend_def)
qed

lemma preparedFor_start:
  assumes "preparedFor st2 st1 pack callId p rt returnDataType streams"
      and "closedWriteStreams st2 = closedWriteStreams st"
      and "invokeResponsePromises st2 = invokeResponsePromises st"
      and "timers st2 = timers st" and "responseJoins st2 = responseJoins st"
  shows "preparedFor st st1 pack callId p rt returnDataType streams"
  using assms by (simp add: preparedFor_def)

lemma getNewCid_kept:
  "options (snd (getNewCid st)) = options st"
  "nextPromise (snd (getNewCid st)) = nextPromise st"
  "closedWriteStreams (snd (getNewCid st)) = closedWriteStreams st"
  "invokeResponsePromises (snd (getNewCid st)) = invokeResponsePromises st"
  "timers (snd (getNewCid st)) = timers st"
  "responseJoins (snd (getNewCid st)) = responseJoins st"
  by (simp_all add: getNewCid_def Let_def)

lemma prepare_package:
  assumes "prepareInvoke env procedure data rt processComplexTypes returnDataType st =
             (Inr pack, st1)"
  shows "preparedFor st st1 pack (fst (getNewCid st)) (nextPromise st) rt returnDataType
           (waitedStreams st processComplexTypes data)"
proof -
  let ?callId = "fst (getNewCid st)"
  let ?p = "nextPromise st"
  let ?st2 = "(snd (getNewCid st))\<lparr>nextPromise := ?p + 1\<rparr>"
  have st2: "closedWriteStreams ?st2 = closedWriteStreams st"
    "invokeResponsePromises ?st2 = invokeResponsePromises st"
    "timers ?st2 = timers st" "responseJoins ?st2 = responseJoins st" "options ?st2 = options st"
    by (simp_all add: getNewCid_kept)
  note unfold = prepareInvoke_def Let_def split_beta getNewCid_kept
  show ?thesis
  proof (cases processComplexTypes)
    case False
    with assms have "p_afterSend pack = PlainAfterSend ?callId ?p returnDataType rt"
      "p_promise pack = ?p" "st1 = ?st2"
      by (auto simp: unfold)
    with False st2 show ?thesis
      by (simp add: preparedFor_def waitedStreams_def)
  next
    case True
    have mixed: "preparedFor st st1 pack ?callId ?p rt returnDataType
        (if streamsEnabled (options st) then embeddedStreams data else [])"
      if "prepareInvokeMixed env procedure data rt returnDataType ?callId ?p ?st2 = (Inr pack, st1)"
      using preparedFor_start [OF prepare_mixed [OF that] st2(1-4)] st2(5) by simp
    show ?thesis
    proof (cases data)
      case None
      with True assms
      have "prepareInvokeMixed env procedure data rt returnDataType ?callId ?p ?st2 = (Inr pack, st1)"
        by (simp add: unfold)
      from mixed [OF this] True show ?thesis
        by (simp add: waitedStreams_def)
    next
      case (Some d)
      show ?thesis
      proof (cases "(\<exists>wstr. d = PStream wstr \<and> streamsEnabled (options st)) \<or> (\<exists>b. d = PBlob b)")
        case False
        with True Some assms
        have "prepareInvokeMixed env procedure data rt returnDataType ?callId ?p ?st2 = (Inr pack, st1)"
          by (cases d) (simp_all add: unfold)
        from mixed [OF this] True show ?thesis
          by (simp add: waitedStreams_def)
      next
        case c: True
        then show ?thesis
        proof
          assume "\<exists>wstr. d = PStream wstr \<and> streamsEnabled (options st)"
          then obtain wstr where d: "d = PStream wstr" and en: "streamsEnabled (options st)"
            by blast
          let ?st3 = "snd (getNewStreamId (binary wstr) ?st2)"
          have st3: "closedWriteStreams ?st3 = closedWriteStreams st"
            "invokeResponsePromises ?st3 = invokeResponsePromises st"
            "timers ?st3 = timers st" "responseJoins ?st3 = responseJoins st"
            by (simp_all add: getNewStreamId_def Let_def getNewCid_kept)
          from assms True Some d en
          have "p_afterSend pack = StreamsAfterSend ?callId ?p returnDataType [wstr]"
            "p_promise pack = ?p"
            "st1 = emit (StreamCall (ws_ref wstr) (W_init (fst (getNewStreamId (binary wstr) ?st2))))
                     (newJoin ?callId ?p rt [wstr] ?st3)"
            by (auto simp: unfold)
          with st3 True en Some d show ?thesis
            by (simp add: preparedFor_def waitedStreams_def embeddedStreams_def streamsOf_def
                newJoin_def)
        next
          assume "\<exists>b. d = PBlob b"
          then obtain b where d: "d = PBlob b" by blast
          from assms True Some d
          have "p_afterSend pack = ArmAfterSend ?callId ?p returnDataType rt"
            "p_promise pack = ?p" "st1 = snd (getNewBinaryContentPacketId ?st2)"
            by (auto simp: unfold split: sum.splits)
          with st2 True Some d show ?thesis
            by (simp add: preparedFor_def waitedStreams_def embeddedStreams_def streamsOf_def
                getNewBinaryContentPacketId_def Let_def)
        qed
      qed
    qed
  qed
qed

lemma setResponseTimeout_kept:
  "responseJoins (setResponseTimeout c p rt st) = responseJoins st"
  "closedWriteStreams (setResponseTimeout c p rt st) = closedWriteStreams st"
  by (simp_all add: setResponseTimeout_def armTimeout_def setTimeout_def Let_def
      split: option.splits)

lemma setResponseTimeout_other:
  assumes "c' \<noteq> c"
  shows "untouched st (setResponseTimeout c' p rt st) c"
        "armable (setResponseTimeout c' p rt st) c = armable st c"
  using assms
  by (simp_all add: untouched_def armable_def setResponseTimeout_def armTimeout_def
      setTimeout_def Let_def invokeTimers_def update_conv' split: option.splits)

lemma setResponseTimeout_idle:
  assumes "\<not> armable st c"
  shows "setResponseTimeout c p rt st = st"
  using assms by (auto simp: armable_def setResponseTimeout_def split: option.splits)

lemma setResponseTimeout_arms:
  assumes "map_of (invokeResponsePromises st) c = Some e" and "e_timeout e = None"
  shows "map_of (invokeResponsePromises (setResponseTimeout c p rt st)) c =
           Some (e\<lparr>e_timeout := Some (nextTimer st)\<rparr>)"
        "invokeTimers (setResponseTimeout c p rt st) c = invokeTimers st c @ [nextTimer st]"
        "\<not> armable (setResponseTimeout c p rt st) c"
  using assms
  by (simp_all add: armable_def setResponseTimeout_def armTimeout_def
      setTimeout_def Let_def invokeTimers_def update_conv')

lemma runReadyJoins_kept:
  "responseJoins (runReadyJoins js st) = responseJoins st"
  "closedWriteStreams (runReadyJoins js st) = closedWriteStreams st"
  by (induction js arbitrary: st) (simp_all add: setResponseTimeout_kept)

lemma readyStep_arms:
  assumes "joinReady j" and "j_callId j = c" and "armable st c"
  shows "\<exists>e. map_of (invokeResponsePromises st) c = Some e \<and> e_timeout e = None
          \<and> map_of (invokeResponsePromises (readyStep j st)) c =
              Some (e\<lparr>e_timeout := Some (nextTimer st)\<rparr>)
          \<and> invokeTimers (readyStep j st) c = invokeTimers st c @ [nextTimer st]"
    and "\<not> armable (readyStep j st) c"
proof -
  from assms(3) obtain e where e: "map_of (invokeResponsePromises st) c = Some e"
    "e_timeout e = None"
    by (auto simp: armable_def split: option.splits)
  from assms(1,2) have st1: "readyStep j st = setResponseTimeout c (j_promise j) (j_responseTimeout j) st"
    by (simp add: readyStep_def)
  note arms = setResponseTimeout_arms [OF e, of "j_promise j" "j_responseTimeout j"]
  from arms(1,2) e
  show "\<exists>e. map_of (invokeResponsePromises st) c = Some e \<and> e_timeout e = None
          \<and> map_of (invokeResponsePromises (readyStep j st)) c =
              Some (e\<lparr>e_timeout := Some (nextTimer st)\<rparr>)
          \<and> invokeTimers (readyStep j st) c = invokeTimers st c @ [nextTimer st]"
    unfolding st1 by blast
  from arms(3) show "\<not> armable (readyStep j st) c" unfolding st1 .
qed

lemma readyStep_idle:
  assumes "\<not> (joinReady j \<and> j_callId j = c \<and> armable st c)"
  shows "untouched st (readyStep j st) c" and "armable (readyStep j st) c = armable st c"
proof -
  have "untouched st (readyStep j st) c \<and> armable (readyStep j st) c = armable st c"
  proof (cases "joinReady j")
    case r: True
    show ?thesis
    proof (cases "j_callId j = c")
      case True
      with r assms have "\<not> armable st c" by simp
      from setResponseTimeout_idle [OF this] True r show ?thesis
        by (simp add: untouched_def readyStep_def)
    next
      case False
      from setResponseTimeout_other [OF False] r show ?thesis by (simp add: readyStep_def)
    qed
  next
    case False
    then show ?thesis by (simp add: untouched_def readyStep_def)
  qed
  then show "untouched st (readyStep j st) c" and "armable (readyStep j st) c = armable st c"
    by simp_all
qed

lemma runReadyJoins_step: "runReadyJoins (j # js) st = runReadyJoins js (readyStep j st)"
  by (simp add: readyStep_def)

lemma runReadyJoins_idle:
  assumes "\<not> (armable st c \<and> (\<exists>j \<in> set js. j_callId j = c \<and> joinReady j))"
  shows "untouched st (runReadyJoins js st) c"
  using assms
proof (induction js arbitrary: st)
  case Nil
  show ?case by (simp add: untouched_def)
next
  case (Cons j js)
  from Cons.prems have no: "\<not> (joinReady j \<and> j_callId j = c \<and> armable st c)" by auto
  note idle = readyStep_idle [OF no]
  from Cons.prems idle(2)
  have "\<not> (armable (readyStep j st) c \<and> (\<exists>j \<in> set js. j_callId j = c \<and> joinReady j))"
    by auto
  from Cons.IH [OF this] idle(1) show ?case
    unfolding runReadyJoins_step by (simp add: untouched_def)
qed

lemma runReadyJoins_arms:
  assumes "armable st c" and "\<exists>j \<in> set js. j_callId j = c \<and> joinReady j"
  shows "\<exists>e h. map_of (invokeResponsePromises st) c = Some e \<and> e_timeout e = None
          \<and> map_of (invokeResponsePromises (runReadyJoins js st)) c =
              Some (e\<lparr>e_timeout := Some h\<rparr>)
          \<and> invokeTimers (runReadyJoins js st) c = invokeTimers st c @ [h]"
  using assms
proof (induction js arbitrary: st)
  case Nil
  then show ?case by simp
next
  case (Cons j js)
  show ?case
  proof (cases "joinReady j \<and> j_callId j = c")
    case True
    with Cons.prems(1) readyStep_arms [of j c st] obtain e where
      e: "map_of (invokeResponsePromises st) c = Some e" "e_timeout e = None"
         "map_of (invokeResponsePromises (readyStep j st)) c =
              Some (e\<lparr>e_timeout := Some (nextTimer st)\<rparr>)"
         "invokeTimers (readyStep j st) c = invokeTimers st c @ [nextTimer st]"
      and na: "\<not> armable (readyStep j st) c"
      by blast
    from na have "untouched (readyStep j st) (runReadyJoins js (readyStep j st)) c"
      by (intro runReadyJoins_idle) simp
    with e(3,4)
    have "map_of (invokeResponsePromises (runReadyJoins (j # js) st)) c =
              Some (e\<lparr>e_timeout := Some (nextTimer st)\<rparr>)"
      "invokeTimers (runReadyJoins (j # js) st) c = invokeTimers st c @ [nextTimer st]"
      unfolding runReadyJoins_step by (simp_all add: untouched_def)
    with e(1,2) show ?thesis by blast
  next
    case False
    then have no: "\<not> (joinReady j \<and> j_callId j = c \<and> armable st c)" by blast
    note idle = readyStep_idle [OF no]
    from Cons.prems(2) False have ex: "\<exists>j \<in> set js. j_callId j = c \<and> joinReady j" by auto
    from Cons.prems(1) idle(2) have "armable (readyStep j st) c" by simp
    from Cons.IH [OF this ex] obtain e h where
      "map_of (invokeResponsePromises (readyStep j st)) c = Some e" "e_timeout e = None"
      "map_of (invokeResponsePromises (runReadyJoins js (readyStep j st))) c =
          Some (e\<lparr>e_timeout := Some h\<rparr>)"
      "invokeTimers (runReadyJoins js (readyStep j st)) c = invokeTimers (readyStep j st) c @ [h]"
      by blast
    with idle(1)
    have "map_of (invokeResponsePromises st) c = Some e \<and> e_timeout e = None
          \<and> map_of (invokeResponsePromises (runReadyJoins (j # js) st)) c =
              Some (e\<lparr>e_timeout := Some h\<rparr>)
          \<and> invokeTimers (runReadyJoins (j # js) st) c = invokeTimers st c @ [h]"
      unfolding runReadyJoins_step by (simp add: untouched_def)
    then show ?thesis by blast
  qed
qed

lemma settleJoins_kept:
  "closedWriteStreams (settleJoins st) = closedWriteStreams st"
  "responseJoins (settleJoins st) =
     map (\<lambda>j. if joinReady j then j\<lparr>j_done := True\<rparr> else j) (responseJoins st)"
  "invokeResponsePromises (settleJoins st) =
     invokeResponsePromises (runReadyJoins (responseJoins st) st)"
  "invokeTimers (settleJoins st) c = invokeTimers (runReadyJoins (responseJoins st) st) c"
  by (simp_all add: settleJoins_def Let_def runReadyJoins_kept invokeTimers_def)

lemma settleJoins_idle:
  assumes "\<not> (armable st c \<and> (\<exists>j \<in> set (responseJoins st). j_callId j = c \<and> joinReady j))"
  shows "untouched st (settleJoins st) c"
  using runReadyJoins_idle [OF assms] by (simp add: untouched_def settleJoins_kept)

lemma settleJoins_arms:
  assumes "armable st c" and "\<exists>j \<in> set (responseJoins st). j_callId j = c \<and> joinReady j"
  shows "\<exists>e h. map_of (invokeResponsePromises st) c = Some e \<and> e_timeout e = None
          \<and> map_of (invokeResponsePromises (settleJoins st)) c = Some (e\<lparr>e_timeout := Some h\<rparr>)
          \<and> invokeTimers (settleJoins st) c = invokeTimers st c @ [h]"
  using runReadyJoins_arms [OF assms] by (simp add: settleJoins_kept)

lemma settle_joins:
  assumes "\<forall>j \<in> set (responseJoins st). j_callId j = c \<longrightarrow>
        refs \<noteq> [] \<and> j_promise j = p \<and> j_sent j = sent
        \<and> j_waiting j = filter (\<lambda>r. r \<notin> set (closedWriteStreams st)) refs
        \<and> (j_done j \<longrightarrow> sent \<and> j_waiting j = [])"
      and "refs \<noteq> [] \<longrightarrow> (\<exists>j \<in> set (responseJoins st). j_callId j = c)"
  shows "joinsTrack (settleJoins st) c p refs sent"
  unfolding joinsTrack_def settleJoins_kept
proof (intro conjI ballI impI)
  fix j' assume a: "j' \<in> set (map (\<lambda>j. if joinReady j then j\<lparr>j_done := True\<rparr> else j) (responseJoins st))"
    and b: "j_callId j' = c"
  then obtain j where j: "j \<in> set (responseJoins st)"
    and j': "j' = (if joinReady j then j\<lparr>j_done := True\<rparr> else j)"
    by auto
  from j' b have "j_callId j = c" by (simp split: if_splits)
  with assms(1) j have f: "refs \<noteq> []" "j_promise j = p" "j_sent j = sent"
    "j_waiting j = filter (\<lambda>r. r \<notin> set (closedWriteStreams st)) refs"
    "j_done j \<longrightarrow> sent \<and> j_waiting j = []"
    by blast+
  from f(1) show "refs \<noteq> []" .
  from f(2) j' show "j_promise j' = p" by simp
  from f(3) j' show "j_sent j' = sent" by simp
  from f(4) j' show "j_waiting j' = filter (\<lambda>r. r \<notin> set (closedWriteStreams st)) refs" by simp
  from f(3,5) j' show "j_done j' = (sent \<and> j_waiting j' = [])"
    by (auto simp: joinReady_def)
next
  assume "refs \<noteq> []"
  with assms(2) obtain j where j: "j \<in> set (responseJoins st)" "j_callId j = c" by blast
  let ?mark = "\<lambda>j. if joinReady j then j\<lparr>j_done := True\<rparr> else j"
  from j(1) have "?mark j \<in> set (map ?mark (responseJoins st))" by simp
  moreover from j(2) have "j_callId (?mark j) = c" by simp
  ultimately show "\<exists>j \<in> set (map ?mark (responseJoins st)). j_callId j = c" by blast
qed

lemma untouched_trans:
  "untouched st0 st c \<Longrightarrow> untouched st st' c \<Longrightarrow> untouched st0 st' c"
  by (simp add: untouched_def)

lemma pendingArmed_kept:
  "pendingArmed st0 st c p rdt \<Longrightarrow> untouched st st' c \<Longrightarrow> pendingArmed st0 st' c p rdt"
  by (auto simp: pendingArmed_def untouched_def split: option.splits)

lemma pendingUnarmed_kept:
  "pendingUnarmed st0 st c p rdt \<Longrightarrow> untouched st st' c \<Longrightarrow> pendingUnarmed st0 st' c p rdt"
  by (simp add: pendingUnarmed_def untouched_def)

lemma pendingArmed_not_armable: "pendingArmed st0 st c p rdt \<Longrightarrow> \<not> armable st c"
  by (auto simp: pendingArmed_def armable_def split: option.splits)

lemma pendingUnarmed_armable: "pendingUnarmed st0 st c p rdt \<Longrightarrow> armable st c"
  by (simp add: pendingUnarmed_def armable_def)

lemma pendingUnarmed_arms:
  assumes "pendingUnarmed st0 st c p rdt"
      and "\<exists>e h. map_of (invokeResponsePromises st) c = Some e \<and> e_timeout e = None
          \<and> map_of (invokeResponsePromises st') c = Some (e\<lparr>e_timeout := Some h\<rparr>)
          \<and> invokeTimers st' c = invokeTimers st c @ [h]"
  shows "pendingArmed st0 st' c p rdt"
  using assms by (auto simp: pendingArmed_def pendingUnarmed_def)

lemma close_step:
  assumes J: "joinsTrack st c p refs sent" and E: "entryTrack st0 st c p rdt refs sent"
  shows "joinsTrack (streamClosed r st) c p refs sent"
    and "entryTrack st0 (streamClosed r st) c p rdt refs sent"
    and "closedWriteStreams (streamClosed r st) = r # closedWriteStreams st"
proof -
  let ?shrink = "\<lambda>j. j\<lparr>j_waiting := filter (\<lambda>s. s \<noteq> r) (j_waiting j)\<rparr>"
  define stm where "stm = st\<lparr>closedWriteStreams := r # closedWriteStreams st,
           responseJoins := map ?shrink (responseJoins st)\<rparr>"
  have sc: "streamClosed r st = settleJoins stm" by (simp add: streamClosed_def stm_def)
  have m: "closedWriteStreams stm = r # closedWriteStreams st"
    "responseJoins stm = map ?shrink (responseJoins st)"
    "invokeResponsePromises stm = invokeResponsePromises st"
    "invokeTimers stm c = invokeTimers st c"
    by (simp_all add: stm_def invokeTimers_def)
  have arm: "armable stm c = armable st c" by (simp add: armable_def m)
  have same: "untouched st stm c" by (simp add: untouched_def m)
  let ?all = "\<forall>x \<in> set refs. x \<in> set (closedWriteStreams st)"
  let ?all' = "\<forall>x \<in> set refs. x \<in> set (r # closedWriteStreams st)"
  have w: "filter (\<lambda>s. s \<noteq> r) (filter (\<lambda>x. x \<notin> set (closedWriteStreams st)) refs) =
      filter (\<lambda>x. x \<notin> set (r # closedWriteStreams st)) refs"
    by (induction refs) auto
  have each: "refs \<noteq> [] \<and> j_promise j' = p \<and> j_sent j' = sent
        \<and> j_waiting j' = filter (\<lambda>x. x \<notin> set (closedWriteStreams stm)) refs
        \<and> (j_done j' \<longrightarrow> sent \<and> j_waiting j' = [])
        \<and> (joinReady j' \<longleftrightarrow> sent \<and> ?all' \<and> \<not> ?all)"
    if "j' \<in> set (responseJoins stm)" "j_callId j' = c" for j'
  proof -
    from that(1) obtain j where j: "j \<in> set (responseJoins st)" "j' = ?shrink j"
      unfolding m by auto
    with that(2) have "j_callId j = c" by simp
    with J j(1) have f: "refs \<noteq> []" "j_promise j = p" "j_sent j = sent"
      "j_waiting j = filter (\<lambda>x. x \<notin> set (closedWriteStreams st)) refs"
      "j_done j \<longleftrightarrow> sent \<and> j_waiting j = []"
      unfolding joinsTrack_def by blast+
    have wj: "j_waiting j' = filter (\<lambda>x. x \<notin> set (r # closedWriteStreams st)) refs"
      using j(2) f(4) w by simp
    have e1: "(j_waiting j = []) = ?all" unfolding f(4) by (simp add: filter_empty_conv)
    have e2: "(j_waiting j' = []) = ?all'" unfolding wj by (simp add: filter_empty_conv)
    have d: "j_done j' = j_done j" "j_sent j' = sent" "j_promise j' = p"
      using j(2) f by simp_all
    have "?all \<longrightarrow> ?all'" by auto
    with f(1,5) wj e1 e2 d show ?thesis
      unfolding joinReady_def m by auto
  qed
  have fire: "(\<exists>j \<in> set (responseJoins stm). j_callId j = c \<and> joinReady j)
      \<longleftrightarrow> sent \<and> ?all' \<and> \<not> ?all"
  proof
    assume "\<exists>j \<in> set (responseJoins stm). j_callId j = c \<and> joinReady j"
    with each show "sent \<and> ?all' \<and> \<not> ?all" by blast
  next
    assume a: "sent \<and> ?all' \<and> \<not> ?all"
    then have "refs \<noteq> []" by auto
    with J obtain j where j: "j \<in> set (responseJoins st)" "j_callId j = c"
      unfolding joinsTrack_def by blast
    then have "?shrink j \<in> set (responseJoins stm)" "j_callId (?shrink j) = c"
      unfolding m by simp_all
    with each [of "?shrink j"] a
    show "\<exists>j \<in> set (responseJoins stm). j_callId j = c \<and> joinReady j" by blast
  qed
  have ex: "refs \<noteq> [] \<longrightarrow> (\<exists>j \<in> set (responseJoins stm). j_callId j = c)"
  proof
    assume "refs \<noteq> []"
    with J obtain j where j: "j \<in> set (responseJoins st)" "j_callId j = c"
      unfolding joinsTrack_def by blast
    then have "?shrink j \<in> set (responseJoins stm)" "j_callId (?shrink j) = c"
      unfolding m by simp_all
    then show "\<exists>j \<in> set (responseJoins stm). j_callId j = c" by blast
  qed
  have "joinsTrack (settleJoins stm) c p refs sent"
    by (rule settle_joins) (use each ex in blast)+
  then show "joinsTrack (streamClosed r st) c p refs sent" unfolding sc .
  show cl: "closedWriteStreams (streamClosed r st) = r # closedWriteStreams st"
    unfolding sc by (simp add: settleJoins_kept m)
  have idle: "untouched st (settleJoins stm) c"
    if "\<not> (armable st c \<and> sent \<and> ?all' \<and> \<not> ?all)"
    using settleJoins_idle [of stm c] that fire arm same by (blast intro: untouched_trans)
  have "entryTrack st0 (settleJoins stm) c p rdt refs sent"
  proof (cases sent)
    case False
    with E have "untouched st0 st c" by (simp add: entryTrack_def)
    with idle False have "untouched st0 (settleJoins stm) c" by (blast intro: untouched_trans)
    with False show ?thesis by (simp add: entryTrack_def)
  next
    case True
    show ?thesis
    proof (cases ?all)
      case a: True
      with True E have pa: "pendingArmed st0 st c p rdt" by (simp add: entryTrack_def)
      from a idle have "untouched st (settleJoins stm) c" by blast
      with pa have "pendingArmed st0 (settleJoins stm) c p rdt" by (rule pendingArmed_kept)
      moreover from a have ?all' by auto
      ultimately show ?thesis using True cl unfolding sc by (auto simp: entryTrack_def)
    next
      case na: False
      with True E have pu: "pendingUnarmed st0 st c p rdt" by (simp add: entryTrack_def)
      show ?thesis
      proof (cases ?all')
        case True
        from pu have "armable stm c" unfolding arm by (rule pendingUnarmed_armable)
        moreover from fire \<open>sent\<close> True na
        have "\<exists>j \<in> set (responseJoins stm). j_callId j = c \<and> joinReady j" by blast
        ultimately have "\<exists>e h. map_of (invokeResponsePromises stm) c = Some e \<and> e_timeout e = None
          \<and> map_of (invokeResponsePromises (settleJoins stm)) c = Some (e\<lparr>e_timeout := Some h\<rparr>)
          \<and> invokeTimers (settleJoins stm) c = invokeTimers stm c @ [h]"
          by (rule settleJoins_arms)
        then have "pendingArmed st0 (settleJoins stm) c p rdt"
          unfolding m by (rule pendingUnarmed_arms [OF pu])
        with True \<open>sent\<close> cl show ?thesis unfolding sc by (auto simp: entryTrack_def)
      next
        case False
        with idle have "untouched st (settleJoins stm) c" by blast
        with pu have "pendingUnarmed st0 (settleJoins stm) c p rdt" by (rule pendingUnarmed_kept)
        with False \<open>sent\<close> cl show ?thesis unfolding sc by (auto simp: entryTrack_def)
      qed
    qed
  qed
  then show "entryTrack st0 (streamClosed r st) c p rdt refs sent" unfolding sc .
qed

lemma onTransmittedAll_kept:
  "responseJoins (onTransmittedAll ws st) = responseJoins st"
  "closedWriteStreams (onTransmittedAll ws st) = closedWriteStreams st"
  "invokeResponsePromises (onTransmittedAll ws st) = invokeResponsePromises st"
  "timers (onTransmittedAll ws st) = timers st"
  by (induction ws arbitrary: st) simp_all

lemma aftersend_streams:
  assumes J: "joinsTrack st c p refs False" and E: "untouched st0 st c"
      and nonempty: "refs \<noteq> []"
  shows "joinsTrack (runAfterSend (StreamsAfterSend c p rdt streams) st) c p refs True"
    and "entryTrack st0 (runAfterSend (StreamsAfterSend c p rdt streams) st) c p rdt refs True"
    and "closedWriteStreams (runAfterSend (StreamsAfterSend c p rdt streams) st) =
           closedWriteStreams st"
proof -
  let ?mark = "\<lambda>j. if j_promise j = p then j\<lparr>j_sent := True\<rparr> else j"
  define stm where "stm = onTransmittedAll streams (markSent p (setResponse c p rdt st))"
  have sc: "runAfterSend (StreamsAfterSend c p rdt streams) st = settleJoins stm"
    by (simp add: runAfterSend_def stm_def)
  have m: "closedWriteStreams stm = closedWriteStreams st"
    "responseJoins stm = map ?mark (responseJoins st)"
    "map_of (invokeResponsePromises stm) c =
       Some \<lparr> e_promise = p, e_timeout = None, e_returnDataType = rdt \<rparr>"
    "invokeTimers stm c = invokeTimers st c"
    by (simp_all add: stm_def onTransmittedAll_kept markSent_def setResponse_def
        invokeTimers_def update_conv')
  from E have pu: "pendingUnarmed st0 stm c p rdt"
    by (simp add: pendingUnarmed_def untouched_def m)
  let ?all = "\<forall>x \<in> set refs. x \<in> set (closedWriteStreams st)"
  have each: "refs \<noteq> [] \<and> j_promise j' = p \<and> j_sent j' = True
        \<and> j_waiting j' = filter (\<lambda>x. x \<notin> set (closedWriteStreams stm)) refs
        \<and> (j_done j' \<longrightarrow> True \<and> j_waiting j' = [])
        \<and> (joinReady j' \<longleftrightarrow> ?all)"
    if "j' \<in> set (responseJoins stm)" "j_callId j' = c" for j'
  proof -
    from that(1) obtain j where j: "j \<in> set (responseJoins st)" "j' = ?mark j"
      unfolding m by auto
    with that(2) have "j_callId j = c" by (simp split: if_splits)
    with J j(1) have f: "j_promise j = p" "j_sent j = False"
      "j_waiting j = filter (\<lambda>x. x \<notin> set (closedWriteStreams st)) refs"
      "\<not> j_done j"
      unfolding joinsTrack_def by blast+
    from f(1) j(2) have j': "j' = j\<lparr>j_sent := True\<rparr>" by simp
    have e1: "(j_waiting j = []) = ?all" unfolding f(3) by (simp add: filter_empty_conv)
    from f e1 nonempty show ?thesis unfolding j' joinReady_def m by simp
  qed
  from nonempty J obtain j where j: "j \<in> set (responseJoins st)" "j_callId j = c"
    unfolding joinsTrack_def by blast
  then have mj: "?mark j \<in> set (responseJoins stm)" "j_callId (?mark j) = c"
    unfolding m by simp_all
  then have ex: "refs \<noteq> [] \<longrightarrow> (\<exists>j \<in> set (responseJoins stm). j_callId j = c)" by blast
  have fire: "(\<exists>j \<in> set (responseJoins stm). j_callId j = c \<and> joinReady j) \<longleftrightarrow> ?all"
    using each mj by blast
  have "joinsTrack (settleJoins stm) c p refs True"
    by (rule settle_joins) (use each ex in blast)+
  then show "joinsTrack (runAfterSend (StreamsAfterSend c p rdt streams) st) c p refs True"
    unfolding sc .
  show cl: "closedWriteStreams (runAfterSend (StreamsAfterSend c p rdt streams) st) =
           closedWriteStreams st"
    unfolding sc by (simp add: settleJoins_kept m)
  have "entryTrack st0 (settleJoins stm) c p rdt refs True"
  proof (cases ?all)
    case True
    from pu have "armable stm c" by (rule pendingUnarmed_armable)
    moreover from fire True
    have "\<exists>j \<in> set (responseJoins stm). j_callId j = c \<and> joinReady j" by blast
    ultimately have "\<exists>e h. map_of (invokeResponsePromises stm) c = Some e \<and> e_timeout e = None
          \<and> map_of (invokeResponsePromises (settleJoins stm)) c = Some (e\<lparr>e_timeout := Some h\<rparr>)
          \<and> invokeTimers (settleJoins stm) c = invokeTimers stm c @ [h]"
      by (rule settleJoins_arms)
    then have "pendingArmed st0 (settleJoins stm) c p rdt"
      by (rule pendingUnarmed_arms [OF pu])
    with True cl show ?thesis unfolding sc by (auto simp: entryTrack_def)
  next
    case False
    with fire have "untouched stm (settleJoins stm) c" by (intro settleJoins_idle) blast
    with pu have "pendingUnarmed st0 (settleJoins stm) c p rdt" by (rule pendingUnarmed_kept)
    with False cl show ?thesis unfolding sc by (auto simp: entryTrack_def)
  qed
  then show "entryTrack st0 (runAfterSend (StreamsAfterSend c p rdt streams) st) c p rdt refs True"
    unfolding sc .
qed

lemma aftersend_direct:
  assumes a: "a = ArmAfterSend c p rdt rt \<or> a = PlainAfterSend c p rdt rt"
      and J: "joinsTrack st c p [] False" and E: "untouched st0 st c"
  shows "joinsTrack (runAfterSend a st) c p [] True"
    and "entryTrack st0 (runAfterSend a st) c p rdt [] True"
    and "closedWriteStreams (runAfterSend a st) = closedWriteStreams st"
proof -
  let ?e = "\<lparr> e_promise = p, e_timeout = None, e_returnDataType = rdt \<rparr>"
  define stm where "stm = setResponse c p rdt st"
  have m: "map_of (invokeResponsePromises stm) c = Some ?e"
    "invokeTimers stm c = invokeTimers st c" "responseJoins stm = responseJoins st"
    "closedWriteStreams stm = closedWriteStreams st"
    by (simp_all add: stm_def setResponse_def invokeTimers_def update_conv')
  have run: "runAfterSend a st = setResponseTimeout c p rt stm"
    using a m(1) by (auto simp: runAfterSend_def stm_def setResponseTimeout_def Let_def)
  have "?e\<lparr>e_timeout := Some (nextTimer stm)\<rparr> =
      \<lparr> e_promise = p, e_timeout = Some (nextTimer stm), e_returnDataType = rdt \<rparr>"
    by simp
  with setResponseTimeout_arms(1,2) [OF m(1), of p rt] E
  have "pendingArmed st0 (runAfterSend a st) c p rdt"
    unfolding run by (simp add: pendingArmed_def untouched_def m)
  then show "entryTrack st0 (runAfterSend a st) c p rdt [] True"
    by (simp add: entryTrack_def)
  show "closedWriteStreams (runAfterSend a st) = closedWriteStreams st"
    unfolding run by (simp add: setResponseTimeout_kept m)
  from J show "joinsTrack (runAfterSend a st) c p [] True"
    unfolding run by (simp add: joinsTrack_def setResponseTimeout_kept m)
qed

lemma runEvents_snoc: "runEvents pack (evs @ [e]) st = runEvent pack e (runEvents pack evs st)"
  by (simp add: runEvents_def)

lemma events_track:
  assumes prep: "preparedFor st st1 pack c p rt rdt streams"
      and fresh: "\<forall>j \<in> set (responseJoins st). j_callId j \<noteq> c"
      and once: "count_list evs AfterSendFires \<le> 1"
  shows "joinsTrack (runEvents pack evs st1) c p (map ws_ref streams) (AfterSendFires \<in> set evs)
       \<and> entryTrack st (runEvents pack evs st1) c p rdt (map ws_ref streams)
            (AfterSendFires \<in> set evs)
       \<and> set (closedWriteStreams (runEvents pack evs st1)) =
            set (closedWriteStreams st) \<union> {r. StreamCloses r \<in> set evs}"
  using once
proof (induction evs rule: rev_induct)
  case Nil
  let ?refs = "map ws_ref streams"
  from prep have k: "closedWriteStreams st1 = closedWriteStreams st"
    "invokeResponsePromises st1 = invokeResponsePromises st" "timers st1 = timers st"
    by (simp_all add: preparedFor_def)
  have u: "untouched st st1 c" by (simp add: untouched_def invokeTimers_def k)
  have "joinsTrack st1 c p ?refs False"
  proof (cases "streams = []")
    case True
    with prep have "responseJoins st1 = responseJoins st" by (simp add: preparedFor_def)
    with fresh True show ?thesis by (simp add: joinsTrack_def)
  next
    case False
    with prep have "responseJoins st1 = responseJoins st @
               [\<lparr> j_callId = c, j_promise = p, j_responseTimeout = rt, j_sent = False,
                  j_waiting = filter (\<lambda>s. s \<notin> set (closedWriteStreams st)) ?refs,
                  j_done = False \<rparr>]"
      by (simp add: preparedFor_def)
    with fresh False k(1) show ?thesis by (auto simp: joinsTrack_def)
  qed
  with u k(1) show ?case by (simp add: runEvents_def entryTrack_def)
next
  case (snoc e evs)
  let ?refs = "map ws_ref streams"
  let ?st = "runEvents pack evs st1"
  from snoc.prems have le: "count_list evs AfterSendFires \<le> 1" by simp
  note ih = snoc.IH [OF le]
  show ?case
  proof (cases e)
    case (StreamCloses r)
    from ih have J: "joinsTrack ?st c p ?refs (AfterSendFires \<in> set evs)"
      and E: "entryTrack st ?st c p rdt ?refs (AfterSendFires \<in> set evs)"
      and C: "set (closedWriteStreams ?st) =
            set (closedWriteStreams st) \<union> {r. StreamCloses r \<in> set evs}"
      by blast+
    note step = close_step [OF J E, of r]
    have run: "runEvents pack (evs @ [e]) st1 = streamClosed r ?st"
      by (simp add: runEvents_snoc StreamCloses)
    have s: "(AfterSendFires \<in> set (evs @ [e])) = (AfterSendFires \<in> set evs)"
      by (simp add: StreamCloses)
    have "set (closedWriteStreams (streamClosed r ?st)) =
        set (closedWriteStreams st) \<union> {r. StreamCloses r \<in> set (evs @ [e])}"
      unfolding step(3) using C by (auto simp: StreamCloses)
    with step(1,2) show ?thesis unfolding run s by blast
  next
    case AfterSendFires
    with snoc.prems have "count_list evs AfterSendFires = 0" by simp
    then have notin: "AfterSendFires \<notin> set evs" by (simp add: count_list_0_iff)
    with ih have J: "joinsTrack ?st c p ?refs False"
      and E: "untouched st ?st c"
      and C: "set (closedWriteStreams ?st) =
            set (closedWriteStreams st) \<union> {r. StreamCloses r \<in> set evs}"
      by (simp_all add: entryTrack_def)
    have run: "runEvents pack (evs @ [e]) st1 = runAfterSend (p_afterSend pack) ?st"
      by (simp add: runEvents_snoc AfterSendFires)
    have s: "(AfterSendFires \<in> set (evs @ [e])) = True" by (simp add: AfterSendFires)
    have c': "{r. StreamCloses r \<in> set (evs @ [e])} = {r. StreamCloses r \<in> set evs}"
      by (auto simp: AfterSendFires)
    show ?thesis
    proof (cases "streams = []")
      case True
      with prep have a: "p_afterSend pack = ArmAfterSend c p rdt rt
              \<or> p_afterSend pack = PlainAfterSend c p rdt rt"
        by (simp add: preparedFor_def)
      from J True have J': "joinsTrack ?st c p [] False" by simp
      note step = aftersend_direct [OF a J' E]
      from step C True show ?thesis unfolding run s c' by simp
    next
      case False
      with prep have a: "p_afterSend pack = StreamsAfterSend c p rdt streams"
        by (simp add: preparedFor_def)
      from False have ne: "?refs \<noteq> []" by simp
      note step = aftersend_streams [OF J E ne, of rdt streams]
      from step C show ?thesis unfolding run s c' a by simp
    qed
  qed
qed

text \<open>
  C2. An invoke is prepared (with a call id that no pending join uses), and then its
  \<open>_afterSend\<close> is called at most once while \<open>closed\<close> promises of write streams resolve,
  in any order. Let \<open>streams\<close> be the write streams the transport has embedded in the
  payload. Once \<open>_afterSend\<close> has run, the handlers of the invoke's promise are installed
  under the call id; as long as one of \<open>streams\<close> has not closed, the entry has no timeout
  and no response timer was set for the call id; when all of them have closed (at once
  if there are none: plain JSON, binary, or mixed data without streams), the entry holds
  the handle of the one response timer set for the call id. Before \<open>_afterSend\<close> has run,
  the entry of the call id and its timers are as they were.
\<close>

theorem invoke_timeout_waits_for_streams:
  assumes "prepareInvoke env procedure data rt processComplexTypes returnDataType st =
             (Inr pack, st1)"
      and "\<forall>j \<in> set (responseJoins st). j_callId j \<noteq> fst (getNewCid st)"
      and "count_list evs AfterSendFires \<le> 1"
  shows "(let callId = fst (getNewCid st);
              p = p_promise pack;
              streams = waitedStreams st processComplexTypes data;
              st' = runEvents pack evs st1
          in p = nextPromise st
           \<and> (if AfterSendFires \<in> set evs then
                 (if \<forall>w \<in> set streams. closedAfter st evs (ws_ref w)
                  then pendingArmed st st' callId p returnDataType
                  else pendingUnarmed st st' callId p returnDataType)
               else untouched st st' callId))"
proof -
  let ?streams = "waitedStreams st processComplexTypes data"
  note prep = prepare_package [OF assms(1)]
  then have p: "p_promise pack = nextPromise st" by (simp add: preparedFor_def)
  note track = events_track [OF prep assms(2,3)]
  then have E: "entryTrack st (runEvents pack evs st1) (fst (getNewCid st)) (nextPromise st)
      returnDataType (map ws_ref ?streams) (AfterSendFires \<in> set evs)"
    and C: "set (closedWriteStreams (runEvents pack evs st1)) =
            set (closedWriteStreams st) \<union> {r. StreamCloses r \<in> set evs}"
    by blast+
  have all: "(\<forall>r \<in> set (map ws_ref ?streams). r \<in> set (closedWriteStreams (runEvents pack evs st1)))
      = (\<forall>w \<in> set ?streams. closedAfter st evs (ws_ref w))"
    unfolding C by (auto simp: closedAfter_def)
  from E show ?thesis
    unfolding entryTrack_def all Let_def p by simp
qed

lemma demo_waited:
  "waitedStreams freshTransport True (Some demoValue) = [demoStream 0]"
  "waitedStreams freshTransport True (Some (PNum 5)) = []"
  by (simp_all add: waitedStreams_def embeddedStreams_def streamsOf_def demoValue_def
      freshTransport_def new_transport_def DEFAULT_OPTIONS_def)

lemma demo_prepared:
  "\<exists>pack st1. streamInvoke = (Inr pack, st1)"
  "\<exists>pack st1. plainInvoke = (Inr pack, st1)"
  by (simp_all add: streamInvoke_def plainInvoke_def prepareInvoke_def prepareInvokeMixed_def
      demoValue_def demoStream_def quietEnv_def freshTransport_def new_transport_def
      DEFAULT_OPTIONS_def getNewCid_def getNewStreamId_def getNewBinaryContentPacketId_def
      createBinaryContentPacket_def MAX_SUPPORTED_ARRAY_BUFFER_SIZE_def MAX_UINT_32_def
      MAX_SAFE_INTEGER_def MIN_SAFE_INTEGER_def newJoin_def Let_def split_beta)

theorem invoke_timeout_waits_for_streams_witness:
  "responseJoins freshTransport = []
   \<and> count_list [AfterSendFires, StreamCloses 0] AfterSendFires \<le> 1
   \<and> (\<exists>pack st1. streamInvoke = (Inr pack, st1)
        \<and> untouched freshTransport (runEvents pack [StreamCloses 0] st1) 0
        \<and> pendingUnarmed freshTransport (runEvents pack [AfterSendFires] st1) 0 0 False
        \<and> pendingArmed freshTransport (runEvents pack [AfterSendFires, StreamCloses 0] st1)
             0 0 False
        \<and> pendingArmed freshTransport (runEvents pack [StreamCloses 0, AfterSendFires] st1)
             0 0 False)
   \<and> (\<exists>pack st1. plainInvoke = (Inr pack, st1)
        \<and> pendingArmed freshTransport (runEvents pack [AfterSendFires] st1) 0 0 False)"
proof -
  have joins: "responseJoins freshTransport = []"
    by (simp add: freshTransport_def new_transport_def)
  then have fresh: "\<forall>j \<in> set (responseJoins freshTransport).
      j_callId j \<noteq> fst (getNewCid freshTransport)"
    by simp
  have ids: "fst (getNewCid freshTransport) = 0" "nextPromise freshTransport = 0"
    "closedWriteStreams freshTransport = []"
    by (simp_all add: getNewCid_def freshTransport_def new_transport_def MAX_SAFE_INTEGER_def)
  have ref: "ws_ref (demoStream 0) = 0" by (simp add: demoStream_def)
  from demo_prepared(1) obtain pack st1 where a: "streamInvoke = (Inr pack, st1)" by blast
  then have a': "prepareInvoke quietEnv ''add'' (Some demoValue) None True False freshTransport =
      (Inr pack, st1)"
    by (simp add: streamInvoke_def)
  note t = invoke_timeout_waits_for_streams [OF a' fresh]
  have s1: "untouched freshTransport (runEvents pack [StreamCloses 0] st1) 0"
    using t [of "[StreamCloses 0]"] by (auto simp: Let_def ids)
  have s2: "pendingUnarmed freshTransport (runEvents pack [AfterSendFires] st1) 0 0 False"
    using t [of "[AfterSendFires]"]
    by (auto simp: Let_def ids demo_waited closedAfter_def ref)
  have s3: "pendingArmed freshTransport (runEvents pack [AfterSendFires, StreamCloses 0] st1)
             0 0 False"
    using t [of "[AfterSendFires, StreamCloses 0]"]
    by (auto simp: Let_def ids demo_waited closedAfter_def ref)
  have s4: "pendingArmed freshTransport (runEvents pack [StreamCloses 0, AfterSendFires] st1)
             0 0 False"
    using t [of "[StreamCloses 0, AfterSendFires]"]
    by (auto simp: Let_def ids demo_waited closedAfter_def ref)
  from demo_prepared(2) obtain pack2 st2 where b: "plainInvoke = (Inr pack2, st2)" by blast
  then have b': "prepareInvoke quietEnv ''add'' (Some (PNum 5)) None True False freshTransport =
      (Inr pack2, st2)"
    by (simp add: plainInvoke_def)
  have s5: "pendingArmed freshTransport (runEvents pack2 [AfterSendFires] st2) 0 0 False"
    using invoke_timeout_waits_for_streams [OF b' fresh, of "[AfterSendFires]"]
    by (auto simp: Let_def ids demo_waited)
  from a s1 s2 s3 s4 b s5 joins show ?thesis by auto
qed

end
